(* ===== verification/Prelude.thy ===== *)
theory Prelude
  imports Main "HOL-Library.Word"
begin

text \<open>
  Shared vocabulary of the development: the integer types of \<^verbatim>\<open>types.h\<close>, the faults a
  kernel function can end in, sequencing of functions that can fault, the byte-addressed
  32-bit memory the C code runs on, little-endian 32-bit accesses to it, and the generic
  lemmas on words, memory and lists that the component theories use.
\<close>

unbundle bit_operations_syntax

subsection \<open>Fact collections\<close>

named_theorems mem_simps
  \<open>reading back what was stored in the byte memory\<close>

named_theorems fault_simps
  \<open>sequencing of functions that can fault\<close>

subsection \<open>Integer types\<close>

type_synonym u8 = "8 word"
type_synonym u16 = "16 word"
type_synonym u32 = "32 word"

text \<open>
  The C type \<^verbatim>\<open>int\<close> is a \<open>32 word\<close> read with \<^const>\<open>sint\<close>.  A C truth value (\<^verbatim>\<open>bool\<close>
  is \<^verbatim>\<open>unsigned char\<close>) is a HOL \<open>bool\<close> where the code only tests it.
\<close>

subsection \<open>Faults\<close>

text \<open>
  \<open>Throw\<close> is the macro \<^verbatim>\<open>throw\<close> of \<^verbatim>\<open>error.h\<close>: the message is printed and the machine
  halts for ever.  \<open>DivideError\<close> is the processor's division exception, \<open>OutOfBounds\<close> an
  access outside an array or to an object that does not exist (a stray access in C),
  \<open>NullCall\<close> a call through a null function pointer and \<open>Hang\<close> a loop that never ends.
\<close>

datatype fault =
    Throw string
  | DivideError
  | OutOfBounds
  | NullCall
  | Hang

type_synonym 'a result = "fault + 'a"

definition bindE :: "'a result \<Rightarrow> ('a \<Rightarrow> 'b result) \<Rightarrow> 'b result" where
  "bindE r f = (case r of Inl e \<Rightarrow> Inl e | Inr a \<Rightarrow> f a)"

definition of_option :: "fault \<Rightarrow> 'a option \<Rightarrow> 'a result" where
  "of_option e r = (case r of None \<Rightarrow> Inl e | Some a \<Rightarrow> Inr a)"

lemma bindE_Inl [simp, fault_simps]: "bindE (Inl e) f = Inl e"
  by (simp add: bindE_def)

lemma bindE_Inr [simp, fault_simps]: "bindE (Inr a) f = f a"
  by (simp add: bindE_def)

lemma bindE_eq_Inr [fault_simps]: "bindE r f = Inr b \<longleftrightarrow> (\<exists>a. r = Inr a \<and> f a = Inr b)"
  by (cases r) simp_all

lemma bindE_assoc: "bindE (bindE r f) g = bindE r (\<lambda>a. bindE (f a) g)"
  by (cases r) simp_all

lemma bindE_cong [fundef_cong]:
  "r = r' \<Longrightarrow> (\<And>a. r' = Inr a \<Longrightarrow> f a = f' a) \<Longrightarrow> bindE r f = bindE r' f'"
  by (cases r') simp_all

lemma of_option_simps [simp, fault_simps]:
  "of_option e None = Inl e" "of_option e (Some a) = Inr a"
  by (simp_all add: of_option_def)

lemma of_option_eq_Inr [fault_simps]: "of_option e r = Inr a \<longleftrightarrow> r = Some a"
  by (cases r) simp_all

subsection \<open>Byte memory\<close>

type_synonym memory = "u32 \<Rightarrow> u8"

definition load32 :: "memory \<Rightarrow> u32 \<Rightarrow> u32" where
  "load32 m a =
     ucast (m a) OR push_bit 8 (ucast (m (a + 1)))
       OR push_bit 16 (ucast (m (a + 2))) OR push_bit 24 (ucast (m (a + 3)))"

definition store32 :: "memory \<Rightarrow> u32 \<Rightarrow> u32 \<Rightarrow> memory" where
  "store32 m a v = m(a := ucast v, a + 1 := ucast (drop_bit 8 v),
     a + 2 := ucast (drop_bit 16 v), a + 3 := ucast (drop_bit 24 v))"

lemma load32_store32_same [simp, mem_simps]: "load32 (store32 m a v) a = v"
proof (rule bit_word_eqI)
  fix n assume "n < LENGTH(32)"
  then consider "n < 8" | "8 \<le> n \<and> n < 16" | "16 \<le> n \<and> n < 24" | "24 \<le> n \<and> n < 32"
    by fastforce
  then show "bit (load32 (store32 m a v) a) n = bit v n"
    by cases (auto simp: load32_def store32_def bit_simps)
qed

lemma store32_other:
  "x \<noteq> a \<Longrightarrow> x \<noteq> a + 1 \<Longrightarrow> x \<noteq> a + 2 \<Longrightarrow> x \<noteq> a + 3 \<Longrightarrow> store32 m a v x = m x"
  by (simp add: store32_def)

text \<open>The top byte of a stored word, which is what \<^verbatim>\<open>mem_free\<close> looks for.\<close>

lemma load32_top_byte: "m (a + 3) = ucast (drop_bit 24 (load32 m a))"
  by (rule bit_word_eqI) (auto simp: load32_def bit_simps dest: bit_imp_le_length)

subsection \<open>Addresses as natural numbers\<close>

text \<open>
  Layout arguments are about intervals of addresses, so they are carried out on natural
  numbers below \<open>2 ^ 32\<close>; \<^const>\<open>of_nat\<close> embeds such an address in the word type.
\<close>

lemma unat_u32_less: "unat (x :: u32) < 2 ^ 32"
  using unsigned_less [of x] by simp

lemma u32_eq_iff_unat: "(x :: u32) = y \<longleftrightarrow> unat x = unat y"
  by (simp add: word_eq_iff_unsigned [where ?'a = nat])

lemma unat_of_nat_len_u32: "unat (of_nat a :: u32) = a mod 2 ^ 32"
  by (simp add: unat_of_nat)

lemma of_nat_u32_eq_iff:
  "a < 2 ^ 32 \<Longrightarrow> b < 2 ^ 32 \<Longrightarrow> (of_nat a :: u32) = of_nat b \<longleftrightarrow> a = b"
  by (metis mod_less unat_of_nat_len_u32)

lemma unat_of_nat_u32 [simp]: "a < 2 ^ 32 \<Longrightarrow> unat (of_nat a :: u32) = a"
  by (simp add: unat_of_nat)

lemma sint_of_nat_u32: "a < 2 ^ 31 \<Longrightarrow> sint (of_nat a :: u32) = int a"
  by (simp add: signed_of_nat signed_take_bit_int_eq_self)

lemma of_nat_plus_numeral: "(of_nat a :: u32) + numeral k = of_nat (a + numeral k)"
  by simp

lemma of_nat_plus_1: "(of_nat a :: u32) + 1 = of_nat (a + 1)"
  by simp

lemma store32_outside:
  assumes "a + 4 \<le> 2 ^ 32" "x < 2 ^ 32" "x < a \<or> a + 4 \<le> x"
  shows "store32 m (of_nat a) v (of_nat x) = m (of_nat x)"
proof (rule store32_other)
  have neq: "(of_nat x :: u32) \<noteq> of_nat y" if "a \<le> y" "y < a + 4" for y
    using that assms by (subst of_nat_u32_eq_iff) auto
  show "(of_nat x :: u32) \<noteq> of_nat a" using neq [of a] by simp
  show "(of_nat x :: u32) \<noteq> of_nat a + 1" using neq [of "a + 1"] by (simp add: add.commute)
  show "(of_nat x :: u32) \<noteq> of_nat a + 2" using neq [of "a + 2"] by (simp add: add.commute)
  show "(of_nat x :: u32) \<noteq> of_nat a + 3" using neq [of "a + 3"] by (simp add: add.commute)
qed

lemma load32_cong:
  assumes "\<And>i. i < 4 \<Longrightarrow> m (of_nat (a + i)) = m' (of_nat (a + i))"
  shows "load32 m (of_nat a) = load32 m' (of_nat a)"
  using assms [of 0] assms [of 1] assms [of 2] assms [of 3]
  by (simp add: load32_def add.commute)

lemma load32_store32_other [mem_simps]:
  assumes "a + 4 \<le> 2 ^ 32" "b + 4 \<le> 2 ^ 32" "b + 4 \<le> a \<or> a + 4 \<le> b"
  shows "load32 (store32 m (of_nat a) v) (of_nat b) = load32 m (of_nat b)"
proof (rule load32_cong)
  fix i :: nat assume "i < 4"
  with assms show "store32 m (of_nat a) v (of_nat (b + i)) = m (of_nat (b + i))"
    by (intro store32_outside) auto
qed

end
