(* ===== verification/Kmath.thy ===== *)
theory Kmath
  imports Prelude
begin

text \<open>
  \<^verbatim>\<open>math.c\<close> and \<^verbatim>\<open>utils.c\<close>: division helpers on 32-bit unsigned integers.  Division by
  zero is the processor's exception, so each helper returns a \<open>result\<close>.  The lemmas say
  what the helpers compute on the naturals and when the rounding up wraps around.
\<close>

subsection \<open>Definitions\<close>

definition max_c :: "u32 \<Rightarrow> u32 \<Rightarrow> u32" where
  "max_c a b = (if a > b then a else b)"

definition floor_ratio :: "u32 \<Rightarrow> u32 \<Rightarrow> u32 result" where
  "floor_ratio a b = (if b = 0 then Inl DivideError else Inr (a div b))"

definition ceil_ratio :: "u32 \<Rightarrow> u32 \<Rightarrow> u32 result" where
  "ceil_ratio a b =
     (if b = 0 then Inl DivideError
      else let q = a div b in if a = q * b then Inr q else Inr (q + 1))"

definition floor_multiple :: "u32 \<Rightarrow> u32 \<Rightarrow> u32 result" where
  "floor_multiple n k = (if k = 0 then Inl DivideError else Inr (k * (n div k)))"

definition ceil_multiple :: "u32 \<Rightarrow> u32 \<Rightarrow> u32 result" where
  "ceil_multiple n k =
     (if k = 0 then Inl DivideError
      else if n mod k \<noteq> 0 then Inr (n - n mod k + k) else Inr n)"

subsection \<open>Helper lemmas\<close>

lemma u32_pos: "(b::u32) \<noteq> 0 \<longleftrightarrow> 0 < unat b"
  by (simp add: unat_gt_0)

lemma unat_max_c: "unat (max_c a b) = max (unat a) (unat b)"
  by (auto simp: max_c_def word_less_nat_alt max_def)

lemma ceil_div_nat:
  assumes "0 < b"
  shows "(a + b - 1) div b = a div b + (if a mod b = 0 then 0 else (1::nat))"
proof -
  have "a + (b - 1) = (a mod b + (b - 1)) + a div b * b" by simp
  then have "(a + (b - 1)) div b = (a mod b + (b - 1)) div b + a div b"
    using assms by (metis div_mult_self3 not_gr0 add.commute)
  moreover have "(a mod b + (b - 1)) div b = (if a mod b = 0 then 0 else 1)"
    using assms mod_less_divisor [OF assms, of a] by (auto simp: div_nat_eqI)
  ultimately show ?thesis using assms by simp
qed

lemma div_plus_1_less:
  assumes "(a::nat) < 2 ^ 32" "a mod b \<noteq> 0"
  shows "a div b + 1 < 2 ^ 32"
proof (cases "b = 0")
  case True then show ?thesis by simp
next
  case False
  with assms(2) have "2 \<le> b" by (cases "b = 1") auto
  then have "a div b * 2 \<le> a div b * b" by (rule mult_le_mono2)
  also have "\<dots> \<le> a" by (rule div_times_less_eq_dividend)
  finally show ?thesis using assms(1) by simp
qed

subsection \<open>What the helpers compute\<close>

lemma floor_ratio_unat: "b \<noteq> 0 \<Longrightarrow> \<exists>q. floor_ratio a b = Inr q \<and> unat q = unat a div unat b"
  by (simp add: floor_ratio_def unat_div)

lemma u32_mult_div: "unat (a div b * b :: u32) = unat a div unat b * unat b"
proof -
  have "unat a div unat b * unat b \<le> unat a" by (rule div_times_less_eq_dividend)
  also have "\<dots> < 2 ^ 32" by (rule unat_u32_less)
  finally show ?thesis by (simp add: unat_mult_lem [symmetric] unat_div unat_word_ariths)
qed

lemma ceil_ratio_unat:
  assumes "b \<noteq> 0"
  shows "\<exists>q. ceil_ratio a b = Inr q \<and> unat q = (unat a + unat b - 1) div unat b"
proof -
  have b: "0 < unat b" using assms by (simp add: u32_pos)
  have eq: "a = a div b * b \<longleftrightarrow> unat a mod unat b = 0"
    unfolding u32_eq_iff_unat u32_mult_div by (metis div_mult_mod_eq add_cancel_left_right)
  have lt: "unat a < 2 ^ 32" by (rule unat_u32_less)
  show ?thesis
  proof (cases "unat a mod unat b = 0")
    case True
    then show ?thesis using assms eq ceil_div_nat [OF b, of "unat a"]
      by (simp add: ceil_ratio_def Let_def unat_div)
  next
    case False
    have "unat (a div b + 1) = unat a div unat b + 1"
      using div_plus_1_less [OF lt False] by (simp add: unat_word_ariths unat_div)
    then show ?thesis using assms eq False ceil_div_nat [OF b, of "unat a"]
      by (simp add: ceil_ratio_def Let_def)
  qed
qed

lemma floor_multiple_unat:
  assumes "k \<noteq> 0"
  shows "\<exists>r. floor_multiple n k = Inr r \<and> unat r = unat n div unat k * unat k"
  using assms u32_mult_div [of n k] by (simp add: floor_multiple_def mult.commute)

lemma ceil_multiple_value:
  assumes "k \<noteq> 0" "unat n + unat k \<le> 2 ^ 32"
  shows "\<exists>r. ceil_multiple n k = Inr r \<and> unat n \<le> unat r \<and> unat r < unat n + unat k \<and> unat k dvd unat r"
proof (cases "n mod k = 0")
  case True
  then have "unat k dvd unat n" by (metis unat_mod unat_0 dvd_eq_mod_eq_0)
  then show ?thesis using True assms by (simp add: ceil_multiple_def u32_pos)
next
  case False
  have k: "0 < unat k" using assms(1) by (simp add: u32_pos)
  have m: "unat (n mod k) = unat n mod unat k" by (simp add: unat_mod)
  have pos: "0 < unat n mod unat k" using False by (metis m gr0I unat_eq_zero)
  have lt: "unat n mod unat k < unat k" using k by simp
  have sub: "unat (n - n mod k) = unat n - unat n mod unat k"
    by (simp add: m unat_sub word_le_nat_alt)
  have bound: "unat n - unat n mod unat k + unat k < 2 ^ 32"
    using assms(2) pos lt mod_less_eq_dividend [of "unat n" "unat k"] by linarith
  then have val: "unat (n - n mod k + k) = unat n - unat n mod unat k + unat k"
    by (simp add: sub unat_word_ariths)
  have "unat k dvd unat n - unat n mod unat k" by (rule dvd_minus_mod)
  then have "unat k dvd unat (n - n mod k + k)" unfolding val by (rule dvd_add) simp
  then show ?thesis using assms(1) False val lt pos mod_less_eq_dividend [of "unat n" "unat k"]
    by (auto simp: ceil_multiple_def)
qed

end
