(* ===== verification/Kmemory.thy ===== *)
theory Kmemory
  imports Prelude
begin

text \<open>
  \<^verbatim>\<open>memory.c\<close>: filling and copying byte ranges.  Each loop runs over \<open>len\<close> bytes; the
  model recurses on that count.
\<close>

subsection \<open>Definitions\<close>

fun mem_set_loop :: "memory \<Rightarrow> u32 \<Rightarrow> u8 \<Rightarrow> nat \<Rightarrow> memory" where
  "mem_set_loop m ptr c 0 = m"
| "mem_set_loop m ptr c (Suc i) = mem_set_loop (m(ptr := c)) (ptr + 1) c i"

definition mem_set :: "memory \<Rightarrow> u32 \<Rightarrow> u8 \<Rightarrow> u32 \<Rightarrow> memory" where
  "mem_set m str c len = mem_set_loop m str c (unat len)"

fun mem_copy_loop :: "memory \<Rightarrow> u32 \<Rightarrow> u32 \<Rightarrow> nat \<Rightarrow> memory" where
  "mem_copy_loop m ptr_d ptr_s 0 = m"
| "mem_copy_loop m ptr_d ptr_s (Suc i) =
     mem_copy_loop (m(ptr_d := m ptr_s)) (ptr_d + 1) (ptr_s + 1) i"

definition mem_copy :: "memory \<Rightarrow> u32 \<Rightarrow> u32 \<Rightarrow> u32 \<Rightarrow> memory" where
  "mem_copy m dest source len = mem_copy_loop m dest source (unat len)"

subsection \<open>What the loops write\<close>

lemma mem_set_loop_nth:
  assumes "a + n \<le> 2 ^ 32" "x < 2 ^ 32"
  shows "mem_set_loop m (of_nat a) c n (of_nat x) =
           (if a \<le> x \<and> x < a + n then c else m (of_nat x))"
  using assms
proof (induction n arbitrary: m a)
  case 0
  then show ?case by auto
next
  case (Suc n)
  have "mem_set_loop m (of_nat a) c (Suc n) (of_nat x) =
      mem_set_loop (m(of_nat a := c)) (of_nat (a + 1)) c n (of_nat x)" by (simp add: add.commute)
  also have "\<dots> = (if a + 1 \<le> x \<and> x < a + 1 + n then c else (m(of_nat a := c)) (of_nat x))"
    using Suc.prems by (intro Suc.IH) simp_all
  also have "\<dots> = (if a \<le> x \<and> x < a + Suc n then c else m (of_nat x))"
    using Suc.prems by (auto simp: of_nat_u32_eq_iff)
  finally show ?case .
qed

lemma mem_copy_loop_nth:
  assumes "d + n \<le> 2 ^ 32" "s + n \<le> 2 ^ 32" "x < 2 ^ 32" "d \<le> s \<or> s + n \<le> d"
  shows "mem_copy_loop m (of_nat d) (of_nat s) n (of_nat x) =
           (if d \<le> x \<and> x < d + n then m (of_nat (s + (x - d))) else m (of_nat x))"
  using assms
proof (induction n arbitrary: m d s)
  case 0
  then show ?case by auto
next
  case (Suc n)
  let ?m = "m(of_nat d := m (of_nat s))"
  have "mem_copy_loop m (of_nat d) (of_nat s) (Suc n) (of_nat x) =
      mem_copy_loop ?m (of_nat (d + 1)) (of_nat (s + 1)) n (of_nat x)" by (simp add: add.commute)
  also have "\<dots> = (if d + 1 \<le> x \<and> x < d + 1 + n then ?m (of_nat (s + 1 + (x - (d + 1))))
                    else ?m (of_nat x))"
    using Suc.prems by (intro Suc.IH) auto
  also have "\<dots> = (if d \<le> x \<and> x < d + Suc n then m (of_nat (s + (x - d))) else m (of_nat x))"
  proof (cases "d + 1 \<le> x \<and> x < d + 1 + n")
    case True
    then have "(of_nat (s + 1 + (x - (d + 1))) :: u32) \<noteq> of_nat d"
      using Suc.prems by (subst of_nat_u32_eq_iff) auto
    then show ?thesis using True by (simp add: Suc_diff_Suc)
  next
    case False
    then show ?thesis using Suc.prems by (auto simp: of_nat_u32_eq_iff)
  qed
  finally show ?case .
qed

lemma mem_set_nth [mem_simps]:
  assumes "unat p + unat len \<le> 2 ^ 32"
  shows "mem_set m p c len x = (if unat p \<le> unat x \<and> unat x < unat p + unat len then c else m x)"
  using mem_set_loop_nth [of "unat p" "unat len" "unat x" m c] assms unat_u32_less [of x]
  by (simp add: mem_set_def)

lemma mem_copy_nth [mem_simps]:
  assumes "unat d + unat len \<le> 2 ^ 32" "unat s + unat len \<le> 2 ^ 32"
    "unat d \<le> unat s \<or> unat s + unat len \<le> unat d"
  shows "mem_copy m d s len x =
    (if unat d \<le> unat x \<and> unat x < unat d + unat len then m (s + (x - d)) else m x)"
proof -
  have "(of_nat (unat s + (unat x - unat d)) :: u32) = s + (x - d)" if "unat d \<le> unat x"
    using that by (simp add: of_nat_diff add_diff_eq)
  then show ?thesis
    using mem_copy_loop_nth [of "unat d" "unat len" "unat s" "unat x" m] assms unat_u32_less [of x]
    by (auto simp: mem_copy_def add_diff_eq)
qed

end
