(* ===== verification/Machine.thy ===== *)
theory Machine
  imports Kmath Kmemory
begin

text \<open>
  The globals that the memory management of the kernel shares: \<^verbatim>\<open>first_free_block\<close> and
  \<^verbatim>\<open>unallocated_mem\<close> (\<^verbatim>\<open>malloc.h\<close>), the saved pair of \<^verbatim>\<open>kernel_context\<close>
  (\<^verbatim>\<open>process.h\<close>), the page directories and the layout constants (\<^verbatim>\<open>paging.h\<close>,
  \<^verbatim>\<open>types.h\<close>) and the two control registers that \<^verbatim>\<open>switch_page_directory\<close> writes.
  The record is extensible: components with more globals extend it, and every operation
  of this theory and of the allocator works on the extended state too.

  Memory is what the code sees through the current page directory.  Every directory maps
  the kernel's addresses, those below \<^verbatim>\<open>START_OF_USER_HEAP\<close>, to the same frames; from
  there on each user directory has frames of its own.  \<open>kmem\<close> is the kernel's view, and
  physical memory as long as paging is disabled, \<open>umem d\<close> the private part of the user
  directory \<open>d\<close>.
\<close>

record machine =
  kmem :: memory
  umem :: "u32 \<Rightarrow> memory"
  first_free_block :: u32
  unallocated_mem :: u32
  kernel_first_free_block :: u32
  kernel_unallocated_mem :: u32
  paging_enabled :: bool
  current_directory :: u32
  kernel_directory :: u32
  base_directory :: u32
  ld_end :: u32
  UPPER_MEMORY :: u32
  START_OF_USER_HEAP :: u32
  cr0 :: u32
  cr3 :: u32

definition mem :: "'z machine_scheme \<Rightarrow> memory" where
  "mem s = (if current_directory s = kernel_directory s \<or> \<not> paging_enabled s then kmem s
     else (\<lambda>a. if a < START_OF_USER_HEAP s then kmem s a
               else umem s (current_directory s) a))"

definition set_mem :: "'z machine_scheme \<Rightarrow> memory \<Rightarrow> 'z machine_scheme" where
  "set_mem s m = (if current_directory s = kernel_directory s \<or> \<not> paging_enabled s
     then s\<lparr>kmem := m\<rparr>
     else s\<lparr>kmem := (\<lambda>a. if a < START_OF_USER_HEAP s then m a else kmem s a),
            umem := (umem s)(current_directory s :=
              (\<lambda>a. if a < START_OF_USER_HEAP s then umem s (current_directory s) a else m a))\<rparr>)"

text \<open>
  \<^verbatim>\<open>switch_page_directory\<close>: the directory's \<^verbatim>\<open>physical_address\<close> (its last field, at
  offset \<open>0x2000\<close>) goes to CR3 and the paging bit of CR0 is set.
\<close>

definition switch_page_directory :: "'z machine_scheme \<Rightarrow> u32 \<Rightarrow> 'z machine_scheme" where
  "switch_page_directory s dir =
     s\<lparr>current_directory := dir, cr3 := load32 (mem s) (dir + 0x2000),
       cr0 := cr0 s OR 0x80000000\<rparr>"

subsection \<open>Views and updates\<close>

lemma mem_set_mem [simp]: "mem (set_mem s m) = m"
  by (auto simp: mem_def set_mem_def fun_eq_iff)

lemma set_mem_fields [simp]:
  "first_free_block (set_mem s m) = first_free_block s"
  "unallocated_mem (set_mem s m) = unallocated_mem s"
  "kernel_first_free_block (set_mem s m) = kernel_first_free_block s"
  "kernel_unallocated_mem (set_mem s m) = kernel_unallocated_mem s"
  "paging_enabled (set_mem s m) = paging_enabled s"
  "current_directory (set_mem s m) = current_directory s"
  "kernel_directory (set_mem s m) = kernel_directory s"
  "base_directory (set_mem s m) = base_directory s"
  "ld_end (set_mem s m) = ld_end s"
  "UPPER_MEMORY (set_mem s m) = UPPER_MEMORY s"
  "START_OF_USER_HEAP (set_mem s m) = START_OF_USER_HEAP s"
  "cr0 (set_mem s m) = cr0 s" "cr3 (set_mem s m) = cr3 s"
  "machine.more (set_mem s m) = machine.more s"
  by (simp_all add: set_mem_def)

lemma mem_updates [simp]:
  "mem (s\<lparr>first_free_block := x\<rparr>) = mem s"
  "mem (s\<lparr>unallocated_mem := x\<rparr>) = mem s"
  "mem (s\<lparr>kernel_first_free_block := x\<rparr>) = mem s"
  "mem (s\<lparr>kernel_unallocated_mem := x\<rparr>) = mem s"
  "mem (s\<lparr>base_directory := x\<rparr>) = mem s"
  "mem (s\<lparr>UPPER_MEMORY := x\<rparr>) = mem s"
  "mem (s\<lparr>ld_end := x\<rparr>) = mem s"
  "mem (s\<lparr>cr0 := x\<rparr>) = mem s"
  "mem (s\<lparr>cr3 := x\<rparr>) = mem s"
  "mem (s\<lparr>machine.more := r\<rparr>) = mem s"
  by (simp_all add: mem_def cong: if_cong)

lemma set_mem_ffb [simp]:
  "set_mem (s\<lparr>first_free_block := x\<rparr>) m = (set_mem s m)\<lparr>first_free_block := x\<rparr>"
  by (simp add: set_mem_def cong: if_cong)

lemma set_mem_um [simp]:
  "set_mem (s\<lparr>unallocated_mem := x\<rparr>) m = (set_mem s m)\<lparr>unallocated_mem := x\<rparr>"
  by (simp add: set_mem_def cong: if_cong)

lemma set_mem_mem [simp]: "set_mem s (mem s) = s"
proof (cases "current_directory s = kernel_directory s \<or> \<not> paging_enabled s")
  case False
  have "(\<lambda>a. if a < START_OF_USER_HEAP s then mem s a else kmem s a) = kmem s"
    "(\<lambda>a. if a < START_OF_USER_HEAP s then umem s (current_directory s) a else mem s a)
       = umem s (current_directory s)"
    using False by (auto simp: mem_def fun_eq_iff)
  then show ?thesis using False by (simp add: set_mem_def)
qed (auto simp: set_mem_def mem_def)

lemma set_mem_set_mem [simp]: "set_mem (set_mem s m) m' = set_mem s m'"
  by (auto simp: set_mem_def fun_eq_iff)

end
