(* ===== verification/Malloc.thy ===== *)
theory Malloc
  imports Machine
begin

text \<open>
  \<^verbatim>\<open>malloc.c\<close>: the first-fit allocator with boundary tags and an explicit, doubly linked
  free list.  This theory holds the definitions, one per C function, on the byte memory;
  the invariant and the correctness theorems are in \<open>Malloc_Heap\<close> and \<open>Malloc_Correct\<close>.

  A block is \<open>size\<close> bytes long, headers included.  Its first word and its last word each
  hold \<open>size / 2\<close> in the low 31 bits and the \<^verbatim>\<open>used\<close> flag in the top bit; a free block
  has the addresses of its neighbours in the free list at offsets 4 and 8.  In a used
  block zero bytes may pad the space between the header and the address given to the user.
\<close>

subsection \<open>Headers\<close>

abbreviation (input) header_used_size :: u32 where "header_used_size \<equiv> 4"
abbreviation (input) end_header_size :: u32 where "end_header_size \<equiv> 4"
abbreviation (input) header_free_size :: u32 where "header_free_size \<equiv> 12"

definition get_size :: "memory \<Rightarrow> u32 \<Rightarrow> u32" where
  "get_size m block = 2 * (load32 m block AND 0x7FFFFFFF)"

definition get_used :: "memory \<Rightarrow> u32 \<Rightarrow> bool" where
  "get_used m block = bit (load32 m block) 31"

definition get_prev :: "memory \<Rightarrow> u32 \<Rightarrow> u32" where
  "get_prev m block = load32 m (block + 4)"

definition get_next :: "memory \<Rightarrow> u32 \<Rightarrow> u32" where
  "get_next m block = load32 m (block + 8)"

definition set_prev :: "memory \<Rightarrow> u32 \<Rightarrow> u32 \<Rightarrow> memory" where
  "set_prev m block p = store32 m (block + 4) p"

definition set_next :: "memory \<Rightarrow> u32 \<Rightarrow> u32 \<Rightarrow> memory" where
  "set_next m block p = store32 m (block + 8) p"

definition get_first_header :: "memory \<Rightarrow> u32 \<Rightarrow> u32" where
  "get_first_header m end_header = end_header + end_header_size - get_size m end_header"

definition get_end_header :: "memory \<Rightarrow> u32 \<Rightarrow> u32" where
  "get_end_header m first_header = first_header + get_size m first_header - end_header_size"

definition set_size :: "memory \<Rightarrow> u32 \<Rightarrow> u32 \<Rightarrow> memory" where
  "set_size m block sz =
     store32 m block ((load32 m block AND 0x80000000) OR (sz div 2 AND 0x7FFFFFFF))"

definition set_used :: "memory \<Rightarrow> u32 \<Rightarrow> bool \<Rightarrow> memory" where
  "set_used m block used =
     store32 m block ((load32 m block AND 0x7FFFFFFF) OR (if used then 0x80000000 else 0))"

definition set_block :: "memory \<Rightarrow> u32 \<Rightarrow> u32 \<Rightarrow> bool \<Rightarrow> memory" where
  "set_block m block sz used =
     (let m = set_size m block sz;
          m = set_used m block used;
          end_header = get_end_header m block
      in store32 m end_header (load32 m block))"

subsection \<open>Neighbours in memory\<close>

definition START_OF_HEAP :: "'z machine_scheme \<Rightarrow> u32 result" where
  "START_OF_HEAP s =
     (if current_directory s = kernel_directory s then ceil_multiple (ld_end s) 0x1000
      else Inr (START_OF_USER_HEAP s))"

definition get_prev_block :: "'z machine_scheme \<Rightarrow> u32 \<Rightarrow> u32 result" where
  "get_prev_block s block =
     bindE (START_OF_HEAP s) (\<lambda>start.
       if block - end_header_size < start then Inr 0
       else Inr (block - get_size (mem s) (block - end_header_size)))"

definition get_next_block :: "'z machine_scheme \<Rightarrow> u32 \<Rightarrow> u32" where
  "get_next_block s block =
     (let next = block + get_size (mem s) block
      in if next \<ge> unallocated_mem s then 0 else next)"

subsection \<open>The free list\<close>

definition insert_after :: "'z machine_scheme \<Rightarrow> u32 \<Rightarrow> u32 \<Rightarrow> 'z machine_scheme" where
  "insert_after s to_insert block =
     (if block \<noteq> 0 then
        let a = block; b = get_next (mem s) a; c = to_insert;
            m = set_next (mem s) a c;
            m = set_prev m c a;
            m = set_next m c b;
            m = (if b \<noteq> 0 then set_prev m b c else m)
        in set_mem s m
      else
        let m = set_next (mem s) to_insert (first_free_block s);
            m = set_prev m to_insert 0;
            m = (if first_free_block s \<noteq> 0 then set_prev m (first_free_block s) to_insert else m)
        in (set_mem s m)\<lparr>first_free_block := to_insert\<rparr>)"

definition remove_c :: "'z machine_scheme \<Rightarrow> u32 \<Rightarrow> 'z machine_scheme" where
  "remove_c s block =
     (let a = get_prev (mem s) block; b = get_next (mem s) block;
          s = (if a \<noteq> 0 then set_mem s (set_next (mem s) a b)
               else s\<lparr>first_free_block := b\<rparr>)
      in if b \<noteq> 0 then set_mem s (set_prev (mem s) b a) else s)"

definition merge_with_next :: "'z machine_scheme \<Rightarrow> u32 \<Rightarrow> 'z machine_scheme" where
  "merge_with_next s block =
     (let a = block; b = get_next_block s block
      in if b \<noteq> 0 \<and> \<not> get_used (mem s) b then
           let e = get_prev (mem s) b; f = get_next (mem s) b;
               s = (if e \<noteq> 0 then set_mem s (set_next (mem s) e f)
                    else s\<lparr>first_free_block := f\<rparr>);
               s = (if f \<noteq> 0 then set_mem s (set_prev (mem s) f e) else s);
               new_size = get_size (mem s) a + get_size (mem s) b;
               s = set_mem s (set_size (mem s) a new_size)
           in set_mem s (set_size (mem s) (get_end_header (mem s) a) new_size)
         else s)"

definition merge :: "'z machine_scheme \<Rightarrow> u32 \<Rightarrow> (u32 \<times> 'z machine_scheme) result" where
  "merge s block =
     (let s = merge_with_next s block
      in bindE (get_prev_block s block) (\<lambda>prev.
           if prev \<noteq> 0 \<and> \<not> get_used (mem s) prev
           then Inr (prev, merge_with_next s prev)
           else Inr (block, s)))"

subsection \<open>Growing the heap\<close>

text \<open>
  \<^verbatim>\<open>extend_heap\<close> asks the paging code for pages, and the paging code in turn calls the
  allocator for page tables.  The two paging entry points are therefore an argument here;
  the theory that models paging supplies them.
\<close>

record 's pager =
  request_virtual_space :: "'s \<Rightarrow> u32 \<Rightarrow> u32 \<Rightarrow> bool \<Rightarrow> bool \<Rightarrow> (bool \<times> 's) result"
  free_virtual_space :: "'s \<Rightarrow> u32 \<Rightarrow> u32 \<Rightarrow> bool \<Rightarrow> 's result"

fun release_pages ::
  "'z machine_scheme pager \<Rightarrow> 'z machine_scheme \<Rightarrow> u32 \<Rightarrow> u32 \<Rightarrow> nat \<Rightarrow> 'z machine_scheme result"
where
  "release_pages P s dir current_end_of_heap 0 = Inr s"
| "release_pages P s dir current_end_of_heap (Suc i) =
     (let current_end_of_heap = current_end_of_heap - 0x1000
      in bindE (free_virtual_space P s dir current_end_of_heap True)
           (\<lambda>s. release_pages P s dir current_end_of_heap i))"

fun request_pages ::
  "'z machine_scheme pager \<Rightarrow> 'z machine_scheme \<Rightarrow> u32 \<Rightarrow> bool \<Rightarrow> u32 \<Rightarrow> nat \<Rightarrow> nat
     \<Rightarrow> (bool \<times> 'z machine_scheme) result"
where
  "request_pages P s dir is_kernel current_end_of_heap i 0 = Inr (True, s)"
| "request_pages P s dir is_kernel current_end_of_heap i (Suc left) =
     bindE (request_virtual_space P s dir current_end_of_heap is_kernel (\<not> is_kernel))
       (\<lambda>(ok, s).
          if ok then request_pages P s dir is_kernel (current_end_of_heap + 0x1000) (Suc i) left
          else bindE (release_pages P s dir current_end_of_heap i) (\<lambda>s. Inr (False, s)))"

definition extend_heap ::
  "'z machine_scheme pager \<Rightarrow> 'z machine_scheme \<Rightarrow> u32 \<Rightarrow> u32 \<Rightarrow> u32
     \<Rightarrow> (bool \<times> 'z machine_scheme) result"
where
  "extend_heap P s nb_pages dir user_um =
     (if nb_pages = 0 then Inl (Throw ''Extension of heap by 0 pages'')
      else let is_kernel = (dir = kernel_directory s)
           in if paging_enabled s
              then request_pages P s dir is_kernel user_um 0 (nat (sint nb_pages))
              else if unallocated_mem s + 0x1000 * nb_pages > UPPER_MEMORY s
                   then Inr (False, s)
                   else Inr (True, s))"

definition alloc_pages ::
  "'z machine_scheme pager \<Rightarrow> 'z machine_scheme \<Rightarrow> u32 \<Rightarrow> (u32 \<times> 'z machine_scheme) result"
where
  "alloc_pages P s sz =
     bindE (get_prev_block s (unallocated_mem s)) (\<lambda>last_block.
     let last_size = get_size (mem s) last_block;
         free = (\<not> get_used (mem s) last_block)
     in bindE (if free then ceil_ratio (sz - last_size) 0x1000 else ceil_ratio sz 0x1000)
          (\<lambda>nb_pages.
     let change_dir = (paging_enabled s \<and> current_directory s \<noteq> kernel_directory s);
         temp = current_directory s;
         user_um = unallocated_mem s;
         user_ffb = first_free_block s;
         s = (if change_dir
              then (switch_page_directory s (kernel_directory s))
                     \<lparr>unallocated_mem := kernel_unallocated_mem s,
                      first_free_block := kernel_first_free_block s\<rparr>
              else s);
         block = user_um
     in bindE (extend_heap P s nb_pages temp user_um) (\<lambda>(ok, s).
     let s = (if change_dir
              then (switch_page_directory s temp)
                     \<lparr>unallocated_mem := user_um, first_free_block := user_ffb\<rparr>
              else s)
     in if ok then
          let s = set_mem s (set_block (mem s) (unallocated_mem s) (0x1000 * nb_pages) False);
              s = insert_after s (unallocated_mem s) 0;
              s = s\<lparr>unallocated_mem := unallocated_mem s + 0x1000 * nb_pages\<rparr>
          in merge s block
        else Inr (0, s))))"

definition malloc_new_state :: "'z machine_scheme \<Rightarrow> u32 \<Rightarrow> (u32 \<times> u32) \<times> 'z machine_scheme" where
  "malloc_new_state s start_of_heap =
     (let block = start_of_heap;
          m = set_block (mem s) block 0x1000 False;
          m = set_prev m block 0;
          m = set_next m block 0
      in ((block, block + 0x1000), set_mem s m))"

definition malloc_install ::
  "'z machine_scheme pager \<Rightarrow> 'z machine_scheme \<Rightarrow> 'z machine_scheme result"
where
  "malloc_install P s =
     bindE (START_OF_HEAP (s\<lparr>first_free_block := 0\<rparr>)) (\<lambda>start.
     let s = s\<lparr>first_free_block := 0, unallocated_mem := start\<rparr>
     in bindE (extend_heap P s 1 (kernel_directory s) (unallocated_mem s)) (\<lambda>(ok, s).
          if \<not> ok then Inl (Throw ''Unable to install new malloc state'') else Inr s))"

subsection \<open>Allocation and release\<close>

text \<open>
  The walk along the free list and the search for the header byte end when the heap is
  well formed; on other memory they may not end, which is \<open>None\<close>.
\<close>

partial_function (option) find_block :: "memory \<Rightarrow> u32 \<Rightarrow> u32 \<Rightarrow> u32 option" where
  "find_block m block sz =
     (if block \<noteq> 0 \<and> get_size m block < sz then find_block m (get_next m block) sz
      else Some block)"

partial_function (option) skip_padding :: "memory \<Rightarrow> u32 \<Rightarrow> u32 option" where
  "skip_padding m maybe_header =
     (if m maybe_header = 0 then skip_padding m (maybe_header - 1) else Some maybe_header)"

definition block_size_for :: "u32 \<Rightarrow> u32 \<Rightarrow> u32 result" where
  "block_size_for sz alignment =
     ceil_multiple (max_c (header_used_size + alignment - 1 + sz + end_header_size)
                          (header_free_size + end_header_size)) 2"

text \<open>
  The part of \<^verbatim>\<open>mem_alloc_aligned\<close> after a block has been found: the block leaves the free
  list and what is not needed of it becomes a free block, then the padding is written.
\<close>

definition carve_block :: "'z machine_scheme \<Rightarrow> u32 \<Rightarrow> u32 \<Rightarrow> 'z machine_scheme" where
  "carve_block s block sz =
     (let s = remove_c s block;
          size_block = get_size (mem s) block
      in if size_block - sz \<ge> header_free_size + end_header_size then
           let s = set_mem s (set_block (mem s) block sz True);
               next = get_next_block s block;
               s = set_mem s (set_block (mem s) next (size_block - sz) False);
               s = insert_after s next 0
           in merge_with_next s next
         else set_mem s (set_block (mem s) block size_block True))"

definition take_block ::
  "'z machine_scheme \<Rightarrow> u32 \<Rightarrow> u32 \<Rightarrow> u32 \<Rightarrow> (u32 \<times> 'z machine_scheme) result"
where
  "take_block s block sz alignment =
     (let s = carve_block s block sz;
          after_header = block + header_used_size
      in bindE (ceil_multiple after_header alignment) (\<lambda>after_padding.
           Inr (after_padding,
                set_mem s (mem_set (mem s) after_header 0 (after_padding - after_header)))))"

definition mem_alloc_aligned ::
  "'z machine_scheme pager \<Rightarrow> 'z machine_scheme \<Rightarrow> u32 \<Rightarrow> u32
     \<Rightarrow> (u32 \<times> 'z machine_scheme) result"
where
  "mem_alloc_aligned P s sz alignment =
     bindE (block_size_for sz alignment) (\<lambda>sz.
     bindE (of_option Hang (find_block (mem s) (first_free_block s) sz)) (\<lambda>block.
     bindE (if block = 0 then alloc_pages P s sz else Inr (block, s)) (\<lambda>(block, s).
       if block = 0 then Inr (0, s)
       else take_block s block sz alignment)))"

definition mem_alloc ::
  "'z machine_scheme pager \<Rightarrow> 'z machine_scheme \<Rightarrow> u32 \<Rightarrow> (u32 \<times> 'z machine_scheme) result"
where
  "mem_alloc P s sz = mem_alloc_aligned P s sz 1"

definition mem_free :: "'z machine_scheme \<Rightarrow> u32 \<Rightarrow> 'z machine_scheme result" where
  "mem_free s ptr =
     bindE (of_option Hang (skip_padding (mem s) (ptr - 1))) (\<lambda>maybe_header.
     let block = maybe_header + 1 - header_used_size;
         s = set_mem s (set_used (mem s) block False);
         s = insert_after s block 0
     in bindE (merge s block) (\<lambda>(_, s). Inr s))"

end
