(* ===== verification/Malloc_Heap.thy ===== *)
theory Malloc_Heap
  imports Malloc
begin

text \<open>
  The shape of a well-formed heap: a sequence of adjacent blocks whose boundary tags agree
  (\<open>blocks\<close>), a doubly linked free list (\<open>dll\<close>) that holds exactly the free blocks, and no
  two free blocks next to each other.  The lemmas describe which words each header
  operation of \<open>Malloc\<close> reads and writes, and that the shape does not depend on any other
  word.
\<close>

subsection \<open>Words at natural addresses\<close>

definition wordat :: "memory \<Rightarrow> nat \<Rightarrow> u32" where
  "wordat m a = load32 m (of_nat a)"

definition tag_size :: "u32 \<Rightarrow> u32" where
  "tag_size w = 2 * (w AND 0x7FFFFFFF)"

definition tag_used :: "u32 \<Rightarrow> bool" where
  "tag_used w = bit w 31"

lemma get_size_tag: "get_size m b = tag_size (load32 m b)"
  by (simp add: get_size_def tag_size_def)

lemma get_used_tag: "get_used m b = tag_used (load32 m b)"
  by (simp add: get_used_def tag_used_def)

definition tag_of :: "nat \<Rightarrow> bool \<Rightarrow> u32" where
  "tag_of sz used = (of_nat (sz div 2) AND 0x7FFFFFFF) OR (if used then 0x80000000 else 0)"

lemma bit_2p31: "bit (0x80000000 :: int) n \<longleftrightarrow> n = 31"
proof -
  have "(0x80000000 :: int) = push_bit 31 1" by simp
  then show ?thesis by (simp only: bit_push_bit_iff) (auto simp: bit_1_iff)
qed

lemma bit_mask31: "bit (0x7FFFFFFF :: int) n \<longleftrightarrow> n < 31"
proof -
  have eq: "(0x7FFFFFFF :: int) = mask 31" by (simp add: mask_eq_exp_minus_1)
  show ?thesis unfolding eq by (simp add: bit_mask_iff)
qed

lemma tag_used_or [simp]:
  "tag_used ((w AND 0x7FFFFFFF) OR (if u then 0x80000000 else 0)) = u"
  by (simp add: tag_used_def bit_simps bit_2p31 bit_mask31)

lemma tag_size_or [simp]:
  "tag_size ((w AND 0x7FFFFFFF) OR (if u then 0x80000000 else 0)) = tag_size w"
proof -
  have "((w AND 0x7FFFFFFF) OR (if u then 0x80000000 else 0)) AND 0x7FFFFFFF = w AND (0x7FFFFFFF::u32)"
    by (rule bit_word_eqI) (auto simp: bit_simps bit_2p31 bit_mask31)
  then show ?thesis by (simp add: tag_size_def)
qed

lemma tag_size_set [simp]:
  assumes "even (unat sz)"
  shows "tag_size ((w AND 0x80000000) OR (sz div 2 AND 0x7FFFFFFF)) = sz"
proof -
  have lt: "unat (sz div 2) < 2 ^ 31" using unat_u32_less [of sz] by (simp add: unat_div)
  have "((w AND 0x80000000) OR (sz div 2 AND 0x7FFFFFFF)) AND 0x7FFFFFFF = (sz div 2) AND (0x7FFFFFFF::u32)"
    by (rule bit_word_eqI) (auto simp: bit_simps bit_2p31 bit_mask31)
  also have "\<dots> = take_bit 31 (sz div 2)"
    by (rule bit_word_eqI) (auto simp: bit_simps bit_mask31)
  also have "\<dots> = sz div 2"
    using lt by (simp add: u32_eq_iff_unat unsigned_take_bit_eq take_bit_nat_eq_self_iff)
  finally have "tag_size ((w AND 0x80000000) OR (sz div 2 AND 0x7FFFFFFF)) = 2 * (sz div 2)"
    by (simp add: tag_size_def)
  also have "\<dots> = sz"
    using assms unat_u32_less [of sz]
    by (simp add: u32_eq_iff_unat unat_word_ariths unat_div)
  finally show ?thesis .
qed

lemma tag_used_set [simp]:
  "tag_used ((w AND 0x80000000) OR (v AND 0x7FFFFFFF)) = tag_used w"
  by (simp add: tag_used_def bit_simps bit_2p31 bit_mask31)

lemma top_byte_nonzero: "tag_used (load32 m a) \<Longrightarrow> m (a + 3) \<noteq> 0"
proof
  assume u: "tag_used (load32 m a)" and z: "m (a + 3) = 0"
  have "bit (m (a + 3)) 7 = bit (load32 m a) 31"
    by (simp add: load32_top_byte bit_simps)
  then show False using u z by (simp add: tag_used_def)
qed

subsection \<open>What the header operations write\<close>

lemma set_size_same [simp]:
  "even (unat sz) \<Longrightarrow> tag_size (load32 (set_size m b sz) b) = sz"
  "tag_used (load32 (set_size m b sz) b) = tag_used (load32 m b)"
  by (simp_all add: set_size_def)

lemma set_used_same [simp]:
  "tag_size (load32 (set_used m b u) b) = tag_size (load32 m b)"
  "tag_used (load32 (set_used m b u) b) = u"
  by (simp_all add: set_used_def)

lemma byte_set_size:
  "a + 4 \<le> 2 ^ 32 \<Longrightarrow> x < 2 ^ 32 \<Longrightarrow> x < a \<or> a + 4 \<le> x \<Longrightarrow>
     set_size m (of_nat a) sz (of_nat x) = m (of_nat x)"
  unfolding set_size_def by (rule store32_outside)

lemma byte_set_used:
  "a + 4 \<le> 2 ^ 32 \<Longrightarrow> x < 2 ^ 32 \<Longrightarrow> x < a \<or> a + 4 \<le> x \<Longrightarrow>
     set_used m (of_nat a) u (of_nat x) = m (of_nat x)"
  unfolding set_used_def by (rule store32_outside)

lemma byte_set_prev:
  "a + 8 \<le> 2 ^ 32 \<Longrightarrow> x < 2 ^ 32 \<Longrightarrow> x < a + 4 \<or> a + 8 \<le> x \<Longrightarrow>
     set_prev m (of_nat a) p (of_nat x) = m (of_nat x)"
  unfolding set_prev_def of_nat_plus_numeral by (rule store32_outside) auto

lemma byte_set_next:
  "a + 12 \<le> 2 ^ 32 \<Longrightarrow> x < 2 ^ 32 \<Longrightarrow> x < a + 8 \<or> a + 12 \<le> x \<Longrightarrow>
     set_next m (of_nat a) p (of_nat x) = m (of_nat x)"
  unfolding set_next_def of_nat_plus_numeral by (rule store32_outside) auto

lemmas byte_frame = byte_set_size byte_set_used byte_set_prev byte_set_next

lemma word_frame:
  assumes "x + 4 \<le> 2 ^ 32" "\<And>y. x \<le> y \<Longrightarrow> y < x + 4 \<Longrightarrow> m' (of_nat y) = m (of_nat y)"
  shows "wordat m' x = wordat m x"
  unfolding wordat_def using assms(2) by (intro load32_cong) (simp del: of_nat_add)

lemma word_set_prev_same: "wordat (set_prev m (of_nat a) p) (a + 4) = p"
  by (simp only: wordat_def set_prev_def of_nat_plus_numeral load32_store32_same)

lemma word_set_next_same: "wordat (set_next m (of_nat a) p) (a + 8) = p"
  by (simp only: wordat_def set_next_def of_nat_plus_numeral load32_store32_same)

lemma get_prev_wordat: "get_prev m (of_nat a) = wordat m (a + 4)"
  by (simp only: wordat_def get_prev_def of_nat_plus_numeral)

lemma get_next_wordat: "get_next m (of_nat a) = wordat m (a + 8)"
  by (simp only: wordat_def get_next_def of_nat_plus_numeral)

lemma word_set_prev_other:
  "a + 8 \<le> 2 ^ 32 \<Longrightarrow> x + 4 \<le> 2 ^ 32 \<Longrightarrow> x + 4 \<le> a + 4 \<or> a + 8 \<le> x \<Longrightarrow>
     wordat (set_prev m (of_nat a) p) x = wordat m x"
  by (rule word_frame) (auto intro!: byte_set_prev)

lemma word_set_next_other:
  "a + 12 \<le> 2 ^ 32 \<Longrightarrow> x + 4 \<le> 2 ^ 32 \<Longrightarrow> x + 4 \<le> a + 8 \<or> a + 12 \<le> x \<Longrightarrow>
     wordat (set_next m (of_nat a) p) x = wordat m x"
  by (rule word_frame) (auto intro!: byte_set_next)

lemma word_set_size_other:
  "a + 4 \<le> 2 ^ 32 \<Longrightarrow> x + 4 \<le> 2 ^ 32 \<Longrightarrow> x + 4 \<le> a \<or> a + 4 \<le> x \<Longrightarrow>
     wordat (set_size m (of_nat a) sz) x = wordat m x"
  by (rule word_frame) (auto intro!: byte_set_size)

lemma word_set_used_other:
  "a + 4 \<le> 2 ^ 32 \<Longrightarrow> x + 4 \<le> 2 ^ 32 \<Longrightarrow> x + 4 \<le> a \<or> a + 4 \<le> x \<Longrightarrow>
     wordat (set_used m (of_nat a) u) x = wordat m x"
  by (rule word_frame) (auto intro!: byte_set_used)

lemmas word_others = word_set_prev_other word_set_next_other word_set_size_other word_set_used_other

text \<open>The end header of a block whose first header says \<open>sz\<close>.\<close>

lemma get_end_header_nat:
  assumes "tag_size (wordat m a) = of_nat sz" "4 \<le> sz"
  shows "get_end_header m (of_nat a) = of_nat (a + sz - 4)"
proof -
  have "(of_nat (a + sz - 4) :: u32) = of_nat (a + sz) - of_nat 4"
    using assms(2) by (intro of_nat_diff) simp
  then show ?thesis using assms(1) by (simp add: get_end_header_def get_size_tag wordat_def)
qed

text \<open>\<open>set_block\<close> writes the two tags of the block and nothing else.\<close>

lemma set_block_props:
  assumes sz: "even sz" "16 \<le> sz" and fits: "a + sz < 2 ^ 32"
    and m'_def: "m' = set_block m (of_nat a) (of_nat sz) u"
  shows "tag_size (wordat m' a) = of_nat sz" "tag_used (wordat m' a) = u"
    "tag_size (wordat m' (a + sz - 4)) = of_nat sz"
    "\<And>x. x < 2 ^ 32 \<Longrightarrow> x < a \<or> a + 4 \<le> x \<Longrightarrow> x < a + sz - 4 \<or> a + sz \<le> x \<Longrightarrow>
       m' (of_nat x) = m (of_nat x)"
proof -
  let ?m1 = "set_size m (of_nat a) (of_nat sz)"
  let ?m2 = "set_used ?m1 (of_nat a) u"
  have ev: "even (unat (of_nat sz :: u32))" using sz fits by simp
  have t2: "tag_size (wordat ?m2 a) = of_nat sz" "tag_used (wordat ?m2 a) = u"
    using ev by (simp_all add: wordat_def)
  have eh: "get_end_header ?m2 (of_nat a) = of_nat (a + sz - 4)"
    using t2(1) sz by (intro get_end_header_nat) simp_all
  have m': "m' = store32 ?m2 (of_nat (a + sz - 4)) (wordat ?m2 a)"
    by (simp add: m'_def set_block_def Let_def eh wordat_def)
  have wa: "wordat m' a = wordat ?m2 a"
    unfolding m' wordat_def using sz fits by (intro load32_store32_other) auto
  show "tag_size (wordat m' a) = of_nat sz" "tag_used (wordat m' a) = u"
    by (simp_all only: wa t2)
  show "tag_size (wordat m' (a + sz - 4)) = of_nat sz"
    by (simp only: m' wordat_def load32_store32_same t2 [unfolded wordat_def])
  fix x assume x: "x < 2 ^ 32" "x < a \<or> a + 4 \<le> x" "x < a + sz - 4 \<or> a + sz \<le> x"
  have "m' (of_nat x) = ?m2 (of_nat x)"
    unfolding m' using x sz fits by (intro store32_outside) auto
  also have "\<dots> = m (of_nat x)" using x sz fits by (simp add: byte_set_size byte_set_used)
  finally show "m' (of_nat x) = m (of_nat x)" .
qed

subsection \<open>Sequences of blocks\<close>

type_synonym block = "nat \<times> nat \<times> bool"

definition block_tags :: "memory \<Rightarrow> block \<Rightarrow> bool" where
  "block_tags m = (\<lambda>(a, sz, u).
     tag_size (wordat m a) = of_nat sz \<and> tag_used (wordat m a) = u \<and>
     tag_size (wordat m (a + sz - 4)) = of_nat sz)"

fun blocks :: "memory \<Rightarrow> nat \<Rightarrow> block list \<Rightarrow> nat \<Rightarrow> bool" where
  "blocks m a [] e = (a = e)"
| "blocks m a ((b, sz, u) # bs) e =
     (b = a \<and> 16 \<le> sz \<and> even sz \<and> block_tags m (b, sz, u) \<and> blocks m (a + sz) bs e)"

lemma blocks_append:
  "blocks m a (bs @ cs) e \<longleftrightarrow> (\<exists>c. blocks m a bs c \<and> blocks m c cs e)"
  by (induction bs arbitrary: a) auto

lemma blocks_le: "blocks m a bs e \<Longrightarrow> a \<le> e"
  by (induction bs arbitrary: a) (auto, meson add_leD1)

lemma blocks_range:
  "blocks m a bs e \<Longrightarrow> (b, sz, u) \<in> set bs \<Longrightarrow> a \<le> b \<and> b + sz \<le> e \<and> 16 \<le> sz \<and> even sz"
proof (induction bs arbitrary: a)
  case (Cons x bs)
  then show ?case
    by (cases x) (fastforce dest: blocks_le)
qed simp

lemma blocks_cong:
  assumes "blocks m a bs e"
    "\<And>b sz u. (b, sz, u) \<in> set bs \<Longrightarrow>
       wordat m' b = wordat m b \<and> wordat m' (b + sz - 4) = wordat m (b + sz - 4)"
  shows "blocks m' a bs e"
  using assms
proof (induction bs arbitrary: a)
  case (Cons x bs)
  obtain b sz u where x: "x = (b, sz, u)" by (cases x)
  have "blocks m' (a + sz) bs e"
  proof (rule Cons.IH)
    show "blocks m (a + sz) bs e" using Cons.prems(1) by (simp add: x)
    fix b' sz' u' assume "(b', sz', u') \<in> set bs"
    then show "wordat m' b' = wordat m b' \<and> wordat m' (b' + sz' - 4) = wordat m (b' + sz' - 4)"
      by (intro Cons.prems(2) [of b' sz' u']) simp
  qed
  then show ?case
    using Cons.prems(1) Cons.prems(2) [of b sz u] by (auto simp: x block_tags_def)
qed simp

text \<open>Bytes of a sequence that is not touched.\<close>

lemma blocks_frame:
  assumes "blocks m a bs e" "e < 2 ^ 32"
    "\<And>x. a \<le> x \<Longrightarrow> x < e \<Longrightarrow> m' (of_nat x) = m (of_nat x)"
  shows "blocks m' a bs e"
proof (rule blocks_cong [OF assms(1)])
  fix b sz u assume "(b, sz, u) \<in> set bs"
  from blocks_range [OF assms(1) this] have r: "a \<le> b" "b + sz \<le> e" "16 \<le> sz" by auto
  show "wordat m' b = wordat m b \<and> wordat m' (b + sz - 4) = wordat m (b + sz - 4)"
    using r assms(2) by (intro conjI word_frame) (auto intro!: assms(3))
qed

lemma blocks_disjoint:
  assumes "blocks m a bs e" "(b, sz, u) \<in> set bs" "(c, sz', u') \<in> set bs"
  shows "(b = c \<and> sz = sz' \<and> u = u') \<or> b + sz \<le> c \<or> c + sz' \<le> b"
  using assms
proof (induction bs arbitrary: a)
  case (Cons x bs)
  obtain d sd ud where x: "x = (d, sd, ud)" by (cases x)
  have rest: "blocks m (a + sd) bs e" and d: "d = a" using Cons.prems(1) by (auto simp: x)
  show ?case
    using Cons.IH [OF rest] Cons.prems(2,3) blocks_range [OF rest] d by (auto simp: x)
qed simp

lemma blocks_distinct_addr:
  assumes "blocks m a bs e" "(b, sz, u) \<in> set bs" "(b, sz', u') \<in> set bs"
  shows "sz = sz' \<and> u = u'"
  using blocks_disjoint [OF assms] blocks_range [OF assms(1,2)] blocks_range [OF assms(1,3)]
  by auto

lemma blocks_split_at:
  assumes "blocks m a bs e" "(b, sz, u) \<in> set bs"
  shows "\<exists>pre post. bs = pre @ (b, sz, u) # post \<and> blocks m a pre b \<and> blocks m (b + sz) post e"
proof -
  obtain pre post where bs: "bs = pre @ (b, sz, u) # post"
    using split_list [OF assms(2)] by blast
  with assms(1) show ?thesis by (auto simp: blocks_append)
qed

subsection \<open>The free list\<close>

fun dll :: "memory \<Rightarrow> u32 \<Rightarrow> u32 \<Rightarrow> nat list \<Rightarrow> bool" where
  "dll m p x [] = (x = 0)"
| "dll m p x (a # as) =
     (x = of_nat a \<and> wordat m (a + 4) = p \<and> dll m (of_nat a) (wordat m (a + 8)) as)"

definition head_of :: "nat list \<Rightarrow> u32" where
  "head_of xs = (case xs of [] \<Rightarrow> 0 | a # _ \<Rightarrow> of_nat a)"

definition last_of :: "u32 \<Rightarrow> nat list \<Rightarrow> u32" where
  "last_of p xs = (if xs = [] then p else of_nat (last xs))"

lemma head_of_simps [simp]: "head_of [] = 0" "head_of (a # as) = of_nat a"
  by (simp_all add: head_of_def)

lemma last_of_simps [simp]: "last_of p [] = p" "last_of p (a # as) = last_of (of_nat a) as"
  by (simp_all add: last_of_def)

lemma dll_head: "dll m p x xs \<Longrightarrow> x = head_of xs"
  by (cases xs) auto

lemma dll_cong:
  assumes "dll m p x xs"
    "\<And>a. a \<in> set xs \<Longrightarrow> wordat m' (a + 4) = wordat m (a + 4) \<and> wordat m' (a + 8) = wordat m (a + 8)"
  shows "dll m' p x xs"
  using assms
proof (induction xs arbitrary: p x)
  case (Cons a xs)
  have "dll m' (of_nat a) (wordat m (a + 8)) xs"
    using Cons.prems by (intro Cons.IH) auto
  then show ?case using Cons.prems(1) Cons.prems(2) [of a] by simp
qed simp

text \<open>The neighbours of a node in the middle of the list.\<close>

lemma dll_neighbours:
  "dll m p x (xs @ c # ys) \<Longrightarrow> wordat m (c + 4) = last_of p xs \<and> wordat m (c + 8) = head_of ys"
proof (induction xs arbitrary: p x)
  case Nil
  then show ?case by (auto dest: dll_head)
qed auto

text \<open>Changing the link of the first node back.\<close>

lemma dll_relink_first:
  assumes "dll m q x ys"
    "ys \<noteq> [] \<Longrightarrow> wordat m' (hd ys + 4) = p"
    "\<And>a. a \<in> set (tl ys) \<Longrightarrow> wordat m' (a + 4) = wordat m (a + 4)"
    "\<And>a. a \<in> set ys \<Longrightarrow> wordat m' (a + 8) = wordat m (a + 8)"
  shows "dll m' p x ys"
proof (cases ys)
  case Nil
  with assms(1) show ?thesis by simp
next
  case (Cons a as)
  have "dll m' (of_nat a) (wordat m (a + 8)) as"
  proof (rule dll_cong)
    show "dll m (of_nat a) (wordat m (a + 8)) as" using assms(1) Cons by simp
    show "wordat m' (b + 4) = wordat m (b + 4) \<and> wordat m' (b + 8) = wordat m (b + 8)"
      if "b \<in> set as" for b
      using assms(3,4) [of b] that Cons by simp
  qed
  then show ?thesis using assms(1) assms(2) assms(4) [of a] Cons by simp
qed

text \<open>
  Taking the node \<open>c\<close> out: the next field of its predecessor and the previous field of its
  successor change, all other links stay.
\<close>

lemma dll_unlink:
  assumes "dll m p x (xs @ c # ys)" "distinct (xs @ c # ys)"
    and succ: "ys \<noteq> [] \<Longrightarrow> wordat m' (hd ys + 4) = last_of p xs"
    and pred: "xs \<noteq> [] \<Longrightarrow> wordat m' (last xs + 8) = head_of ys"
    and prevs: "\<And>a. a \<in> set xs \<union> set (tl ys) \<Longrightarrow> wordat m' (a + 4) = wordat m (a + 4)"
    and nexts: "\<And>a. a \<in> set (butlast xs) \<union> set ys \<Longrightarrow> wordat m' (a + 8) = wordat m (a + 8)"
  shows "dll m' p (head_of (xs @ ys)) (xs @ ys)"
  using assms
proof (induction xs arbitrary: p x)
  case Nil
  have d: "dll m (of_nat c) (wordat m (c + 8)) ys" using Nil.prems(1) by simp
  have "dll m' p (wordat m (c + 8)) ys"
  proof (rule dll_relink_first [OF d])
    show "wordat m' (hd ys + 4) = p" if "ys \<noteq> []" using Nil.prems(3) [OF that] by simp
    show "wordat m' (a + 4) = wordat m (a + 4)" if "a \<in> set (tl ys)" for a
      using Nil.prems(5) that by simp
    show "wordat m' (a + 8) = wordat m (a + 8)" if "a \<in> set ys" for a
      using Nil.prems(6) that by simp
  qed
  with dll_head [OF this] show ?case unfolding append_Nil by metis
next
  case (Cons a xs)
  have x: "wordat m (a + 4) = p" "dll m (of_nat a) (wordat m (a + 8)) (xs @ c # ys)"
    using Cons.prems(1) by simp_all
  have IH: "dll m' (of_nat a) (head_of (xs @ ys)) (xs @ ys)"
  proof (rule Cons.IH [OF x(2)])
    show "distinct (xs @ c # ys)" using Cons.prems(2) by simp
    show "wordat m' (hd ys + 4) = last_of (of_nat a) xs" if "ys \<noteq> []"
      using Cons.prems(3) [OF that] by simp
    show "wordat m' (last xs + 8) = head_of ys" if "xs \<noteq> []"
      using Cons.prems(4) that by simp
    show "wordat m' (b + 4) = wordat m (b + 4)" if "b \<in> set xs \<union> set (tl ys)" for b
      using Cons.prems(5) that by auto
    show "wordat m' (b + 8) = wordat m (b + 8)" if "b \<in> set (butlast xs) \<union> set ys" for b
      using Cons.prems(6) that by (cases "xs = []") auto
  qed
  have "wordat m' (a + 8) = head_of (xs @ ys)"
  proof (cases "xs = []")
    case True
    then show ?thesis using Cons.prems(4) by simp
  next
    case False
    then have "wordat m' (a + 8) = wordat m (a + 8)" using Cons.prems(6) by simp
    also have "\<dots> = head_of (xs @ c # ys)" using dll_head [OF x(2)] .
    also have "\<dots> = head_of (xs @ ys)" using False by (cases xs) simp_all
    finally show ?thesis .
  qed
  then show ?case using IH x(1) Cons.prems(5) [of a] by simp
qed

subsection \<open>Link fields of nodes that do not overlap\<close>

definition nodes_apart :: "nat set \<Rightarrow> bool" where
  "nodes_apart N \<longleftrightarrow> (\<forall>a \<in> N. 0 < a \<and> a + 16 < 2 ^ 32) \<and>
     (\<forall>a \<in> N. \<forall>b \<in> N. a = b \<or> a + 16 \<le> b \<or> b + 16 \<le> a)"

lemma node_words:
  assumes "nodes_apart N" "a \<in> N" "b \<in> N"
  shows "wordat (set_prev m (of_nat a) p) (b + 4) = (if b = a then p else wordat m (b + 4))"
    "wordat (set_prev m (of_nat a) p) (b + 8) = wordat m (b + 8)"
    "wordat (set_next m (of_nat a) p) (b + 4) = wordat m (b + 4)"
    "wordat (set_next m (of_nat a) p) (b + 8) = (if b = a then p else wordat m (b + 8))"
proof -
  have r: "a + 16 < 2 ^ 32" "b + 16 < 2 ^ 32" "a = b \<or> a + 16 \<le> b \<or> b + 16 \<le> a"
    using assms unfolding nodes_apart_def by blast+
  show "wordat (set_prev m (of_nat a) p) (b + 4) = (if b = a then p else wordat m (b + 4))"
  proof (cases "b = a")
    case False
    then show ?thesis using r by (auto intro!: word_set_prev_other)
  qed (simp add: word_set_prev_same)
  show "wordat (set_prev m (of_nat a) p) (b + 8) = wordat m (b + 8)"
    "wordat (set_next m (of_nat a) p) (b + 4) = wordat m (b + 4)"
    using r by (auto intro!: word_set_prev_other word_set_next_other)
  show "wordat (set_next m (of_nat a) p) (b + 8) = (if b = a then p else wordat m (b + 8))"
  proof (cases "b = a")
    case False
    then show ?thesis using r by (auto intro!: word_set_next_other)
  qed (simp add: word_set_next_same)
qed

lemma node_nonzero: "nodes_apart N \<Longrightarrow> a \<in> N \<Longrightarrow> (of_nat a :: u32) \<noteq> 0"
  using of_nat_u32_eq_iff [of a 0] by (auto simp: nodes_apart_def)

lemma head_of_nonzero:
  "nodes_apart N \<Longrightarrow> set fl \<subseteq> N \<Longrightarrow> head_of fl \<noteq> 0 \<longleftrightarrow> fl \<noteq> []"
  using node_nonzero by (cases fl) auto

lemma last_of_nonzero:
  "nodes_apart N \<Longrightarrow> set fl \<subseteq> N \<Longrightarrow> last_of 0 fl \<noteq> 0 \<longleftrightarrow> fl \<noteq> []"
  by (auto simp: last_of_def) (metis node_nonzero last_in_set subsetD)

text \<open>The three stores of an insertion at the front.\<close>

definition push_links :: "memory \<Rightarrow> nat list \<Rightarrow> nat \<Rightarrow> memory" where
  "push_links m fl c =
     (let m = set_next m (of_nat c) (head_of fl);
          m = set_prev m (of_nat c) 0
      in if fl \<noteq> [] then set_prev m (of_nat (hd fl)) (of_nat c) else m)"

lemma dll_push:
  assumes N: "nodes_apart N" "insert c (set fl) \<subseteq> N" and c: "c \<notin> set fl"
    and d: "dll m 0 (head_of fl) fl" "distinct fl"
  shows "dll (push_links m fl c) 0 (of_nat c) (c # fl)"
proof -
  note w = node_words [OF N(1)]
  let ?m = "push_links m fl c"
  have cN: "c \<in> N" using N(2) by simp
  have hd: "hd fl \<in> N" "hd fl \<noteq> c" if "fl \<noteq> []"
    using that c N(2) by auto
  have cw: "wordat ?m (c + 4) = 0" "wordat ?m (c + 8) = head_of fl"
    using hd cN by (auto simp: push_links_def Let_def w)
  have "dll ?m (of_nat c) (head_of fl) fl"
  proof (rule dll_relink_first [OF d(1)])
    show "wordat ?m (hd fl + 4) = of_nat c" if "fl \<noteq> []"
      using that hd cN by (simp add: push_links_def Let_def w)
    show "wordat ?m (a + 4) = wordat m (a + 4)" if "a \<in> set (tl fl)" for a
    proof -
      have "fl \<noteq> []" "a \<in> N" "a \<noteq> hd fl" "a \<noteq> c" using that c d(2) N(2) by (cases fl; auto)+
      then show ?thesis using hd cN by (simp add: push_links_def Let_def w)
    qed
    show "wordat ?m (a + 8) = wordat m (a + 8)" if "a \<in> set fl" for a
    proof -
      have "fl \<noteq> []" "a \<noteq> c" "a \<in> N" using that c N(2) by auto
      then show ?thesis using hd cN by (simp add: push_links_def Let_def w)
    qed
  qed
  with cw show ?thesis by simp
qed

text \<open>The two stores of an unlinking.\<close>

definition unlink_links :: "memory \<Rightarrow> nat list \<Rightarrow> nat list \<Rightarrow> memory" where
  "unlink_links m xs ys =
     (let m = (if xs \<noteq> [] then set_next m (of_nat (last xs)) (head_of ys) else m)
      in if ys \<noteq> [] then set_prev m (of_nat (hd ys)) (last_of 0 xs) else m)"

lemma dll_unlink_links:
  assumes N: "nodes_apart N" "set (xs @ c # ys) \<subseteq> N"
    and d: "dll m 0 x (xs @ c # ys)" "distinct (xs @ c # ys)"
  shows "dll (unlink_links m xs ys) 0 (head_of (xs @ ys)) (xs @ ys)"
proof (rule dll_unlink [OF d])
  note w = node_words [OF N(1)]
  have hd: "hd ys \<in> N" if "ys \<noteq> []" using that N(2) by auto
  have la: "last xs \<in> N" if "xs \<noteq> []" using that N(2) by auto
  let ?m = "unlink_links m xs ys"
  show "wordat ?m (hd ys + 4) = last_of 0 xs" if "ys \<noteq> []"
    using that hd by (simp add: unlink_links_def Let_def w)
  show "wordat ?m (last xs + 8) = head_of ys" if "xs \<noteq> []"
    using that hd la by (simp add: unlink_links_def Let_def w)
  show "wordat ?m (a + 4) = wordat m (a + 4)" if a: "a \<in> set xs \<union> set (tl ys)" for a
  proof -
    have "a \<noteq> hd ys" if "ys \<noteq> []" using a that d(2) by (cases ys) auto
    moreover have "a \<in> N" using a N(2) by (cases ys) auto
    ultimately show ?thesis using hd la by (simp add: unlink_links_def Let_def w)
  qed
  show "wordat ?m (a + 8) = wordat m (a + 8)" if a: "a \<in> set (butlast xs) \<union> set ys" for a
  proof -
    have "a \<noteq> last xs" if "xs \<noteq> []"
    proof -
      have "distinct (butlast xs @ [last xs])" using d(2) that by simp
      then show ?thesis using a d(2) last_in_set [OF that] by auto
    qed
    moreover have "a \<in> N" using a N(2) by (auto dest: in_set_butlastD)
    ultimately show ?thesis using hd la by (simp add: unlink_links_def Let_def w)
  qed
qed

end
