(* ===== verification/Malloc_Correct.thy ===== *)
theory Malloc_Correct
  imports Malloc_Heap
begin

text \<open>
  Correctness of the allocator: every operation on the free list and on the boundary tags
  preserves the shape of the heap and writes only where a free block was, and from that
  the contracts of \<^verbatim>\<open>mem_alloc_aligned\<close> and \<^verbatim>\<open>mem_free\<close>.
\<close>

subsection \<open>The shape of a heap state\<close>

definition free_addrs :: "block list \<Rightarrow> nat set" where
  "free_addrs bs = {a. \<exists>sz. (a, sz, False) \<in> set bs}"

definition free_region :: "block list \<Rightarrow> nat set" where
  "free_region bs = {x. \<exists>a sz. (a, sz, False) \<in> set bs \<and> a \<le> x \<and> x < a + sz}"

definition used_blocks :: "block list \<Rightarrow> (nat \<times> nat) set" where
  "used_blocks bs = {(a, sz). (a, sz, True) \<in> set bs}"

definition coalesced :: "block list \<Rightarrow> bool" where
  "coalesced = successively (\<lambda>(_, _, u) (_, _, u'). u \<or> u')"

definition shape :: "'z machine_scheme \<Rightarrow> nat \<Rightarrow> block list \<Rightarrow> nat list \<Rightarrow> bool" where
  "shape s st bs fl \<longleftrightarrow>
     4 \<le> st \<and> blocks (mem s) st bs (unat (unallocated_mem s)) \<and>
     dll (mem s) 0 (first_free_block s) fl \<and> distinct fl \<and> set fl \<subseteq> free_addrs bs"

definition heap_inv :: "'z machine_scheme \<Rightarrow> block list \<Rightarrow> nat list \<Rightarrow> bool" where
  "heap_inv s bs fl \<longleftrightarrow>
     (\<exists>start. START_OF_HEAP s = Inr start \<and> shape s (unat start) bs fl) \<and>
     set fl = free_addrs bs \<and> coalesced bs"

text \<open>The two states differ in memory and in the head of the free list only.\<close>

definition only_heap :: "'z machine_scheme \<Rightarrow> 'z machine_scheme \<Rightarrow> bool" where
  "only_heap s s' \<longleftrightarrow> s' = (set_mem s (mem s'))\<lparr>first_free_block := first_free_block s'\<rparr>"

lemma only_heap_refl [simp]: "only_heap s s"
  by (simp add: only_heap_def)

lemma only_heapI [simp]:
  "only_heap s (set_mem s m)" "only_heap s ((set_mem s m)\<lparr>first_free_block := x\<rparr>)"
  by (simp_all add: only_heap_def)

lemma only_heap_trans: "only_heap s s' \<Longrightarrow> only_heap s' s'' \<Longrightarrow> only_heap s s''"
proof -
  assume a: "only_heap s s'" "only_heap s' s''"
  have "s'' = (set_mem ((set_mem s (mem s'))\<lparr>first_free_block := first_free_block s'\<rparr>) (mem s''))
      \<lparr>first_free_block := first_free_block s''\<rparr>"
    using a unfolding only_heap_def by metis
  then show "only_heap s s''" by (simp add: only_heap_def)
qed

lemma only_heap_fields:
  assumes "only_heap s s'"
  shows "unallocated_mem s' = unallocated_mem s" "START_OF_HEAP s' = START_OF_HEAP s"
    "current_directory s' = current_directory s" "kernel_directory s' = kernel_directory s"
proof -
  obtain m x where "s' = (set_mem s m)\<lparr>first_free_block := x\<rparr>"
    using assms unfolding only_heap_def by blast
  then show "unallocated_mem s' = unallocated_mem s" "START_OF_HEAP s' = START_OF_HEAP s"
    "current_directory s' = current_directory s" "kernel_directory s' = kernel_directory s"
    by (simp_all add: START_OF_HEAP_def)
qed

lemma free_addrs_simps [simp]:
  "free_addrs [] = {}"
  "free_addrs ((a, sz, u) # bs) = (if u then free_addrs bs else insert a (free_addrs bs))"
  "free_addrs (bs @ cs) = free_addrs bs \<union> free_addrs cs"
  by (auto simp: free_addrs_def)

lemma free_region_simps [simp]:
  "free_region [] = {}"
  "free_region ((a, sz, u) # bs) = (if u then free_region bs else {a ..< a + sz} \<union> free_region bs)"
  "free_region (bs @ cs) = free_region bs \<union> free_region cs"
  by (auto simp: free_region_def) blast+

lemma used_blocks_simps [simp]:
  "used_blocks [] = {}"
  "used_blocks ((a, sz, u) # bs) = (if u then insert (a, sz) (used_blocks bs) else used_blocks bs)"
  "used_blocks (bs @ cs) = used_blocks bs \<union> used_blocks cs"
  by (auto simp: used_blocks_def)

definition agree_off :: "nat set \<Rightarrow> memory \<Rightarrow> memory \<Rightarrow> bool" where
  "agree_off R m m' \<longleftrightarrow> (\<forall>x < 2 ^ 32. x \<notin> R \<longrightarrow> m' (of_nat x) = m (of_nat x))"

lemma agree_off_refl [simp]: "agree_off R m m"
  by (simp add: agree_off_def)

lemma agree_off_trans: "agree_off R m m' \<Longrightarrow> agree_off R m' m'' \<Longrightarrow> agree_off R m m''"
  by (simp add: agree_off_def)

lemma agree_off_mono: "agree_off R m m' \<Longrightarrow> R \<subseteq> R' \<Longrightarrow> agree_off R' m m'"
  by (auto simp: agree_off_def)

lemma agree_off_byte: "agree_off R m m' \<Longrightarrow> x < 2 ^ 32 \<Longrightarrow> x \<notin> R \<Longrightarrow> m' (of_nat x) = m (of_nat x)"
  by (simp add: agree_off_def)

lemma agree_off_word:
  assumes "agree_off R m m'" "x + 4 \<le> 2 ^ 32" "\<And>y. x \<le> y \<Longrightarrow> y < x + 4 \<Longrightarrow> y \<notin> R"
  shows "wordat m' x = wordat m x"
  using assms by (intro word_frame) (auto intro!: agree_off_byte)

lemma um_less: "unat (unallocated_mem s) < 2 ^ 32"
  by (rule unat_u32_less)

lemma shape_block:
  assumes "shape s st bs fl" "(b, sz, u) \<in> set bs"
  shows "st \<le> b" "0 < b" "b + sz \<le> unat (unallocated_mem s)" "b + sz < 2 ^ 32" "16 \<le> sz" "even sz"
    "tag_size (wordat (mem s) b) = of_nat sz" "tag_used (wordat (mem s) b) = u"
    "tag_size (wordat (mem s) (b + sz - 4)) = of_nat sz"
proof -
  have bl: "blocks (mem s) st bs (unat (unallocated_mem s))" and st: "4 \<le> st"
    using assms(1) by (auto simp: shape_def)
  show r: "st \<le> b" "b + sz \<le> unat (unallocated_mem s)" "16 \<le> sz" "even sz"
    using blocks_range [OF bl assms(2)] by auto
  show "0 < b" "b + sz < 2 ^ 32" using r st um_less [of s] by linarith+
  show "tag_size (wordat (mem s) b) = of_nat sz" "tag_used (wordat (mem s) b) = u"
    "tag_size (wordat (mem s) (b + sz - 4)) = of_nat sz"
    using blocks_split_at [OF bl assms(2)] bl by (auto simp: blocks_append block_tags_def)
qed

lemma shape_node:
  assumes "shape s st bs fl" "a \<in> set fl"
  obtains sz where "(a, sz, False) \<in> set bs"
  using assms by (auto simp: shape_def free_addrs_def)

lemma free_addr_bounds:
  assumes "shape s st bs fl" "a \<in> free_addrs bs"
  shows "0 < a" "a + 16 < 2 ^ 32" "{a ..< a + 16} \<subseteq> free_region bs"
    "tag_used (wordat (mem s) a) = False"
proof -
  obtain sz where a: "(a, sz, False) \<in> set bs" using assms(2) by (auto simp: free_addrs_def)
  note b = shape_block [OF assms(1) a]
  show "0 < a" "a + 16 < 2 ^ 32" using b by linarith+
  show "{a ..< a + 16} \<subseteq> free_region bs" using a b by (fastforce simp: free_region_def)
  show "tag_used (wordat (mem s) a) = False" using b by simp
qed

lemma free_addrs_apart:
  assumes sh: "shape s st bs fl"
  shows "nodes_apart (free_addrs bs)"
proof -
  have bl: "blocks (mem s) st bs (unat (unallocated_mem s))" using sh by (simp add: shape_def)
  have "a = b \<or> a + 16 \<le> b \<or> b + 16 \<le> a" if ab: "a \<in> free_addrs bs" "b \<in> free_addrs bs" for a b
  proof -
    obtain sa sb where s: "(a, sa, False) \<in> set bs" "(b, sb, False) \<in> set bs"
      using ab by (auto simp: free_addrs_def)
    from blocks_disjoint [OF bl s] shape_block(5) [OF sh s(1)] shape_block(5) [OF sh s(2)]
    show ?thesis by auto
  qed
  then show ?thesis using free_addr_bounds(1,2) [OF sh] by (simp add: nodes_apart_def)
qed

text \<open>
  A change of memory that keeps every tag word keeps the sequence of blocks.  The link
  fields of a free block lie strictly between its tags.
\<close>

lemma blocks_keep_links:
  assumes sh: "shape s st bs fl" and N: "N \<subseteq> free_addrs bs"
    and off: "agree_off (\<Union>a \<in> N. {a + 4 ..< a + 12}) (mem s) m'"
  shows "blocks m' st bs (unat (unallocated_mem s))"
proof (rule blocks_cong)
  show bl: "blocks (mem s) st bs (unat (unallocated_mem s))" using sh by (simp add: shape_def)
  fix b sz u assume b: "(b, sz, u) \<in> set bs"
  note r = shape_block [OF sh b]
  have far: "y \<notin> (\<Union>a \<in> N. {a + 4 ..< a + 12})"
    if y: "(b \<le> y \<and> y < b + 4) \<or> (b + sz - 4 \<le> y \<and> y < b + sz)" for y
  proof
    assume "y \<in> (\<Union>a \<in> N. {a + 4 ..< a + 12})"
    then obtain a sa where a: "(a, sa, False) \<in> set bs" and ya: "a + 4 \<le> y" "y < a + 12"
      using N by (auto simp: free_addrs_def)
    from blocks_disjoint [OF bl b a] y ya r(5) shape_block(5) [OF sh a] show False by auto
  qed
  show "wordat m' b = wordat (mem s) b \<and> wordat m' (b + sz - 4) = wordat (mem s) (b + sz - 4)"
    using r far by (intro conjI agree_off_word [OF off]) auto
qed

subsection \<open>Linking and unlinking\<close>

lemma byte_links_off:
  assumes "a + 12 \<le> 2 ^ 32"
  shows "agree_off {a + 4 ..< a + 12} m (set_prev m (of_nat a) p)"
    "agree_off {a + 4 ..< a + 12} m (set_next m (of_nat a) p)"
  using assms by (auto simp: agree_off_def intro!: byte_set_prev byte_set_next)

lemma link_store_off:
  assumes "nodes_apart N" "b \<in> N"
  shows "agree_off (\<Union>a \<in> N. {a + 4 ..< a + 12}) m (set_next m (of_nat b) p)"
    "agree_off (\<Union>a \<in> N. {a + 4 ..< a + 12}) m (set_prev m (of_nat b) p)"
proof -
  have b: "b + 12 \<le> 2 ^ 32" using assms by (auto simp: nodes_apart_def)
  show "agree_off (\<Union>a \<in> N. {a + 4 ..< a + 12}) m (set_next m (of_nat b) p)"
    using assms(2) by (intro agree_off_mono [OF byte_links_off(2) [OF b]]) auto
  show "agree_off (\<Union>a \<in> N. {a + 4 ..< a + 12}) m (set_prev m (of_nat b) p)"
    using assms(2) by (intro agree_off_mono [OF byte_links_off(1) [OF b]]) auto
qed

lemma push_links_off:
  assumes "nodes_apart N" "insert c (set fl) \<subseteq> N"
  shows "agree_off (\<Union>a \<in> N. {a + 4 ..< a + 12}) m (push_links m fl c)"
proof -
  have "hd fl \<in> N" if "fl \<noteq> []" using that assms(2) by auto
  then show ?thesis
    unfolding push_links_def Let_def using assms(2)
    by (auto intro!: link_store_off [OF assms(1)] intro: agree_off_trans [OF link_store_off(1) [OF assms(1)]]
        agree_off_trans [OF agree_off_trans [OF link_store_off(1) [OF assms(1)] link_store_off(2) [OF assms(1)]]])
qed

lemma unlink_links_off:
  assumes "nodes_apart N" "set (xs @ ys) \<subseteq> N"
  shows "agree_off (\<Union>a \<in> N. {a + 4 ..< a + 12}) m (unlink_links m xs ys)"
proof -
  have "last xs \<in> N" if "xs \<noteq> []" using that assms(2) by auto
  moreover have "hd ys \<in> N" if "ys \<noteq> []" using that assms(2) by auto
  ultimately show ?thesis
    unfolding unlink_links_def Let_def
    by (auto intro!: link_store_off [OF assms(1)] intro: agree_off_trans [OF link_store_off(1) [OF assms(1)]])
qed

lemma insert_after_front:
  assumes sh: "shape s st bs fl" and c: "c \<in> free_addrs bs" "c \<notin> set fl"
  defines "s' \<equiv> insert_after s (of_nat c) 0"
  shows "shape s' st bs (c # fl)" "agree_off (free_region bs) (mem s) (mem s')"
    "only_heap s s'"
proof -
  have d: "dll (mem s) 0 (first_free_block s) fl" "distinct fl" "set fl \<subseteq> free_addrs bs"
    using sh by (auto simp: shape_def)
  have hd: "first_free_block s = head_of fl" using dll_head [OF d(1)] .
  have N: "nodes_apart (free_addrs bs)" "insert c (set fl) \<subseteq> free_addrs bs"
    using free_addrs_apart [OF sh] c(1) d(3) by auto
  have ne: "head_of fl \<noteq> 0 \<longleftrightarrow> fl \<noteq> []" using head_of_nonzero [OF N(1) d(3)] .
  have s': "s' = (set_mem s (push_links (mem s) fl c))\<lparr>first_free_block := of_nat c\<rparr>"
    using ne by (cases fl) (simp_all add: s'_def insert_after_def push_links_def Let_def hd)
  have off: "agree_off (\<Union>a \<in> free_addrs bs. {a + 4 ..< a + 12}) (mem s) (push_links (mem s) fl c)"
    using push_links_off [OF N] .
  have "blocks (push_links (mem s) fl c) st bs (unat (unallocated_mem s))"
    by (rule blocks_keep_links [OF sh _ off]) simp
  moreover have "dll (push_links (mem s) fl c) 0 (of_nat c) (c # fl)"
    using d hd by (intro dll_push [OF N c(2)]) simp_all
  ultimately show "shape s' st bs (c # fl)"
    using sh c d by (simp add: s' shape_def)
  have "(\<Union>a \<in> free_addrs bs. {a + 4 ..< a + 12}) \<subseteq> free_region bs"
    using free_addr_bounds(3) [OF sh] by fastforce
  from agree_off_mono [OF off this] show "agree_off (free_region bs) (mem s) (mem s')" by (simp add: s')
  show "only_heap s s'" by (simp add: s')
qed

lemma remove_c_unlinks:
  assumes sh: "shape s st bs (xs @ c # ys)"
  defines "s' \<equiv> remove_c s (of_nat c)"
  shows "shape s' st bs (xs @ ys)" "agree_off (free_region bs) (mem s) (mem s')"
    "only_heap s s'"
    "blocks (mem s') st bs (unat (unallocated_mem s))"
proof -
  have d: "dll (mem s) 0 (first_free_block s) (xs @ c # ys)" "distinct (xs @ c # ys)"
    "set (xs @ c # ys) \<subseteq> free_addrs bs"
    using sh by (auto simp: shape_def)
  have N: "nodes_apart (free_addrs bs)" using free_addrs_apart [OF sh] .
  have nb: "get_prev (mem s) (of_nat c) = last_of 0 xs" "get_next (mem s) (of_nat c) = head_of ys"
    using dll_neighbours [OF d(1)] by (simp_all add: get_prev_wordat get_next_wordat)
  have hd: "first_free_block s = head_of (xs @ c # ys)" using dll_head [OF d(1)] .
  have ne: "head_of ys \<noteq> 0 \<longleftrightarrow> ys \<noteq> []" "last_of 0 xs \<noteq> 0 \<longleftrightarrow> xs \<noteq> []"
    using head_of_nonzero [OF N, of ys] last_of_nonzero [OF N, of xs] d(3) by auto
  let ?m = "unlink_links (mem s) xs ys"
  have s': "s' = (set_mem s ?m)\<lparr>first_free_block := head_of (xs @ ys)\<rparr>"
    using ne hd
    by (cases xs; cases ys)
      (simp_all add: s'_def remove_c_def unlink_links_def Let_def nb last_of_def)
  have off: "agree_off (\<Union>a \<in> free_addrs bs. {a + 4 ..< a + 12}) (mem s) ?m"
    using unlink_links_off [OF N] d(3) by simp
  have bl: "blocks ?m st bs (unat (unallocated_mem s))"
    by (rule blocks_keep_links [OF sh _ off]) simp
  moreover have "dll ?m 0 (head_of (xs @ ys)) (xs @ ys)"
    by (rule dll_unlink_links [OF N d(3,1,2)])
  ultimately show "shape s' st bs (xs @ ys)"
    using sh d by (simp add: s' shape_def)
  have "(\<Union>a \<in> free_addrs bs. {a + 4 ..< a + 12}) \<subseteq> free_region bs"
    using free_addr_bounds(3) [OF sh] by fastforce
  from agree_off_mono [OF off this] show "agree_off (free_region bs) (mem s) (mem s')" by (simp add: s')
  show "only_heap s s'" by (simp add: s')
  show "blocks (mem s') st bs (unat (unallocated_mem s))" using bl by (simp add: s')
qed

subsection \<open>Replacing a stretch of blocks\<close>

lemma blocks_end_unique: "blocks m a bs e \<Longrightarrow> blocks m' a bs e' \<Longrightarrow> e = e'"
  by (induction bs arbitrary: a) auto

lemma blocks_replace:
  assumes bl: "blocks m st (pre @ mid @ post) en" "en < 2 ^ 32"
    and mid: "blocks m st pre c" "blocks m c mid d"
    and off: "agree_off {c ..< d} m m'"
    and new: "blocks m' c mid' d"
  shows "blocks m' st (pre @ mid' @ post) en"
proof -
  obtain c' d' where p: "blocks m st pre c'" "blocks m c' mid d'" "blocks m d' post en"
    using bl(1) by (auto simp: blocks_append)
  have c: "c' = c" using p(1) mid(1) by (rule blocks_end_unique)
  then have d: "d' = d" using p(2) mid(2) blocks_end_unique by blast
  have cd: "c \<le> d" "d \<le> en" using p(2,3) c d blocks_le by blast+
  have same: "m' (of_nat x) = m (of_nat x)" if "x < c \<or> d \<le> x" "x < en" for x
    using that bl(2) by (intro agree_off_byte [OF off]) auto
  have "blocks m' st pre c"
    using cd bl(2) by (intro blocks_frame [OF mid(1)] same) auto
  moreover have "blocks m' d post en"
    using p(3) unfolding d by (rule blocks_frame [OF _ bl(2)]) (simp add: same)
  ultimately show ?thesis using new by (auto simp: blocks_append)
qed

lemma dll_frame:
  assumes sh: "shape s st bs fl" and off: "agree_off R (mem s) m'"
    and R: "\<And>n. n \<in> set fl \<Longrightarrow> {n + 4 ..< n + 12} \<inter> R = {}"
  shows "dll m' 0 (first_free_block s) fl"
proof (rule dll_cong)
  show "dll (mem s) 0 (first_free_block s) fl" using sh by (simp add: shape_def)
  fix n assume n: "n \<in> set fl"
  then have "n \<in> free_addrs bs" using sh by (auto simp: shape_def)
  note b = free_addr_bounds(2) [OF sh this]
  have y: "y \<notin> R" if "n + 4 \<le> y" "y < n + 12" for y using R [OF n] that by fastforce
  show "wordat m' (n + 4) = wordat (mem s) (n + 4) \<and> wordat m' (n + 8) = wordat (mem s) (n + 8)"
    using b y by (intro conjI agree_off_word [OF off]) auto
qed

subsection \<open>Neighbouring blocks\<close>

lemma get_next_block_at:
  assumes sh: "shape s st bs fl" and a: "(a, sz, u) \<in> set bs"
  shows "get_next_block s (of_nat a) =
    (if a + sz = unat (unallocated_mem s) then 0 else of_nat (a + sz))"
proof -
  note b = shape_block [OF sh a]
  have n: "(of_nat a :: u32) + get_size (mem s) (of_nat a) = of_nat (a + sz)"
    using b(7) by (simp add: get_size_tag wordat_def)
  have "(of_nat (a + sz) :: u32) \<ge> unallocated_mem s \<longleftrightarrow> a + sz = unat (unallocated_mem s)"
    using b(3,4) by (auto simp: word_le_nat_alt simp del: of_nat_add)
  then show ?thesis by (simp add: get_next_block_def Let_def n del: of_nat_add)
qed

lemma of_nat_minus_4: "4 \<le> c \<Longrightarrow> (of_nat c :: u32) - 4 = of_nat (c - 4)"
  by (simp add: of_nat_diff)

lemma get_prev_block_first:
  assumes "START_OF_HEAP s = Inr start" "4 \<le> unat start"
  shows "get_prev_block s start = Inr 0"
proof -
  have "unat (start - 4) = unat start - 4" using assms(2) by (simp add: unat_sub word_le_nat_alt)
  then show ?thesis using assms by (simp add: get_prev_block_def word_less_nat_alt)
qed

lemma get_prev_block_at:
  assumes st: "START_OF_HEAP s = Inr start"
    and sh: "shape s (unat start) bs fl" and b: "(b, sz, u) \<in> set bs"
  shows "get_prev_block s (of_nat (b + sz)) = Inr (of_nat b)"
proof -
  note r = shape_block [OF sh b]
  have e: "(of_nat (b + sz) :: u32) - 4 = of_nat (b + sz - 4)" using r by (intro of_nat_minus_4) simp
  have "unat start \<le> b + sz - 4" "unat (of_nat (b + sz - 4) :: u32) = b + sz - 4"
    using r by (simp, intro unat_of_nat_u32) simp
  then have "\<not> (of_nat (b + sz - 4) :: u32) < start"
    unfolding word_less_nat_alt by linarith
  moreover have "(of_nat (b + sz) :: u32) - get_size (mem s) (of_nat (b + sz - 4)) = of_nat b"
    using r(9) by (simp add: get_size_tag wordat_def)
  ultimately show ?thesis by (simp add: get_prev_block_def st e del: of_nat_add)
qed

subsection \<open>Merging\<close>

lemma merge_with_next_idle:
  assumes sh: "shape s st (pre @ (a, sa, u) # post) fl" and post: "post = [] \<or> snd (snd (hd post))"
  shows "merge_with_next s (of_nat a) = s"
proof -
  note n = get_next_block_at [OF sh, of a sa u]
  show ?thesis
  proof (cases post)
    case Nil
    then have "a + sa = unat (unallocated_mem s)" using sh by (auto simp: shape_def blocks_append)
    then show ?thesis using n by (simp add: merge_with_next_def Let_def)
  next
    case (Cons y ys)
    obtain b sb where y: "y = (b, sb, True)" using post Cons by (cases y) auto
    have b: "b = a + sa" using sh Cons y by (auto simp: shape_def blocks_append)
    have "get_used (mem s) (of_nat b)"
      using shape_block(8) [OF sh, of b sb True] Cons y by (simp add: get_used_tag wordat_def)
    then show ?thesis using n b by (auto simp: merge_with_next_def Let_def)
  qed
qed

text \<open>Both tags of a block are rewritten with a larger size; the flag stays.\<close>

lemma retag:
  fixes m :: memory
  assumes n: "even n" "16 \<le> n" "a + n < 2 ^ 32"
  defines "m2 \<equiv> set_size m (of_nat a) (of_nat n)"
  defines "m3 \<equiv> set_size m2 (get_end_header m2 (of_nat a)) (of_nat n)"
  shows "tag_size (wordat m3 a) = of_nat n" "tag_used (wordat m3 a) = tag_used (wordat m a)"
    "tag_size (wordat m3 (a + n - 4)) = of_nat n"
    "agree_off ({a ..< a + 4} \<union> {a + n - 4 ..< a + n}) m m3"
proof -
  have ev: "even (unat (of_nat n :: u32))" using n by simp
  define e where "e = a + n - 4"
  have e: "e + 4 = a + n" "a + 12 \<le> e" "e + 4 < 2 ^ 32" using n by (auto simp: e_def)
  have t2: "tag_size (wordat m2 a) = of_nat n" "tag_used (wordat m2 a) = tag_used (wordat m a)"
    using ev by (simp_all add: wordat_def m2_def)
  have eh: "get_end_header m2 (of_nat a) = of_nat e"
    unfolding e_def using t2(1) n by (intro get_end_header_nat) simp_all
  have w: "wordat m3 a = wordat m2 a"
    unfolding m3_def eh using e by (intro word_set_size_other) auto
  show "tag_size (wordat m3 a) = of_nat n" "tag_used (wordat m3 a) = tag_used (wordat m a)"
    by (simp_all only: w t2)
  show "tag_size (wordat m3 (a + n - 4)) = of_nat n"
    unfolding e_def [symmetric] m3_def eh using ev by (simp add: wordat_def)
  show "agree_off ({a ..< a + 4} \<union> {a + n - 4 ..< a + n}) m m3"
    unfolding agree_off_def e_def [symmetric] m3_def m2_def eh [unfolded m2_def]
    using e by (auto simp: byte_set_size)
qed

lemma merge_with_next_joins:
  assumes sh: "shape s st (pre @ (a, sa, False) # (b, sb, False) # post) (xs @ b # ys)"
  defines "bs \<equiv> pre @ (a, sa, False) # (b, sb, False) # post"
  defines "s' \<equiv> merge_with_next s (of_nat a)"
  shows "shape s' st (pre @ (a, sa + sb, False) # post) (xs @ ys)"
    "agree_off (free_region bs) (mem s) (mem s')"
    "only_heap s s'"
proof -
  have sh: "shape s st bs (xs @ b # ys)" using sh by (simp add: bs_def)
  have mem: "(a, sa, False) \<in> set bs" "(b, sb, False) \<in> set bs" by (simp_all add: bs_def)
  note ra = shape_block [OF sh mem(1)] and rb = shape_block [OF sh mem(2)]
  have b: "b = a + sa" using sh by (auto simp: shape_def blocks_append bs_def)
  let ?s1 = "remove_c s (of_nat b)"
  note u = remove_c_unlinks [OF sh]
  note ra1 = shape_block [OF u(1) mem(1)] and rb1 = shape_block [OF u(1) mem(2)]
  define n where "n = sa + sb"
  have n: "even n" "16 \<le> n" "a + n < 2 ^ 32" using ra rb b by (auto simp: n_def)
  let ?m2 = "set_size (mem ?s1) (of_nat a) (of_nat n)"
  let ?m3 = "set_size ?m2 (get_end_header ?m2 (of_nat a)) (of_nat n)"
  have nb: "get_next_block s (of_nat a) = of_nat b"
    using get_next_block_at [OF sh mem(1)] rb b by auto
  have nz: "(of_nat b :: u32) \<noteq> 0" using rb of_nat_u32_eq_iff [of b 0] by simp
  have free: "\<not> get_used (mem s) (of_nat b)" using rb(8) by (simp add: get_used_tag wordat_def)
  have size: "get_size (mem ?s1) (of_nat a) + get_size (mem ?s1) (of_nat b) = of_nat n"
    using ra1(7) rb1(7) by (simp add: get_size_tag wordat_def n_def)
  have s': "s' = set_mem ?s1 ?m3"
    using nb nz free size by (simp add: s'_def merge_with_next_def remove_c_def Let_def)
  note t = retag [OF n, of "mem ?s1"]
  note off = t(4)
  have offn: "agree_off {a ..< a + n} (mem ?s1) ?m3"
    using n by (intro agree_off_mono [OF off]) auto
  have "blocks ?m3 a [(a, n, False)] (a + n)"
    using t(1-3) ra1(8) n by (simp add: block_tags_def)
  moreover have "blocks (mem ?s1) st pre a" "blocks (mem ?s1) a [(a, sa, False), (b, sb, False)] (a + n)"
    using u(4) b by (auto simp: bs_def blocks_append n_def)
  moreover have "blocks (mem ?s1) st (pre @ [(a, sa, False), (b, sb, False)] @ post) (unat (unallocated_mem s))"
    using u(4) by (simp add: bs_def)
  ultimately have bl: "blocks ?m3 st (pre @ [(a, n, False)] @ post) (unat (unallocated_mem s))"
    using blocks_replace [OF _ um_less _ _ offn] by blast
  have um: "unallocated_mem ?s1 = unallocated_mem s" by (rule only_heap_fields [OF u(3)])
  have node: "\<exists>sn. (n', sn, False) \<in> set bs \<and> n' \<noteq> b" if "n' \<in> set (xs @ ys)" for n'
    using that sh by (auto simp: shape_def free_addrs_def)
  have d: "dll ?m3 0 (first_free_block ?s1) (xs @ ys)"
  proof (rule dll_frame [OF u(1) off])
    fix n' assume "n' \<in> set (xs @ ys)"
    with node obtain sn where sn: "(n', sn, False) \<in> set bs" "n' \<noteq> b" by blast
    have bl: "blocks (mem s) st bs (unat (unallocated_mem s))" using sh by (simp add: shape_def)
    show "{n' + 4 ..< n' + 12} \<inter> ({a ..< a + 4} \<union> {a + n - 4 ..< a + n}) = {}"
      using blocks_disjoint [OF bl sn(1) mem(1)] blocks_disjoint [OF bl sn(1) mem(2)] sn(2)
        shape_block(5) [OF sh sn(1)] ra(5) rb(5) b by (auto simp: n_def)
  qed
  have sub: "set (xs @ ys) \<subseteq> free_addrs (pre @ (a, n, False) # post)"
    using node by (fastforce simp: bs_def free_addrs_def)
  show "shape s' st (pre @ (a, sa + sb, False) # post) (xs @ ys)"
    using bl d sub sh um by (simp add: s' shape_def n_def)
  have "{a ..< a + n} \<subseteq> free_region bs" using b by (auto simp: bs_def n_def)
  from agree_off_mono [OF offn this] show "agree_off (free_region bs) (mem s) (mem s')"
    using u(2) agree_off_trans by (auto simp: s')
  show "only_heap s s'" unfolding s' by (rule only_heap_trans [OF u(3)]) simp
qed

text \<open>
  \<^verbatim>\<open>merge_with_next\<close> on a free block, in both cases at once.  \<open>join_next\<close> is what it does to the
  sequence of blocks that starts with the block.
\<close>

fun join_next :: "block list \<Rightarrow> block list" where
  "join_next ((a, sa, False) # (b, sb, False) # post) = (a, sa + sb, False) # post"
| "join_next bs = bs"

lemma blocks_fresh_addr:
  assumes "blocks m st (pre @ (b, sb, u) # post) en"
  shows "b \<notin> free_addrs pre" "b \<notin> free_addrs post"
proof -
  have p: "blocks m st pre b" "blocks m (b + sb) post en" "16 \<le> sb"
    using assms by (auto simp: blocks_append)
  show "b \<notin> free_addrs pre" using blocks_range [OF p(1)] by (fastforce simp: free_addrs_def)
  show "b \<notin> free_addrs post" using blocks_range [OF p(2)] p(3) by (fastforce simp: free_addrs_def)
qed

lemma blocks_fresh_used:
  assumes "blocks m st (pre @ (b, sb, u) # post) en"
  shows "(b, sz) \<notin> used_blocks pre" "(b, sz) \<notin> used_blocks post"
proof -
  have p: "blocks m st pre b" "blocks m (b + sb) post en" "16 \<le> sb"
    using assms by (auto simp: blocks_append)
  show "(b, sz) \<notin> used_blocks pre" using blocks_range [OF p(1)] by (fastforce simp: used_blocks_def)
  show "(b, sz) \<notin> used_blocks post" using blocks_range [OF p(2)] p(3) by (fastforce simp: used_blocks_def)
qed

lemma merge_with_next_step:
  assumes sh: "shape s st (pre @ (a, sa, False) # post) fl"
    and fl: "set fl = free_addrs (pre @ (a, sa, False) # post)"
  defines "s' \<equiv> merge_with_next s (of_nat a)" and "bs' \<equiv> pre @ join_next ((a, sa, False) # post)"
  shows "\<exists>fl'. shape s' st bs' fl' \<and> set fl' = free_addrs bs' \<and>
    agree_off (free_region (pre @ (a, sa, False) # post)) (mem s) (mem s') \<and>
    only_heap s s'"
proof (cases "post = [] \<or> snd (snd (hd post))")
  case True
  have "join_next ((a, sa, False) # post) = (a, sa, False) # post"
    using True by (cases "(a, sa, False) # post" rule: join_next.cases) auto
  moreover have "s' = s" unfolding s'_def by (rule merge_with_next_idle [OF sh True])
  ultimately show ?thesis using sh fl by (intro exI [of _ fl]) (simp add: bs'_def)
next
  case False
  then obtain b sb post' where post: "post = (b, sb, False) # post'" by (cases post) auto
  have "b \<in> set fl" using fl post by simp
  then obtain xs ys where xy: "fl = xs @ b # ys" by (meson split_list)
  note sh = sh [unfolded post xy]
  note j = merge_with_next_joins [OF sh]
  have b: "b \<notin> free_addrs (pre @ [(a, sa, False)])" "b \<notin> free_addrs post'" "distinct (xs @ b # ys)"
    using sh blocks_fresh_addr [of "mem s" st "pre @ [(a, sa, False)]" b sb False post']
    by (auto simp: shape_def simp del: free_addrs_simps)
  have "set (xs @ ys) = set fl - {b}" using b(3) by (auto simp: xy)
  also have "\<dots> = free_addrs bs'" using b(1,2) by (auto simp: fl bs'_def post)
  finally have f: "set (xs @ ys) = free_addrs bs'" .
  have b': "bs' = pre @ (a, sa + sb, False) # post'" by (simp add: bs'_def post)
  show ?thesis
  proof (intro exI conjI)
    show "shape s' st bs' (xs @ ys)" using j(1) by (simp only: s'_def b')
    show "set (xs @ ys) = free_addrs bs'" by (rule f)
    show "agree_off (free_region (pre @ (a, sa, False) # post)) (mem s) (mem s')"
      using j(2) by (simp only: s'_def post)
    show "only_heap s s'" using j(3) by (simp only: s'_def)
  qed
qed

lemma join_next_same:
  assumes "blocks m st bs en"
  shows "free_region (join_next bs) = free_region bs" "used_blocks (join_next bs) = used_blocks bs"
  using assms by (cases bs rule: join_next.cases; auto)+

lemma join_next_head:
  "\<exists>n post'. join_next ((a, sa, False) # post) = (a, n, False) # post' \<and> sa \<le> n \<and>
     (coalesced post \<longrightarrow> coalesced ((a, n, False) # post'))"
proof (cases "(a, sa, False) # post" rule: join_next.cases)
  case (1 a' sa' b sb post')
  then show ?thesis by (cases post') (auto simp: coalesced_def)
qed (auto simp: coalesced_def)

lemma coalesced_append:
  "coalesced (xs @ ys) \<longleftrightarrow> coalesced xs \<and> coalesced ys \<and>
     (xs = [] \<or> ys = [] \<or> snd (snd (last xs)) \<or> snd (snd (hd ys)))"
  by (auto simp: coalesced_def successively_append_iff split_def)

lemma coalesced_Cons:
  "coalesced (x # xs) \<longleftrightarrow> coalesced xs \<and> (xs = [] \<or> snd (snd x) \<or> snd (snd (hd xs)))"
  by (cases xs) (auto simp: coalesced_def)

definition free_tail :: "block list \<Rightarrow> nat" where
  "free_tail pre = (if pre = [] then 0 else case last pre of (_, sz, u) \<Rightarrow> if u then 0 else sz)"

text \<open>
  \<^verbatim>\<open>merge\<close> on a free block between two coalesced stretches coalesces the whole heap.
\<close>

lemma merge_coalesces:
  assumes st: "START_OF_HEAP s = Inr start"
    and sh: "shape s (unat start) (pre @ (a, sa, False) # post) fl"
    and fl: "set fl = free_addrs (pre @ (a, sa, False) # post)"
    and co: "coalesced pre" "coalesced post"
  defines "bs \<equiv> pre @ (a, sa, False) # post"
  shows "\<exists>r n s' bs' fl'. merge s (of_nat a) = Inr (of_nat r, s') \<and> shape s' (unat start) bs' fl' \<and>
    set fl' = free_addrs bs' \<and> coalesced bs' \<and> used_blocks bs' = used_blocks bs \<and>
    free_region bs' = free_region bs \<and> (r, n, False) \<in> set bs' \<and> sa + free_tail pre \<le> n \<and>
    agree_off (free_region bs) (mem s) (mem s') \<and> only_heap s s'"
proof -
  let ?s1 = "merge_with_next s (of_nat a)"
  obtain n1 post1 where j: "join_next ((a, sa, False) # post) = (a, n1, False) # post1" "sa \<le> n1"
    "coalesced ((a, n1, False) # post1)" using join_next_head co(2) by metis
  define bs1 where "bs1 = pre @ (a, n1, False) # post1"
  obtain fl1 where s1: "shape ?s1 (unat start) bs1 fl1" "set fl1 = free_addrs bs1"
    "agree_off (free_region bs) (mem s) (mem ?s1)" "only_heap s ?s1"
    using merge_with_next_step [OF sh fl] unfolding j(1) bs_def bs1_def by blast
  have bl: "blocks (mem s) (unat start) pre a" "blocks (mem s) a ((a, sa, False) # post) (unat (unallocated_mem s))"
    using sh by (auto simp: shape_def blocks_append)
  have same1: "free_region bs1 = free_region bs" "used_blocks bs1 = used_blocks bs"
    unfolding bs1_def bs_def j(1) [symmetric] using join_next_same [OF bl(2)] by (simp_all del: free_region_simps(2) used_blocks_simps(2))
  have st1: "START_OF_HEAP ?s1 = Inr start" using only_heap_fields(2) [OF s1(4)] st by simp
  have at: "a < 2 ^ 32" using shape_block(4) [OF sh, of a sa False] by simp
  show ?thesis
  proof (cases "pre = [] \<or> snd (snd (last pre))")
    case True
    have "merge s (of_nat a) = Inr (of_nat a, ?s1)"
    proof (cases "pre = []")
      case True
      then have "a = unat start" "4 \<le> unat start" using bl(1) sh by (auto simp: shape_def)
      then show ?thesis using get_prev_block_first [OF st1] by (simp add: merge_def Let_def)
    next
      case False
      then obtain pre' p sp where pre: "pre = pre' @ [(p, sp, True)]"
        using True by (metis append_butlast_last_id prod.exhaust_sel)
      have "(p, sp, True) \<in> set bs1" "a = p + sp" using bl(1) by (auto simp: bs1_def pre blocks_append)
      then show ?thesis
        using get_prev_block_at [OF st1 s1(1)] shape_block(8) [OF s1(1)]
        by (simp add: merge_def Let_def get_used_tag wordat_def)
    qed
    moreover have "free_tail pre = 0" using True by (auto simp: free_tail_def split: prod.split)
    moreover have "coalesced bs1" using True co(1) j(3) by (auto simp: bs1_def coalesced_append)
    ultimately show ?thesis using s1 same1 j(2)
      by (intro exI [of _ a] exI [of _ n1] exI [of _ ?s1] exI [of _ bs1] exI [of _ fl1]) (simp add: bs1_def)
  next
    case False
    then obtain pre' p sp where pre: "pre = pre' @ [(p, sp, False)]"
      by (metis append_butlast_last_id prod.exhaust_sel)
    define bs2 where "bs2 = pre' @ (p, sp + n1, False) # post1"
    have p: "(p, sp, False) \<in> set bs1" "a = p + sp" using bl(1) by (auto simp: bs1_def pre blocks_append)
    have p0: "(of_nat p :: u32) \<noteq> 0"
      using shape_block(2,4) [OF s1(1) p(1)] of_nat_u32_eq_iff [of p 0] by simp
    let ?s2 = "merge_with_next ?s1 (of_nat p)"
    have m: "merge s (of_nat a) = Inr (of_nat p, ?s2)"
      using get_prev_block_at [OF st1 s1(1) p(1)] shape_block(8) [OF s1(1) p(1)] p(2) p0
      by (simp add: merge_def Let_def get_used_tag wordat_def)
    have b1: "bs1 = pre' @ (p, sp, False) # (a, n1, False) # post1" by (simp add: bs1_def pre)
    obtain fl2 where s2: "shape ?s2 (unat start) bs2 fl2" "set fl2 = free_addrs bs2"
      "agree_off (free_region bs1) (mem ?s1) (mem ?s2)" "only_heap ?s1 ?s2"
      using merge_with_next_step [OF s1(1,2) [unfolded b1]] unfolding bs2_def join_next.simps b1 by blast
    have "free_region bs2 = free_region bs1" "used_blocks bs2 = used_blocks bs1"
      using p(2) by (auto simp: bs2_def b1)
    moreover have "coalesced bs2" using co(1) j(3)
      by (cases post1) (auto simp: bs2_def pre coalesced_append, auto simp: coalesced_def)
    moreover have "sa + free_tail pre \<le> sp + n1" using j(2) by (simp add: free_tail_def pre)
    ultimately show ?thesis using s1 s2 same1 m agree_off_trans only_heap_trans
      by (intro exI [of _ p] exI [of _ "sp + n1"] exI [of _ ?s2] exI [of _ bs2] exI [of _ fl2])
        (auto simp: bs2_def)
  qed
qed

subsection \<open>Releasing a block\<close>

text \<open>
  The address \<open>p\<close> belongs to the used block \<open>(b, sz)\<close>: it lies between the tags and only
  zero bytes separate it from the first one.
\<close>

definition handed_out :: "memory \<Rightarrow> nat \<Rightarrow> nat \<Rightarrow> nat \<Rightarrow> bool" where
  "handed_out m b sz p \<longleftrightarrow> b + 4 \<le> p \<and> p \<le> b + sz - 4 \<and> (\<forall>x \<in> {b + 4 ..< p}. m (of_nat x) = 0)"

lemma skip_padding_finds:
  assumes "m (of_nat h) \<noteq> 0" "\<And>x. h < x \<Longrightarrow> x \<le> h + k \<Longrightarrow> m (of_nat x) = 0"
  shows "skip_padding m (of_nat (h + k)) = Some (of_nat h)"
  using assms(2)
proof (induction k)
  case 0
  show ?case using assms(1) by (subst skip_padding.simps) simp
next
  case (Suc k)
  have "m (of_nat (h + Suc k)) = 0" by (rule Suc.prems) simp_all
  moreover have "(of_nat (h + Suc k) :: u32) - 1 = of_nat (h + k)" by simp
  ultimately have "skip_padding m (of_nat (h + Suc k)) = skip_padding m (of_nat (h + k))"
    by (subst skip_padding.simps) (simp del: of_nat_Suc of_nat_add)
  then show ?case using Suc by simp
qed

lemma skip_padding_block:
  assumes sh: "shape s st bs fl" and b: "(b, sz, True) \<in> set bs"
    and p: "handed_out (mem s) b sz (unat p)"
  shows "skip_padding (mem s) (p - 1) = Some (of_nat (b + 3))"
proof -
  have "(of_nat b :: u32) + 3 = of_nat (b + 3)" by simp
  then have "mem s (of_nat (b + 3)) \<noteq> 0"
    using top_byte_nonzero [of "mem s" "of_nat b"] shape_block(8) [OF sh b] by (simp add: wordat_def)
  moreover have "mem s (of_nat x) = 0" if "b + 3 < x" "x \<le> b + 3 + (unat p - (b + 4))" for x
    using p that by (auto simp: handed_out_def)
  ultimately have "skip_padding (mem s) (of_nat (b + 3 + (unat p - (b + 4)))) = Some (of_nat (b + 3))"
    by (rule skip_padding_finds)
  moreover have "b + 3 + (unat p - (b + 4)) = unat p - 1" using p by (auto simp: handed_out_def)
  moreover have "(of_nat (unat p - 1) :: u32) = p - 1"
    using p by (subst of_nat_diff) (auto simp: handed_out_def)
  ultimately show ?thesis by simp
qed

text \<open>
  The bytes of one block that is not in the free list are rewritten so that they hold the
  blocks \<open>mid'\<close>: the rest of the heap is as it was.
\<close>

lemma shape_retile:
  assumes sh: "shape s st (pre @ (a, n, u) # post) fl" and fl: "set fl \<subseteq> free_addrs (pre @ post)"
    and off: "agree_off {a ..< a + n} (mem s) m'" and new: "blocks m' a mid' (a + n)"
  shows "shape (set_mem s m') st (pre @ mid' @ post) fl"
proof -
  let ?bs = "pre @ (a, n, u) # post"
  have bl: "blocks (mem s) st ?bs (unat (unallocated_mem s))" using sh by (simp add: shape_def)
  then have "blocks (mem s) st pre a" "blocks (mem s) a [(a, n, u)] (a + n)"
    "blocks (mem s) st (pre @ [(a, n, u)] @ post) (unat (unallocated_mem s))"
    by (auto simp: blocks_append)
  then have "blocks m' st (pre @ mid' @ post) (unat (unallocated_mem s))"
    using blocks_replace [OF _ um_less _ _ off new] by blast
  moreover have "dll m' 0 (first_free_block s) fl"
  proof (rule dll_frame [OF sh off])
    fix x assume x: "x \<in> set fl"
    then obtain sx where sx: "(x, sx, False) \<in> set pre \<union> set post" using fl by (auto simp: free_addrs_def)
    have "x \<noteq> a" using x fl bl blocks_fresh_addr [of "mem s" st pre a n u post] by auto
    then show "{x + 4 ..< x + 12} \<inter> {a ..< a + n} = {}"
      using blocks_disjoint [OF bl, of x sx False a n u] shape_block(5) [OF sh, of x sx False] sx by auto
  qed
  ultimately show ?thesis using sh fl by (auto simp: shape_def)
qed

lemma set_used_frees:
  assumes sh: "shape s st (pre @ (b, sz, True) # post) fl"
  defines "s' \<equiv> set_mem s (set_used (mem s) (of_nat b) False)"
  shows "shape s' st (pre @ (b, sz, False) # post) fl" "agree_off {b ..< b + sz} (mem s) (mem s')"
proof -
  let ?m = "set_used (mem s) (of_nat b) False"
  have r: "b + sz < 2 ^ 32" "16 \<le> sz" "even sz" "tag_size (wordat (mem s) b) = of_nat sz"
    "tag_size (wordat (mem s) (b + sz - 4)) = of_nat sz"
    using shape_block [OF sh, of b sz True] by simp_all
  show off: "agree_off {b ..< b + sz} (mem s) (mem s')"
    using r(1,2) by (auto simp: s'_def agree_off_def intro!: byte_set_used)
  have "wordat ?m (b + sz - 4) = wordat (mem s) (b + sz - 4)"
    using r(1,2) by (intro word_set_used_other) auto
  then have "blocks ?m b [(b, sz, False)] (b + sz)"
    using r by (simp add: block_tags_def) (simp add: wordat_def)
  moreover have "set fl \<subseteq> free_addrs (pre @ post)" using sh by (auto simp: shape_def)
  ultimately have "shape (set_mem s ?m) st (pre @ [(b, sz, False)] @ post) fl"
    using off by (intro shape_retile [OF sh]) (simp_all add: s'_def)
  then show "shape s' st (pre @ (b, sz, False) # post) fl" by (simp add: s'_def)
qed

lemma mem_free_releases:
  assumes inv: "heap_inv s bs fl" and b: "(b, sz, True) \<in> set bs"
    and p: "handed_out (mem s) b sz (unat p)"
  shows "\<exists>s' bs' fl'. mem_free s p = Inr s' \<and> heap_inv s' bs' fl' \<and>
    used_blocks bs' = used_blocks bs - {(b, sz)} \<and> free_region bs' = free_region bs \<union> {b ..< b + sz} \<and>
    agree_off (free_region bs \<union> {b ..< b + sz}) (mem s) (mem s') \<and> only_heap s s'"
proof -
  obtain start where st: "START_OF_HEAP s = Inr start" and sh: "shape s (unat start) bs fl"
    using inv by (auto simp: heap_inv_def)
  have fl: "set fl = free_addrs bs" and co: "coalesced bs" using inv by (auto simp: heap_inv_def)
  obtain pre post where bs: "bs = pre @ (b, sz, True) # post" using split_list [OF b] by blast
  note sh = sh [unfolded bs]
  define bs1 where "bs1 = pre @ (b, sz, False) # post"
  have fresh: "b \<notin> free_addrs pre" "b \<notin> free_addrs post" "(b, sz) \<notin> used_blocks pre" "(b, sz) \<notin> used_blocks post"
    using sh [unfolded shape_def] by (auto dest: blocks_fresh_addr blocks_fresh_used)
  let ?s1 = "set_mem s (set_used (mem s) (of_nat b) False)"
  let ?s2 = "insert_after ?s1 (of_nat b) 0"
  note s1 = set_used_frees [OF sh, folded bs1_def]
  have "b \<in> free_addrs bs1" "b \<notin> set fl" using fresh by (auto simp: bs1_def fl bs)
  note s2 = insert_after_front [OF s1(1) this]
  have st2: "START_OF_HEAP ?s2 = Inr start"
    using only_heap_fields(2) [OF s2(3)] only_heap_fields(2) [of s ?s1] st by simp
  have fl2: "set (b # fl) = free_addrs (pre @ (b, sz, False) # post)" by (simp add: fl bs)
  have co2: "coalesced pre" "coalesced post" using co by (auto simp: bs coalesced_append coalesced_Cons)
  obtain r s' bs' fl' where m: "merge ?s2 (of_nat b) = Inr (r, s')" "shape s' (unat start) bs' fl'"
    "set fl' = free_addrs bs'" "coalesced bs'" "used_blocks bs' = used_blocks bs1"
    "free_region bs' = free_region bs1" "agree_off (free_region bs1) (mem ?s2) (mem s')" "only_heap ?s2 s'"
    using merge_coalesces [OF st2 s2(1) [unfolded bs1_def] fl2 co2] unfolding bs1_def [symmetric] by blast
  have hdr: "(of_nat (b + 3) :: u32) + 1 - 4 = of_nat b" by simp
  have "mem_free s p = Inr s'"
    using skip_padding_block [OF sh _ p] m(1) hdr by (simp add: mem_free_def Let_def del: of_nat_add)
  moreover have r1: "free_region bs1 = free_region bs \<union> {b ..< b + sz}" by (auto simp: bs1_def bs)
  moreover have "used_blocks bs1 = used_blocks bs - {(b, sz)}" using fresh by (auto simp: bs1_def bs)
  moreover have oh: "only_heap s s'" using s2(3) m(8) only_heap_trans only_heapI by blast
  moreover have "heap_inv s' bs' fl'"
    using m(2-4) st only_heap_fields(2) [OF oh] by (auto simp: heap_inv_def)
  moreover have "agree_off (free_region bs1) (mem s) (mem s')"
  proof -
    have "{b ..< b + sz} \<subseteq> free_region bs1" by (auto simp: bs1_def)
    from agree_off_mono [OF s1(2) this] s2(2) m(7) show ?thesis using agree_off_trans by blast
  qed
  ultimately show ?thesis using m(5,6) by auto
qed

subsection \<open>Taking a block\<close>

lemma set_block_tile:
  assumes "even n" "16 \<le> n" "a + n < 2 ^ 32"
  shows "blocks (set_block m (of_nat a) (of_nat n) u) a [(a, n, u)] (a + n)"
    "agree_off {a ..< a + n} m (set_block m (of_nat a) (of_nat n) u)"
  using assms set_block_props [OF assms refl] by (auto simp: block_tags_def agree_off_def)

lemma set_block_split:
  fixes m :: memory
  assumes k: "even k" "16 \<le> k" and n: "even n" "k + 16 \<le> n" "a + n < 2 ^ 32"
  defines "m' \<equiv> set_block (set_block m (of_nat a) (of_nat k) True) (of_nat (a + k)) (of_nat (n - k)) False"
  shows "blocks m' a [(a, k, True), (a + k, n - k, False)] (a + n)"
    "agree_off {a ..< a + n} m m'"
proof -
  let ?m1 = "set_block m (of_nat a) (of_nat k) True"
  have "even (n - k)" "16 \<le> n - k" "(a + k) + (n - k) < 2 ^ 32" using k n by auto
  note t2 = set_block_tile [OF this, of ?m1 False, folded m'_def]
  have "a + k < 2 ^ 32" using n by simp
  note t1 = set_block_tile [OF k this, of m True]
  have "blocks m' a [(a, k, True)] (a + k)"
    using n(2,3) by (intro blocks_frame [OF t1(1)] agree_off_byte [OF t2(2)]) auto
  then show "blocks m' a [(a, k, True), (a + k, n - k, False)] (a + n)"
    using t2(1) n(2) by simp
  have sub: "{a ..< a + k} \<subseteq> {a ..< a + n}" "{a + k ..< a + k + (n - k)} \<subseteq> {a ..< a + n}"
    using n(2) by auto
  show "agree_off {a ..< a + n} m m'"
    using agree_off_trans [OF agree_off_mono [OF t1(2) sub(1)] agree_off_mono [OF t2(2) sub(2)]] .
qed

lemma get_next_block_after:
  assumes "tag_size (wordat (mem s) a) = of_nat k" "a + k < unat (unallocated_mem s)"
  shows "get_next_block s (of_nat a) = of_nat (a + k)"
proof -
  have n: "(of_nat a :: u32) + get_size (mem s) (of_nat a) = of_nat (a + k)"
    using assms(1) by (simp add: get_size_tag wordat_def)
  have "\<not> (of_nat (a + k) :: u32) \<ge> unallocated_mem s"
    using assms(2) um_less [of s] by (simp add: word_le_nat_alt del: of_nat_add)
  then show ?thesis by (simp add: get_next_block_def Let_def n del: of_nat_add)
qed

lemma carve_block_reads:
  assumes sh: "shape s st (pre @ (a, n, False) # post) (xs @ a # ys)" and k: "k \<le> n"
  defines "s1 \<equiv> remove_c s (of_nat a)"
  shows "get_size (mem s1) (of_nat a) = of_nat n" "(of_nat n :: u32) - of_nat k = of_nat (n - k)"
    "(of_nat n :: u32) - of_nat k \<ge> 12 + 4 \<longleftrightarrow> k + 16 \<le> n"
    "set (xs @ ys) \<subseteq> free_addrs (pre @ post)"
proof -
  have r: "a + n < 2 ^ 32" "tag_size (wordat (mem s1) a) = of_nat n"
    using shape_block(4,7) [OF remove_c_unlinks(1) [OF sh], of a n False] by (simp_all add: s1_def)
  show "get_size (mem s1) (of_nat a) = of_nat n" using r(2) by (simp add: get_size_tag wordat_def)
  show diff: "(of_nat n :: u32) - of_nat k = of_nat (n - k)" using k by (simp add: of_nat_diff)
  show "(of_nat n :: u32) - of_nat k \<ge> 12 + 4 \<longleftrightarrow> k + 16 \<le> n"
    unfolding diff using r(1) k by (auto simp: word_le_nat_alt simp del: of_nat_diff)
  show "set (xs @ ys) \<subseteq> free_addrs (pre @ post)" using sh by (auto simp: shape_def)
qed

lemma carve_block_whole:
  assumes sh: "shape s st (pre @ (a, n, False) # post) (xs @ a # ys)"
    and k: "k \<le> n" "\<not> k + 16 \<le> n"
  defines "s' \<equiv> carve_block s (of_nat a) (of_nat k)"
  shows "shape s' st (pre @ (a, n, True) # post) (xs @ ys)"
    "agree_off (free_region (pre @ (a, n, False) # post)) (mem s) (mem s')" "only_heap s s'"
proof -
  let ?s1 = "remove_c s (of_nat a)" and ?bs = "pre @ (a, n, False) # post"
  note s1 = remove_c_unlinks [OF sh] and rd = carve_block_reads [OF sh k(1)]
  have r: "even n" "16 \<le> n" "a + n < 2 ^ 32" using shape_block [OF sh, of a n False] by simp_all
  let ?m = "set_block (mem ?s1) (of_nat a) (of_nat n) True"
  have s': "s' = set_mem ?s1 ?m" using rd(1,3) k(2) by (simp add: s'_def carve_block_def Let_def)
  note t = set_block_tile [OF r, of "mem ?s1" True]
  show "shape s' st (pre @ (a, n, True) # post) (xs @ ys)"
    using shape_retile [OF s1(1) rd(4) t(2,1)] by (simp add: s')
  have "{a ..< a + n} \<subseteq> free_region ?bs" by auto
  from agree_off_trans [OF s1(2) agree_off_mono [OF t(2) this]]
  show "agree_off (free_region ?bs) (mem s) (mem s')" by (simp add: s')
  show "only_heap s s'" unfolding s' by (rule only_heap_trans [OF s1(3)]) simp
qed

lemma carve_block_splits:
  assumes sh: "shape s st (pre @ (a, n, False) # post) (xs @ a # ys)"
    and co: "post = [] \<or> snd (snd (hd post))" and k: "even k" "16 \<le> k" "k + 16 \<le> n"
  defines "s' \<equiv> carve_block s (of_nat a) (of_nat k)"
  shows "shape s' st (pre @ (a, k, True) # (a + k, n - k, False) # post) ((a + k) # xs @ ys)"
    "agree_off (free_region (pre @ (a, n, False) # post)) (mem s) (mem s')" "only_heap s s'"
proof -
  let ?s1 = "remove_c s (of_nat a)" and ?bs = "pre @ (a, n, False) # post"
  define bs' where "bs' = pre @ (a, k, True) # (a + k, n - k, False) # post"
  have kn: "k \<le> n" using k(3) by simp
  note s1 = remove_c_unlinks [OF sh] and rd = carve_block_reads [OF sh kn]
  have "(a, n, False) \<in> set ?bs" by simp
  note r = shape_block [OF s1(1) this]
  let ?m1 = "set_block (mem ?s1) (of_nat a) (of_nat k) True"
  let ?m2 = "set_block ?m1 (of_nat (a + k)) (of_nat (n - k)) False"
  note t = set_block_split [OF k(1,2) r(6) k(3) r(4), of "mem ?s1"]
  have s2: "shape (set_mem ?s1 ?m2) st bs' (xs @ ys)"
    using shape_retile [OF s1(1) rd(4) t(2,1)] by (simp add: bs'_def)
  have bl: "blocks (mem ?s1) st pre a" "blocks (mem ?s1) (a + n) post (unat (unallocated_mem s))"
    using s1(4) by (auto simp: blocks_append)
  have "a + k \<notin> free_addrs pre" "a + k \<notin> free_addrs post"
    using blocks_range [OF bl(1), of "a + k"] blocks_range [OF bl(2), of "a + k"] k(3)
    by (fastforce simp: free_addrs_def)+
  then have fr: "a + k \<in> free_addrs bs'" "a + k \<notin> set (xs @ ys)"
    using rd(4) by (auto simp: bs'_def)
  note s3 = insert_after_front [OF s2 fr]
  let ?s3 = "insert_after (set_mem ?s1 ?m2) (of_nat (a + k)) 0"
  have "shape ?s3 st ((pre @ [(a, k, True)]) @ (a + k, n - k, False) # post) ((a + k) # xs @ ys)"
    using s3(1) by (simp add: bs'_def)
  from merge_with_next_idle [OF this co]
  have idle: "merge_with_next ?s3 (of_nat (a + k)) = ?s3" .
  have "tag_size (wordat ?m1 a) = of_nat k"
    using set_block_props(1) [OF k(1,2) _ refl] r(4) k(3) by simp
  then have nb: "get_next_block (set_mem ?s1 ?m1) (of_nat a) = of_nat (a + k)"
    using r(3) k(3) by (intro get_next_block_after) simp_all
  have s': "s' = ?s3"
    using rd(1,3) nb idle k(3)
    by (simp add: s'_def carve_block_def Let_def rd(2) del: of_nat_add of_nat_diff)
  show "shape s' st (pre @ (a, k, True) # (a + k, n - k, False) # post) ((a + k) # xs @ ys)"
    using s3(1) by (simp add: s' bs'_def)
  have "free_region bs' \<subseteq> free_region ?bs" "{a ..< a + n} \<subseteq> free_region ?bs"
    using k(3) by (auto simp: bs'_def)
  from agree_off_mono [OF s3(2) this(1)] agree_off_mono [OF t(2) this(2)] s1(2)
  show "agree_off (free_region ?bs) (mem s) (mem s')"
    unfolding s' mem_set_mem using agree_off_trans by blast
  show "only_heap s s'" unfolding s' using s1(3) s3(3) only_heap_trans only_heapI by blast
qed

lemma carve_block_takes:
  assumes inv: "heap_inv s bs fl" and a: "(a, n, False) \<in> set bs" and k: "even k" "16 \<le> k" "k \<le> n"
  defines "s' \<equiv> carve_block s (of_nat a) (of_nat k)"
  shows "\<exists>bs' fl' z. heap_inv s' bs' fl' \<and> (a, z, True) \<in> set bs' \<and> k \<le> z \<and>
    used_blocks bs' = insert (a, z) (used_blocks bs) \<and> (\<forall>y. (a, y) \<notin> used_blocks bs) \<and>
    free_region bs = free_region bs' \<union> {a ..< a + z} \<and>
    agree_off (free_region bs) (mem s) (mem s') \<and> only_heap s s'"
proof -
  obtain start where st: "START_OF_HEAP s = Inr start" and sh: "shape s (unat start) bs fl"
    using inv by (auto simp: heap_inv_def)
  have fl: "set fl = free_addrs bs" and co: "coalesced bs" using inv by (auto simp: heap_inv_def)
  obtain pre post where bs: "bs = pre @ (a, n, False) # post" using split_list [OF a] by blast
  have "a \<in> set fl" by (simp add: fl bs)
  then obtain xs ys where xy: "fl = xs @ a # ys" by (meson split_list)
  note sh = sh [unfolded bs xy]
  have fresh: "a \<notin> free_addrs pre" "a \<notin> free_addrs post" "\<forall>y. (a, y) \<notin> used_blocks bs"
    using sh [unfolded shape_def] by (auto simp: bs dest: blocks_fresh_addr blocks_fresh_used)
  have "distinct (xs @ a # ys)" using sh by (simp add: shape_def)
  then have xys: "set (xs @ ys) = free_addrs (pre @ post)" using fl fresh by (auto simp: bs xy)
  have cp: "coalesced pre" "coalesced post" "pre = [] \<or> snd (snd (last pre))" "post = [] \<or> snd (snd (hd post))"
    using co by (auto simp: bs coalesced_append coalesced_Cons)
  have oh: "START_OF_HEAP s' = Inr start" if "only_heap s s'"
    using only_heap_fields(2) [OF that] st by simp
  show ?thesis
  proof (cases "k + 16 \<le> n")
    case False
    note w = carve_block_whole [OF sh k(3) False, folded s'_def]
    have "heap_inv s' (pre @ (a, n, True) # post) (xs @ ys)"
      using w(1) oh [OF w(3)] xys cp by (auto simp: heap_inv_def coalesced_append coalesced_Cons)
    then show ?thesis using w(2,3) k(3) fresh(3)
      by (intro exI [of _ "pre @ (a, n, True) # post"] exI [of _ "xs @ ys"] exI [of _ n])
        (auto simp: bs)
  next
    case True
    note w = carve_block_splits [OF sh cp(4) k(1,2) True, folded s'_def]
    have "heap_inv s' (pre @ (a, k, True) # (a + k, n - k, False) # post) ((a + k) # xs @ ys)"
      using w(1) oh [OF w(3)] xys cp by (auto simp: heap_inv_def coalesced_append coalesced_Cons)
    then show ?thesis using w(2,3) True fresh(3)
      by (intro exI [of _ "pre @ (a, k, True) # (a + k, n - k, False) # post"] exI [of _ "(a + k) # xs @ ys"] exI [of _ k])
        (auto simp: bs)
  qed
qed

subsection \<open>Writing to allocated memory\<close>

text \<open>The bytes of the used blocks that are not tags.\<close>

definition payload :: "block list \<Rightarrow> nat set" where
  "payload bs = {x. \<exists>a sz. (a, sz, True) \<in> set bs \<and> a + 4 \<le> x \<and> x < a + sz - 4}"

lemma payload_writes_keep:
  assumes inv: "heap_inv s bs fl" and off: "agree_off (payload bs) (mem s) m'"
  shows "heap_inv (set_mem s m') bs fl"
proof -
  obtain start where st: "START_OF_HEAP s = Inr start" and sh: "shape s (unat start) bs fl"
    using inv by (auto simp: heap_inv_def)
  have bl: "blocks (mem s) (unat start) bs (unat (unallocated_mem s))" using sh by (simp add: shape_def)
  have tag: "y \<notin> payload bs"
    if b: "(b, sz, u) \<in> set bs" and y: "(b \<le> y \<and> y < b + 4) \<or> (b + sz - 4 \<le> y \<and> y < b + sz)" for b sz u y
  proof
    assume "y \<in> payload bs"
    then obtain c sc where c: "(c, sc, True) \<in> set bs" "c + 4 \<le> y" "y < c + sc - 4"
      by (auto simp: payload_def)
    show False using blocks_disjoint [OF bl b c(1)] blocks_range [OF bl b] y c(2,3) by auto
  qed
  have "blocks m' (unat start) bs (unat (unallocated_mem s))"
  proof (rule blocks_cong [OF bl])
    fix b sz u assume b: "(b, sz, u) \<in> set bs"
    note r = shape_block [OF sh b]
    show "wordat m' b = wordat (mem s) b \<and> wordat m' (b + sz - 4) = wordat (mem s) (b + sz - 4)"
      using r(4,5) tag [OF b] by (intro conjI agree_off_word [OF off]) auto
  qed
  moreover have "dll m' 0 (first_free_block s) fl"
  proof (rule dll_frame [OF sh off])
    fix n assume "n \<in> set fl"
    then obtain sn where sn: "(n, sn, False) \<in> set bs" using shape_node [OF sh] by blast
    show "{n + 4 ..< n + 12} \<inter> payload bs = {}"
      using blocks_disjoint [OF bl sn] shape_block(5) [OF sh sn] by (fastforce simp: payload_def)
  qed
  ultimately show ?thesis using inv sh st
    by (auto simp: heap_inv_def shape_def START_OF_HEAP_def)
qed

end
