(* ===== verification/Malloc_Alloc.thy ===== *)
theory Malloc_Alloc
  imports Malloc_Correct
begin

text \<open>
  Allocation: the search of the free list is first fit and ends, a block that was found is
  handed out with its padding, the heap grows by pages of the paging code.  What the
  allocator needs of the paging code is the locale \<open>page_provider\<close>.
\<close>

subsection \<open>First fit\<close>

definition first_fit :: "memory \<Rightarrow> u32 \<Rightarrow> nat list \<Rightarrow> nat option" where
  "first_fit m k fl = find (\<lambda>a. k \<le> get_size m (of_nat a)) fl"

lemma find_block_first_fit:
  assumes "dll m p x fl" "\<And>a. a \<in> set fl \<Longrightarrow> (of_nat a :: u32) \<noteq> 0"
  shows "find_block m x k = Some (case first_fit m k fl of None \<Rightarrow> 0 | Some a \<Rightarrow> of_nat a)"
  using assms
proof (induction fl arbitrary: p x)
  case Nil
  then show ?case by (subst find_block.simps) (simp add: first_fit_def)
next
  case (Cons a fl)
  have x: "x = of_nat a" "dll m (of_nat a) (get_next m (of_nat a)) fl" "(of_nat a :: u32) \<noteq> 0"
    using Cons.prems by (simp_all add: get_next_wordat)
  show ?case
  proof (cases "k \<le> get_size m (of_nat a)")
    case True
    then have "\<not> get_size m (of_nat a) < k" by simp
    then show ?thesis using x True by (subst find_block.simps) (simp only: first_fit_def, simp)
  next
    case False
    have "find_block m x k = find_block m (get_next m (of_nat a)) k"
      using x False by (subst find_block.simps) (simp add: not_le)
    also have "\<dots> = Some (case first_fit m k fl of None \<Rightarrow> 0 | Some a \<Rightarrow> of_nat a)"
      by (rule Cons.IH [OF x(2)]) (simp add: Cons.prems(2))
    finally show ?thesis using False by (simp add: first_fit_def)
  qed
qed

lemma find_block_heap:
  assumes inv: "heap_inv s bs fl"
  shows "find_block (mem s) (first_free_block s) k =
    Some (case first_fit (mem s) k fl of None \<Rightarrow> 0 | Some a \<Rightarrow> of_nat a)"
proof -
  obtain st where sh: "shape s st bs fl" using inv by (auto simp: heap_inv_def)
  have "(of_nat a :: u32) \<noteq> 0" if "a \<in> set fl" for a
    using node_nonzero [OF free_addrs_apart [OF sh]] sh that by (auto simp: shape_def)
  then show ?thesis using sh by (intro find_block_first_fit [of _ 0]) (auto simp: shape_def)
qed

text \<open>A hit is a free block that is large enough; a miss means that no free block is.\<close>

lemma first_fit_hit:
  assumes inv: "heap_inv s bs fl" and hit: "first_fit (mem s) (of_nat k) fl = Some a" "k < 2 ^ 32"
  shows "\<exists>n. (a, n, False) \<in> set bs \<and> k \<le> n \<and> (of_nat a :: u32) \<noteq> 0"
proof -
  obtain st where sh: "shape s st bs fl" using inv by (auto simp: heap_inv_def)
  have a: "a \<in> set fl" "(of_nat k :: u32) \<le> get_size (mem s) (of_nat a)"
    using hit by (auto simp: first_fit_def find_Some_iff)
  obtain n where n: "(a, n, False) \<in> set bs" using shape_node [OF sh a(1)] .
  note r = shape_block [OF sh n]
  have "get_size (mem s) (of_nat a) = of_nat n" using r(7) by (simp add: get_size_tag wordat_def)
  then have "k \<le> n" using a(2) hit(2) r(4) by (simp add: word_le_nat_alt)
  moreover have "(of_nat a :: u32) \<noteq> 0" using r(2,4) of_nat_u32_eq_iff [of a 0] by simp
  ultimately show ?thesis using n by blast
qed

lemma first_fit_miss:
  assumes inv: "heap_inv s bs fl" and miss: "first_fit (mem s) (of_nat k) fl = None" "k < 2 ^ 32"
    and a: "(a, n, False) \<in> set bs"
  shows "n < k"
proof -
  obtain st where sh: "shape s st bs fl" using inv by (auto simp: heap_inv_def)
  have "a \<in> set fl" using inv a by (auto simp: heap_inv_def free_addrs_def)
  then have "\<not> (of_nat k :: u32) \<le> get_size (mem s) (of_nat a)"
    using miss(1) by (auto simp: first_fit_def find_None_iff)
  moreover note r = shape_block [OF sh a]
  have "get_size (mem s) (of_nat a) = of_nat n" using r(7) by (simp add: get_size_tag wordat_def)
  ultimately show ?thesis using miss(2) r(4) by (simp add: word_le_nat_alt)
qed

subsection \<open>Handing out a block\<close>

text \<open>
  What the caller of \<^verbatim>\<open>mem_alloc_aligned\<close> gets: \<open>p\<close> is aligned and at least \<open>req\<close> bytes from it
  on belong to a block that was not in use before, all other blocks in use keep their
  place, and bytes change only in the free blocks, in the pages the heap has grown by and
  in the page tables \<open>T\<close>.
\<close>

definition fresh_region :: "'z machine_scheme \<Rightarrow> block list \<Rightarrow> 'z machine_scheme \<Rightarrow> nat set" where
  "fresh_region s bs s' =
     free_region bs \<union> {unat (unallocated_mem s) ..< unat (unallocated_mem s')}"

definition allocated ::
  "nat set \<Rightarrow> 'z machine_scheme \<Rightarrow> block list \<Rightarrow> nat \<Rightarrow> nat \<Rightarrow> u32 \<Rightarrow> 'z machine_scheme \<Rightarrow> bool"
where
  "allocated T s bs req al p s' \<longleftrightarrow> (\<exists>bs' fl' a z.
     heap_inv s' bs' fl' \<and> used_blocks bs' = insert (a, z) (used_blocks bs) \<and>
     (a, z) \<notin> used_blocks bs \<and> handed_out (mem s') a z (unat p) \<and>
     unat p + req + 4 \<le> a + z \<and> al dvd unat p \<and> {a ..< a + z} \<subseteq> fresh_region s bs s' \<and>
     free_region bs' \<subseteq> fresh_region s bs s' \<and>
     agree_off (fresh_region s bs s' \<union> T) (mem s) (mem s'))"

lemma allocated_mono:
  assumes al: "allocated {} s1 bs1 req al p s'" and u: "used_blocks bs1 = used_blocks bs"
    and off: "agree_off (fresh_region s bs s1 \<union> T) (mem s) (mem s1)"
    and r: "free_region bs1 \<subseteq> fresh_region s bs s1"
    and um: "unat (unallocated_mem s) \<le> unat (unallocated_mem s1)" "unallocated_mem s' = unallocated_mem s1"
  shows "allocated T s bs req al p s'"
proof -
  have sub: "fresh_region s1 bs1 s' \<subseteq> fresh_region s bs s'" "fresh_region s bs s1 = fresh_region s bs s'"
    using r um by (auto simp: fresh_region_def)
  obtain bs' fl' a z where x: "heap_inv s' bs' fl'" "used_blocks bs' = insert (a, z) (used_blocks bs1)"
    "(a, z) \<notin> used_blocks bs1" "handed_out (mem s') a z (unat p)" "unat p + req + 4 \<le> a + z"
    "al dvd unat p" "{a ..< a + z} \<subseteq> fresh_region s1 bs1 s'" "free_region bs' \<subseteq> fresh_region s1 bs1 s'"
    "agree_off (fresh_region s1 bs1 s') (mem s1) (mem s')"
    using al unfolding allocated_def by auto
  have "agree_off (fresh_region s bs s' \<union> T) (mem s1) (mem s')"
    using sub by (intro agree_off_mono [OF x(9)]) auto
  then have "agree_off (fresh_region s bs s' \<union> T) (mem s) (mem s')"
    using off sub(2) agree_off_trans by metis
  then show ?thesis unfolding allocated_def using x(1-8) u sub(1)
    by (intro exI [of _ bs'] exI [of _ fl'] exI [of _ a] exI [of _ z]) auto
qed

lemma allocated_more: "allocated {} s bs req al p s' \<Longrightarrow> allocated T s bs req al p s'"
  unfolding allocated_def by (meson Un_mono agree_off_mono empty_subsetI order_refl)

lemma pad_block:
  assumes inv: "heap_inv s bs fl" and a: "(a, z, True) \<in> set bs"
    and p: "a + 4 \<le> unat p" "unat p \<le> a + z - 4"
  defines "m' \<equiv> mem_set (mem s) (of_nat a + 4) 0 (p - (of_nat a + 4))"
  shows "heap_inv (set_mem s m') bs fl" "handed_out m' a z (unat p)"
    "agree_off {a ..< a + z} (mem s) m'"
proof -
  obtain st where sh: "shape s st bs fl" using inv by (auto simp: heap_inv_def)
  note r = shape_block [OF sh a]
  have h: "unat (of_nat a + 4 :: u32) = a + 4"
    using unat_of_nat_u32 [of "a + 4"] r(4,5) by (simp add: add.commute)
  have l: "unat (p - (of_nat a + 4)) = unat p - (a + 4)"
    using p(1) h by (simp add: unat_sub word_le_nat_alt)
  have w: "m' (of_nat x) = (if a + 4 \<le> x \<and> x < unat p then 0 else mem s (of_nat x))" if "x < 2 ^ 32" for x
    unfolding m'_def using that p(1) unat_u32_less [of p] by (subst mem_set_nth) (simp_all add: h l)
  have "x \<in> payload bs" if "a + 4 \<le> x" "x < unat p" for x
    using a p(2) that unfolding payload_def by fastforce
  then have "agree_off (payload bs) (mem s) m'" by (auto simp: agree_off_def w)
  then show "heap_inv (set_mem s m') bs fl" by (rule payload_writes_keep [OF inv])
  show "handed_out m' a z (unat p)"
    using p unat_u32_less [of p] by (auto simp: handed_out_def w)
  show "agree_off {a ..< a + z} (mem s) m'" using p by (auto simp: agree_off_def w)
qed

lemma take_block_allocates:
  assumes inv: "heap_inv s bs fl" and a: "(a, n, False) \<in> set bs"
    and k: "even k" "16 \<le> k" "k \<le> n" and al: "0 < unat al"
    and req: "req + unat al + 7 \<le> k"
  shows "\<exists>p s'. take_block s (of_nat a) (of_nat k) al = Inr (p, s') \<and> p \<noteq> 0 \<and>
    allocated {} s bs req (unat al) p s' \<and> unallocated_mem s' = unallocated_mem s"
proof -
  obtain st where sh: "shape s st bs fl" using inv by (auto simp: heap_inv_def)
  note r = shape_block [OF sh a]
  let ?s1 = "carve_block s (of_nat a) (of_nat k)"
  obtain bs' fl' z where c: "heap_inv ?s1 bs' fl'" "(a, z, True) \<in> set bs'" "k \<le> z"
    "used_blocks bs' = insert (a, z) (used_blocks bs)" "\<forall>y. (a, y) \<notin> used_blocks bs"
    "free_region bs = free_region bs' \<union> {a ..< a + z}"
    "agree_off (free_region bs) (mem s) (mem ?s1)" "only_heap s ?s1"
    using carve_block_takes [OF inv a k] by blast
  have h: "unat (of_nat a + 4 :: u32) = a + 4"
    using unat_of_nat_u32 [of "a + 4"] r(4,5) by (simp add: add.commute)
  obtain p where p: "ceil_multiple (of_nat a + 4) al = Inr p" "a + 4 \<le> unat p"
    "unat p < a + 4 + unat al" "unat al dvd unat p"
    using ceil_multiple_value [of al "of_nat a + 4"] al r(4) k(3) req by (auto simp: h u32_pos)
  let ?m' = "mem_set (mem ?s1) (of_nat a + 4) 0 (p - (of_nat a + 4))"
  have pz: "unat p + req + 4 \<le> a + z" using p(3) req c(3) by linarith
  then have "unat p \<le> a + z - 4" by simp
  note pad = pad_block [OF c(1,2) p(2) this]
  have "agree_off (free_region bs) (mem ?s1) ?m'" using c(6) by (intro agree_off_mono [OF pad(3)]) auto
  from agree_off_trans [OF c(7) this]
  have "agree_off (free_region bs) (mem s) (mem (set_mem ?s1 ?m'))" by simp
  moreover have "{a ..< a + z} \<subseteq> free_region bs" "free_region bs' \<subseteq> free_region bs" using c(6) by auto
  moreover have um: "unallocated_mem (set_mem ?s1 ?m') = unallocated_mem s"
    using only_heap_fields(1) [OF c(8)] by simp
  moreover have "fresh_region s bs (set_mem ?s1 ?m') = free_region bs" unfolding fresh_region_def um by simp
  ultimately have "allocated {} s bs req (unat al) p (set_mem ?s1 ?m')"
    unfolding allocated_def mem_set_mem using pad(1,2) c(4,5) pz p(4)
    by (intro exI [of _ bs'] exI [of _ fl'] exI [of _ a] exI [of _ z]) simp
  moreover have "take_block s (of_nat a) (of_nat k) al = Inr (p, set_mem ?s1 ?m')"
    by (simp add: take_block_def Let_def p(1))
  moreover have "p \<noteq> 0" using p(2) by auto
  ultimately show ?thesis using um by blast
qed

text \<open>The size of the block that is looked for, when the sum does not wrap around.\<close>

lemma block_size_for_value:
  assumes al: "0 < unat al" and fits: "unat sz + unat al + 8 < 2 ^ 32"
  shows "\<exists>k. block_size_for sz al = Inr (of_nat k) \<and> k < 2 ^ 32 \<and> even k \<and> 16 \<le> k \<and>
    unat sz + unat al + 7 \<le> k \<and> k \<le> unat sz + unat al + 16"
proof -
  define c where "c = max (unat sz + unat al + 7) 16"
  have sum: "unat (4 + al - 1 + sz + 4) = unat sz + unat al + 7"
  proof -
    have "(4 + al - 1 + sz + 4 :: u32) = of_nat (unat sz + unat al + 7)" by simp
    then show ?thesis using fits by (simp only:) (simp del: of_nat_add)
  qed
  define w where "w = max_c (4 + al - 1 + sz + 4) (12 + 4)"
  have m: "unat w = c" unfolding w_def unat_max_c sum c_def by simp
  have "c + 2 \<le> 2 ^ 32" using fits by (simp add: c_def)
  then obtain r where r: "ceil_multiple w 2 = Inr r" "c \<le> unat r" "unat r < c + 2" "2 dvd unat r"
    using ceil_multiple_value [of 2 w] by (auto simp: m)
  have "block_size_for sz al = Inr r" using r(1) by (simp only: block_size_for_def w_def)
  then show ?thesis using r(2-4) al unat_u32_less [of r]
    by (intro exI [of _ "unat r"]) (auto simp: c_def)
qed

subsection \<open>Pages from the paging code\<close>

text \<open>
  The effect of the paging code on what the allocator uses: bytes change inside \<open>T\<close> only
  and the globals of the allocator keep their values.
\<close>

definition kept :: "nat set \<Rightarrow> 'z machine_scheme \<Rightarrow> 'z machine_scheme \<Rightarrow> bool" where
  "kept T s s' \<longleftrightarrow> agree_off T (mem s) (mem s') \<and>
     first_free_block s' = first_free_block s \<and> unallocated_mem s' = unallocated_mem s \<and>
     current_directory s' = current_directory s \<and> kernel_directory s' = kernel_directory s \<and>
     paging_enabled s' = paging_enabled s \<and> START_OF_HEAP s' = START_OF_HEAP s"

lemma kept_refl [simp]: "kept T s s"
  by (simp add: kept_def)

lemma kept_trans: "kept T s s' \<Longrightarrow> kept T s' s'' \<Longrightarrow> kept T s s''"
  by (auto simp: kept_def intro: agree_off_trans)

lemma heap_inv_kept:
  assumes inv: "heap_inv s bs fl" and k: "kept T s s'" and T: "T \<subseteq> payload bs"
  shows "heap_inv s' bs fl"
proof -
  have "heap_inv (set_mem s (mem s')) bs fl"
    using k T by (intro payload_writes_keep [OF inv]) (auto simp: kept_def intro: agree_off_mono)
  moreover have "START_OF_HEAP (set_mem s (mem s')) = START_OF_HEAP s" by (simp add: START_OF_HEAP_def)
  ultimately show ?thesis using k by (auto simp: heap_inv_def shape_def kept_def)
qed

subsection \<open>Growing a heap\<close>

text \<open>The block that the new pages form, before it is merged with the last one.\<close>

lemma insert_after_um:
  "insert_after (s\<lparr>unallocated_mem := x\<rparr>) c b = (insert_after s c b)\<lparr>unallocated_mem := x\<rparr>"
  by (simp add: insert_after_def Let_def)

lemma append_block:
  assumes inv: "heap_inv s bs fl" and n: "even n" "16 \<le> n" "unat (unallocated_mem s) + n < 2 ^ 32"
  defines "e \<equiv> unat (unallocated_mem s)"
  defines "m' \<equiv> set_block (mem s) (unallocated_mem s) (of_nat n) False"
  defines "s' \<equiv> (insert_after (set_mem s m') (unallocated_mem s) 0)
    \<lparr>unallocated_mem := unallocated_mem s + of_nat n\<rparr>"
  shows "\<exists>st. START_OF_HEAP s' = Inr st \<and> shape s' (unat st) (bs @ [(e, n, False)]) (e # fl)"
    "set (e # fl) = free_addrs (bs @ [(e, n, False)])"
    "agree_off (free_region (bs @ [(e, n, False)])) (mem s) (mem s')"
    "unallocated_mem s' = of_nat (e + n)" "START_OF_HEAP s' = START_OF_HEAP s"
proof -
  obtain st where st: "START_OF_HEAP s = Inr st" and sh: "shape s (unat st) bs fl"
    using inv by (auto simp: heap_inv_def)
  have fl: "set fl = free_addrs bs" using inv by (simp add: heap_inv_def)
  have um: "unallocated_mem s = of_nat e" by (simp add: e_def)
  have en: "e + n < 2 ^ 32" using n(3) by (simp add: e_def)
  note t = set_block_tile [OF n(1,2) en, of "mem s" False, folded um, folded m'_def]
  let ?s1 = "(set_mem s m')\<lparr>unallocated_mem := unallocated_mem s + of_nat n\<rparr>"
  let ?bs = "bs @ [(e, n, False)]"
  have bl: "blocks (mem s) (unat st) bs e" using sh by (simp add: shape_def e_def)
  have "blocks m' (unat st) bs e"
    using en by (intro blocks_frame [OF bl] agree_off_byte [OF t(2)]) auto
  then have "blocks m' (unat st) ?bs (e + n)" using t(1) by (auto simp: blocks_append)
  moreover have "dll m' 0 (first_free_block s) fl"
  proof (rule dll_frame [OF sh t(2)])
    fix x assume "x \<in> set fl"
    then obtain sx where sx: "(x, sx, False) \<in> set bs" using shape_node [OF sh] by blast
    show "{x + 4 ..< x + 12} \<inter> {e ..< e + n} = {}" using blocks_range [OF bl sx] by auto
  qed
  moreover have umn: "unallocated_mem s + of_nat n = of_nat (e + n)" by (simp add: um)
  then have "unat (unallocated_mem s + of_nat n) = e + n" using en by (simp del: of_nat_add)
  ultimately have s1: "shape ?s1 (unat st) ?bs fl" using sh fl by (auto simp: shape_def)
  have fr: "e \<in> free_addrs ?bs" "e \<notin> set fl"
    using blocks_range [OF bl] by (auto simp: fl) (fastforce simp: free_addrs_def)
  note s2 = insert_after_front [OF s1 fr]
  have s': "s' = insert_after ?s1 (of_nat e) 0" by (simp add: s'_def um insert_after_um)
  have oh: "only_heap ?s1 s'" unfolding s' by (rule s2(3))
  have "START_OF_HEAP ?s1 = START_OF_HEAP s" by (simp add: START_OF_HEAP_def)
  with only_heap_fields(2) [OF oh] show heap: "START_OF_HEAP s' = START_OF_HEAP s" by simp
  show "\<exists>st. START_OF_HEAP s' = Inr st \<and> shape s' (unat st) ?bs (e # fl)"
    using s2(1) heap st by (simp add: s')
  show "set (e # fl) = free_addrs ?bs" by (simp add: fl)
  have "{e ..< e + n} \<subseteq> free_region ?bs" by auto
  from agree_off_trans [OF agree_off_mono [OF t(2) this]] s2(2)
  show "agree_off (free_region ?bs) (mem s) (mem s')" by (simp add: s')
  show "unallocated_mem s' = of_nat (e + n)" using only_heap_fields(1) [OF oh] umn by simp
qed

lemma append_block_merges:
  assumes inv: "heap_inv s bs fl" and n: "even n" "16 \<le> n" "unat (unallocated_mem s) + n < 2 ^ 32"
  defines "e \<equiv> unat (unallocated_mem s)"
  defines "s' \<equiv> (insert_after (set_mem s (set_block (mem s) (unallocated_mem s) (of_nat n) False))
    (unallocated_mem s) 0)\<lparr>unallocated_mem := unallocated_mem s + of_nat n\<rparr>"
  shows "\<exists>r z s2 bs' fl'. merge s' (unallocated_mem s) = Inr (of_nat r, s2) \<and> heap_inv s2 bs' fl' \<and>
    (r, z, False) \<in> set bs' \<and> n + free_tail bs \<le> z \<and> used_blocks bs' = used_blocks bs \<and>
    free_region bs' = free_region bs \<union> {e ..< e + n} \<and> unallocated_mem s2 = of_nat (e + n) \<and>
    agree_off (free_region bs \<union> {e ..< e + n}) (mem s) (mem s2)"
proof -
  note a = append_block [OF inv n, folded s'_def e_def]
  obtain st where st: "START_OF_HEAP s' = Inr st" "shape s' (unat st) (bs @ (e, n, False) # []) (e # fl)"
    using a(1) by auto
  have co: "coalesced bs" "coalesced []" using inv by (auto simp: heap_inv_def coalesced_def)
  obtain r z s2 bs' fl' where m: "merge s' (of_nat e) = Inr (of_nat r, s2)" "shape s2 (unat st) bs' fl'"
    "set fl' = free_addrs bs'" "coalesced bs'" "used_blocks bs' = used_blocks (bs @ [(e, n, False)])"
    "free_region bs' = free_region (bs @ [(e, n, False)])" "(r, z, False) \<in> set bs'"
    "n + free_tail bs \<le> z" "agree_off (free_region (bs @ [(e, n, False)])) (mem s') (mem s2)" "only_heap s' s2"
    using merge_coalesces [OF st a(2) co] by blast
  have "heap_inv s2 bs' fl'"
    using m(2-4) st(1) only_heap_fields(2) [OF m(10)] by (auto simp: heap_inv_def)
  moreover have "agree_off (free_region bs \<union> {e ..< e + n}) (mem s) (mem s2)"
    using agree_off_trans [OF a(3) m(9)] by simp
  moreover have "unallocated_mem s2 = of_nat (e + n)" using only_heap_fields(1) [OF m(10)] a(4) by simp
  ultimately show ?thesis using m(1,5-8) unfolding e_def [symmetric]
    by (intro exI [of _ r] exI [of _ z] exI [of _ s2] exI [of _ bs'] exI [of _ fl']) (simp add: e_def)
qed

text \<open>
  What \<^verbatim>\<open>alloc_pages\<close> reads of the last block.  On a heap without blocks the code reads the
  header at address 0, which has to look like that of a used block.
\<close>

lemma last_block_reads:
  assumes inv: "heap_inv s bs fl" and empty: "bs = [] \<Longrightarrow> get_used (mem s) 0"
  shows "\<exists>lb. get_prev_block s (unallocated_mem s) = Inr lb \<and>
    (if get_used (mem s) lb then free_tail bs = 0 else get_size (mem s) lb = of_nat (free_tail bs))"
proof -
  obtain st where st: "START_OF_HEAP s = Inr st" and sh: "shape s (unat st) bs fl"
    using inv by (auto simp: heap_inv_def)
  show ?thesis
  proof (cases bs rule: rev_cases)
    case Nil
    then have "st = unallocated_mem s" "4 \<le> unat st" using sh by (auto simp: shape_def u32_eq_iff_unat)
    then show ?thesis using get_prev_block_first [OF st] empty Nil by (simp add: free_tail_def)
  next
    case (snoc pre x)
    obtain b z u where x: "x = (b, z, u)" by (cases x)
    have b: "(b, z, u) \<in> set bs" by (simp add: snoc x)
    have "of_nat (b + z) = unallocated_mem s"
      using sh by (auto simp: shape_def snoc x blocks_append simp del: of_nat_add)
    then have "get_prev_block s (unallocated_mem s) = Inr (of_nat b)"
      using get_prev_block_at [OF st sh b] by simp
    then show ?thesis using shape_block(7,8) [OF sh b]
      by (simp add: snoc x free_tail_def get_size_tag get_used_tag wordat_def)
  qed
qed

lemma free_tail_bound:
  assumes "\<And>a n. (a, n, False) \<in> set bs \<Longrightarrow> n < k" "0 < k"
  shows "free_tail bs < k"
  using assms by (cases bs rule: rev_cases) (auto simp: free_tail_def split: prod.split)

lemma pages_needed:
  assumes "f < k" "k < 2 ^ 32"
  shows "\<exists>nb. ceil_ratio (of_nat k - of_nat f) 0x1000 = Inr (of_nat nb) \<and> 0 < nb \<and>
    k \<le> f + 0x1000 * nb \<and> 0x1000 * nb < k - f + 0x1000 \<and> nb < 2 ^ 31"
proof -
  have d: "unat (of_nat k - of_nat f :: u32) = k - f"
    using assms by (metis less_imp_le_nat of_nat_diff less_imp_diff_less unat_of_nat_u32)
  obtain q where q: "ceil_ratio (of_nat k - of_nat f) 0x1000 = Inr q" "unat q = (k - f + 4095) div 4096"
    using ceil_ratio_unat [of "0x1000" "of_nat k - of_nat f"] by (auto simp: d)
  let ?nb = "(k - f + 4095) div 4096"
  have "q = of_nat ?nb" unfolding q(2) [symmetric] by simp
  moreover have "0 < ?nb" "k \<le> f + 0x1000 * ?nb" "0x1000 * ?nb < k - f + 0x1000"
    using assms by linarith+
  moreover have "?nb < 2 ^ 31" using assms by simp
  ultimately show ?thesis using q(1) by blast
qed

text \<open>When a free block is large enough, no page is needed.\<close>

lemma mem_alloc_aligned_hit:
  assumes inv: "heap_inv s bs fl" and al: "0 < unat al"
    and k: "block_size_for sz al = Inr (of_nat k)" "k < 2 ^ 32" "even k" "16 \<le> k" "unat sz + unat al + 7 \<le> k"
    and hit: "first_fit (mem s) (of_nat k) fl = Some a"
  shows "\<exists>p s'. mem_alloc_aligned P s sz al = Inr (p, s') \<and> p \<noteq> 0 \<and>
    allocated {} s bs (unat sz) (unat al) p s'"
proof -
  obtain n where n: "(a, n, False) \<in> set bs" "k \<le> n" "(of_nat a :: u32) \<noteq> 0"
    using first_fit_hit [OF inv hit k(2)] by blast
  from take_block_allocates [OF inv n(1) k(3,4) n(2) al k(5)] show ?thesis
    using k(1) find_block_heap [OF inv, of "of_nat k"] hit n(3) by (auto simp: mem_alloc_aligned_def)
qed

locale page_provider =
  fixes P :: "'z machine_scheme pager"
    and usable :: "'z machine_scheme \<Rightarrow> u32 \<Rightarrow> u32 \<Rightarrow> bool"
    and tables :: "'z machine_scheme \<Rightarrow> u32 \<Rightarrow> nat set"
  assumes request_kept:
    "usable s dir v \<Longrightarrow> \<exists>ok s'. request_virtual_space P s dir v kn wr = Inr (ok, s') \<and>
       kept (tables s dir) s s' \<and> usable s' dir = usable s dir \<and> tables s' dir = tables s dir"
    and free_kept:
    "usable s dir v \<Longrightarrow> \<exists>s'. free_virtual_space P s dir v fr = Inr s' \<and>
       kept (tables s dir) s s' \<and> usable s' dir = usable s dir \<and> tables s' dir = tables s dir"
begin

definition stable :: "u32 \<Rightarrow> 'z machine_scheme \<Rightarrow> 'z machine_scheme \<Rightarrow> bool" where
  "stable dir s s' \<longleftrightarrow> kept (tables s dir) s s' \<and> usable s' dir = usable s dir \<and> tables s' dir = tables s dir"

lemma stable_trans: "stable dir s s' \<Longrightarrow> stable dir s' s'' \<Longrightarrow> stable dir s s''"
  by (auto simp: stable_def intro: kept_trans)

lemma release_pages_stable:
  assumes "\<And>j. j < i \<Longrightarrow> usable s dir (e - 0x1000 * of_nat (Suc j))"
  shows "\<exists>s'. release_pages P s dir e i = Inr s' \<and> stable dir s s'"
  using assms
proof (induction i arbitrary: s e)
  case 0
  then show ?case by (simp add: stable_def)
next
  case (Suc i)
  obtain s1 where s1: "free_virtual_space P s dir (e - 0x1000) True = Inr s1" "stable dir s s1"
    using free_kept [of s dir "e - 0x1000" True] Suc.prems [of 0] by (auto simp: stable_def)
  have "\<exists>s'. release_pages P s1 dir (e - 0x1000) i = Inr s' \<and> stable dir s1 s'"
  proof (rule Suc.IH)
    fix j assume "j < i"
    then show "usable s1 dir (e - 0x1000 - 0x1000 * of_nat (Suc j))"
      using Suc.prems [of "Suc j"] s1(2) by (simp add: stable_def algebra_simps)
  qed
  then show ?case using s1 stable_trans by (auto simp: Let_def)
qed

lemma request_pages_stable:
  assumes "\<And>j. j < i + n \<Longrightarrow> usable s dir (v + 0x1000 * of_nat j)"
  shows "\<exists>ok s'. request_pages P s dir kn (v + 0x1000 * of_nat i) i n = Inr (ok, s') \<and> stable dir s s'"
  using assms
proof (induction n arbitrary: s i)
  case 0
  then show ?case by (auto simp: stable_def)
next
  case (Suc n)
  let ?e = "v + 0x1000 * of_nat i"
  obtain ok s1 where s1: "request_virtual_space P s dir ?e kn (\<not> kn) = Inr (ok, s1)" "stable dir s s1"
    using request_kept [of s dir ?e kn "\<not> kn"] Suc.prems [of i] by (auto simp: stable_def)
  have us: "usable s1 dir (v + 0x1000 * of_nat j)" if "j < i + Suc n" for j
    using Suc.prems [OF that] s1(2) by (simp add: stable_def)
  show ?case
  proof (cases ok)
    case True
    have "\<exists>ok s'. request_pages P s1 dir kn (v + 0x1000 * of_nat (Suc i)) (Suc i) n = Inr (ok, s') \<and> stable dir s1 s'"
      using us by (intro Suc.IH) simp
    then show ?thesis using s1 True stable_trans by (auto simp: algebra_simps)
  next
    case False
    have "\<exists>s'. release_pages P s1 dir ?e i = Inr s' \<and> stable dir s1 s'"
    proof (rule release_pages_stable)
      fix j assume "j < i"
      then have "(of_nat (i - Suc j) :: u32) = of_nat i - of_nat (Suc j)" by (subst of_nat_diff) auto
      then have "?e - 0x1000 * of_nat (Suc j) = v + 0x1000 * of_nat (i - Suc j)"
        by (simp only: right_diff_distrib) simp
      then show "usable s1 dir (?e - 0x1000 * of_nat (Suc j))" using us [of "i - Suc j"] \<open>j < i\<close> by (simp only:)
    qed
    then show ?thesis using s1 False stable_trans by auto
  qed
qed

lemma extend_heap_stable:
  assumes n: "0 < n" "n < 2 ^ 31"
    and us: "\<And>j. paging_enabled s \<Longrightarrow> j < n \<Longrightarrow> usable s dir (v + 0x1000 * of_nat j)"
  shows "\<exists>ok s'. extend_heap P s (of_nat n) dir v = Inr (ok, s') \<and>
    (if paging_enabled s then kept (tables s dir) s s' else s' = s)"
proof -
  have nz: "(of_nat n :: u32) \<noteq> 0" using n of_nat_u32_eq_iff [of n 0] by simp
  show ?thesis
  proof (cases "paging_enabled s")
    case True
    obtain ok s' where "request_pages P s dir (dir = kernel_directory s) v 0 n = Inr (ok, s')" "stable dir s s'"
      using request_pages_stable [of 0 n s dir v "dir = kernel_directory s"] us [OF True] by auto
    then show ?thesis using True nz n(2) by (simp add: extend_heap_def stable_def sint_of_nat_u32)
  next
    case False
    then show ?thesis using nz by (auto simp: extend_heap_def)
  qed
qed

text \<open>
  Growing the current heap by enough pages for a block of \<open>k\<close> bytes, in the kernel's
  directory or before paging is enabled.  The page tables are themselves allocated memory.
\<close>

lemma alloc_pages_grows:
  assumes inv: "heap_inv s bs fl" and empty: "bs = [] \<Longrightarrow> get_used (mem s) 0"
    and dir: "paging_enabled s \<Longrightarrow> current_directory s = kernel_directory s"
    and small: "\<And>a n. (a, n, False) \<in> set bs \<Longrightarrow> n < k" and k: "16 \<le> k"
    and room: "unat (unallocated_mem s) + k + 0x1000 < 2 ^ 32"
    and us: "\<And>v. paging_enabled s \<Longrightarrow> unat (unallocated_mem s) \<le> unat v \<Longrightarrow>
      unat v < unat (unallocated_mem s) + k + 0x1000 \<Longrightarrow> usable s (current_directory s) v"
    and T: "paging_enabled s \<Longrightarrow> tables s (current_directory s) \<subseteq> payload bs"
  defines "T \<equiv> if paging_enabled s then tables s (current_directory s) else {}"
  shows "\<exists>b s'. alloc_pages P s (of_nat k) = Inr (b, s') \<and>
    unat (unallocated_mem s) \<le> unat (unallocated_mem s') \<and>
    agree_off (fresh_region s bs s' \<union> T) (mem s) (mem s') \<and>
    (b = 0 \<and> heap_inv s' bs fl \<or> (\<exists>r z bs' fl'. b = of_nat r \<and> heap_inv s' bs' fl' \<and>
       (r, z, False) \<in> set bs' \<and> k \<le> z \<and> used_blocks bs' = used_blocks bs \<and>
       free_region bs' \<subseteq> fresh_region s bs s'))"
proof -
  let ?f = "free_tail bs" and ?d = "current_directory s"
  obtain lb where lb: "get_prev_block s (unallocated_mem s) = Inr lb"
    "if get_used (mem s) lb then ?f = 0 else get_size (mem s) lb = of_nat ?f"
    using last_block_reads [OF inv empty] by blast
  have "?f < k" using free_tail_bound [of bs k] small k by simp
  moreover have "k < 2 ^ 32" using room by simp
  ultimately obtain nb where nb: "ceil_ratio (of_nat k - of_nat ?f) 0x1000 = Inr (of_nat nb)" "0 < nb"
    "k \<le> ?f + 0x1000 * nb" "0x1000 * nb < k - ?f + 0x1000" "nb < 2 ^ 31"
    using pages_needed by blast
  define n where "n = 0x1000 * nb"
  have page: "unat (unallocated_mem s + 0x1000 * of_nat j) = unat (unallocated_mem s) + 0x1000 * j" if "j < nb" for j
    using that nb(4) room unat_of_nat_u32 [of "unat (unallocated_mem s) + 0x1000 * j"] by simp
  have "\<exists>ok s1. extend_heap P s (of_nat nb) ?d (unallocated_mem s) = Inr (ok, s1) \<and>
    (if paging_enabled s then kept (tables s ?d) s s1 else s1 = s)"
    by (rule extend_heap_stable [OF nb(2,5)], rule us) (use page nb(4) in auto)
  then obtain ok s1 where ext: "extend_heap P s (of_nat nb) ?d (unallocated_mem s) = Inr (ok, s1)"
    "kept T s s1" by (auto simp: T_def split: if_splits)
  have inv1: "heap_inv s1 bs fl" using heap_inv_kept [OF inv ext(2)] T by (simp add: T_def)
  have um: "unallocated_mem s1 = unallocated_mem s" and off1: "agree_off T (mem s) (mem s1)"
    using ext(2) by (auto simp: kept_def)
  have n: "even n" "16 \<le> n" "unat (unallocated_mem s1) + n < 2 ^ 32"
    using nb(2,4) room by (auto simp: n_def um)
  have nw: "(0x1000 * of_nat nb :: u32) = of_nat n" by (simp add: n_def)
  have nb1: "(if \<not> get_used (mem s) lb then ceil_ratio (of_nat k - get_size (mem s) lb) 0x1000
      else ceil_ratio (of_nat k) 0x1000) = Inr (of_nat nb)"
    using lb(2) nb(1) by (auto split: if_splits)
  let ?s2 = "(insert_after (set_mem s1 (set_block (mem s1) (unallocated_mem s1) (of_nat n) False))
    (unallocated_mem s1) 0)\<lparr>unallocated_mem := unallocated_mem s1 + of_nat n\<rparr>"
  have um2: "unallocated_mem (insert_after s' c b) = unallocated_mem s'" for s' :: "'z machine_scheme" and c b
    by (simp add: insert_after_def Let_def)
  have ap: "alloc_pages P s (of_nat k) = (if ok then merge ?s2 (unallocated_mem s1) else Inr (0, s1))"
    unfolding alloc_pages_def using lb(1) nb1 ext(1) dir by (auto simp: Let_def um2 um nw)
  show ?thesis
  proof (cases ok)
    case False
    have "agree_off (fresh_region s bs s1 \<union> T) (mem s) (mem s1)" by (rule agree_off_mono [OF off1]) simp
    then show ?thesis using ap inv1 um False by auto
  next
    case True
    let ?e = "unat (unallocated_mem s)"
    obtain r z s2 bs' fl' where m: "merge ?s2 (unallocated_mem s1) = Inr (of_nat r, s2)" "heap_inv s2 bs' fl'"
      "(r, z, False) \<in> set bs'" "n + ?f \<le> z" "used_blocks bs' = used_blocks bs"
      "free_region bs' = free_region bs \<union> {?e ..< ?e + n}" "unallocated_mem s2 = of_nat (?e + n)"
      "agree_off (free_region bs \<union> {?e ..< ?e + n}) (mem s1) (mem s2)"
      using append_block_merges [OF inv1 n] unfolding um by blast
    have um2: "unat (unallocated_mem s2) = ?e + n"
      using m(7) n(3) um by (simp del: of_nat_add)
    then have fr: "fresh_region s bs s2 = free_region bs \<union> {?e ..< ?e + n}" by (simp add: fresh_region_def)
    have "agree_off (fresh_region s bs s2 \<union> T) (mem s) (mem s2)"
      using agree_off_trans [OF agree_off_mono [OF off1] agree_off_mono [OF m(8)]] unfolding fr by blast
    moreover have "k \<le> z" using m(4) nb(3) by (simp add: n_def)
    ultimately show ?thesis using ap True m(1-3,5,6) um2 fr
      by (intro exI [of _ "of_nat r"] exI [of _ s2] conjI disjI2 exI [of _ r] exI [of _ z]
          exI [of _ bs'] exI [of _ fl']) simp_all
  qed
qed

lemma mem_alloc_aligned_miss:
  assumes inv: "heap_inv s bs fl" and empty: "bs = [] \<Longrightarrow> get_used (mem s) 0"
    and dir: "paging_enabled s \<Longrightarrow> current_directory s = kernel_directory s" and al: "0 < unat al"
    and k: "block_size_for sz al = Inr (of_nat k)" "k < 2 ^ 32" "even k" "16 \<le> k" "unat sz + unat al + 7 \<le> k"
    and room: "unat (unallocated_mem s) + k + 0x1000 < 2 ^ 32"
    and us: "\<And>v. paging_enabled s \<Longrightarrow> unat (unallocated_mem s) \<le> unat v \<Longrightarrow>
      unat v < unat (unallocated_mem s) + k + 0x1000 \<Longrightarrow> usable s (current_directory s) v"
    and T: "paging_enabled s \<Longrightarrow> tables s (current_directory s) \<subseteq> payload bs"
    and miss: "first_fit (mem s) (of_nat k) fl = None"
  defines "T \<equiv> if paging_enabled s then tables s (current_directory s) else {}"
  shows "\<exists>p s'. mem_alloc_aligned P s sz al = Inr (p, s') \<and>
    (p = 0 \<and> heap_inv s' bs fl \<or> p \<noteq> 0 \<and> allocated T s bs (unat sz) (unat al) p s')"
proof -
  have small: "n < k" if "(a, n, False) \<in> set bs" for a n
    using first_fit_miss [OF inv miss k(2) that] .
  have "\<exists>b s1. alloc_pages P s (of_nat k) = Inr (b, s1) \<and>
    unat (unallocated_mem s) \<le> unat (unallocated_mem s1) \<and>
    agree_off (fresh_region s bs s1 \<union> T) (mem s) (mem s1) \<and>
    (b = 0 \<and> heap_inv s1 bs fl \<or> (\<exists>r z bs' fl'. b = of_nat r \<and> heap_inv s1 bs' fl' \<and>
       (r, z, False) \<in> set bs' \<and> k \<le> z \<and> used_blocks bs' = used_blocks bs \<and>
       free_region bs' \<subseteq> fresh_region s bs s1))"
    unfolding T_def by (rule alloc_pages_grows [OF inv]) (use empty dir small k(4) room us T in blast)+
  then obtain b s1 where g: "alloc_pages P s (of_nat k) = Inr (b, s1)"
    "unat (unallocated_mem s) \<le> unat (unallocated_mem s1)"
    "agree_off (fresh_region s bs s1 \<union> T) (mem s) (mem s1)"
    "b = 0 \<and> heap_inv s1 bs fl \<or> (\<exists>r z bs' fl'. b = of_nat r \<and> heap_inv s1 bs' fl' \<and>
       (r, z, False) \<in> set bs' \<and> k \<le> z \<and> used_blocks bs' = used_blocks bs \<and>
       free_region bs' \<subseteq> fresh_region s bs s1)"
    by blast
  have mal: "mem_alloc_aligned P s sz al = (if b = 0 then Inr (0, s1) else take_block s1 b (of_nat k) al)"
    using k(1) find_block_heap [OF inv, of "of_nat k"] miss g(1) by (simp add: mem_alloc_aligned_def)
  show ?thesis
  proof (cases "b = 0 \<and> heap_inv s1 bs fl")
    case True
    then show ?thesis using mal by simp
  next
    case False
    with g(4) obtain r z bs1 fl1 where r: "b = of_nat r" "heap_inv s1 bs1 fl1" "(r, z, False) \<in> set bs1"
      "k \<le> z" "used_blocks bs1 = used_blocks bs" "free_region bs1 \<subseteq> fresh_region s bs s1" by blast
    obtain st where "shape s1 st bs1 fl1" using r(2) by (auto simp: heap_inv_def)
    from shape_block(2,4) [OF this r(3)] have "b \<noteq> 0" using of_nat_u32_eq_iff [of r 0] r(1) by simp
    moreover obtain p s' where "take_block s1 (of_nat r) (of_nat k) al = Inr (p, s')" "p \<noteq> 0"
      "allocated {} s1 bs1 (unat sz) (unat al) p s'" "unallocated_mem s' = unallocated_mem s1"
      using take_block_allocates [OF r(2,3) k(3,4) r(4) al k(5)] by blast
    ultimately show ?thesis
      using mal r(1) allocated_mono [OF _ r(5) g(3) r(6) g(2)] by auto
  qed
qed

theorem mem_alloc_aligned_allocates:
  assumes inv: "heap_inv s bs fl" and empty: "bs = [] \<Longrightarrow> get_used (mem s) 0"
    and dir: "paging_enabled s \<Longrightarrow> current_directory s = kernel_directory s" and al: "0 < unat al"
    and room: "unat (unallocated_mem s) + unat sz + unat al + 0x1010 < 2 ^ 32"
    and us: "\<And>v. paging_enabled s \<Longrightarrow> unat (unallocated_mem s) \<le> unat v \<Longrightarrow>
      unat v < unat (unallocated_mem s) + unat sz + unat al + 0x1010 \<Longrightarrow> usable s (current_directory s) v"
    and T: "paging_enabled s \<Longrightarrow> tables s (current_directory s) \<subseteq> payload bs"
  shows "\<exists>p s'. mem_alloc_aligned P s sz al = Inr (p, s') \<and>
    (p = 0 \<and> heap_inv s' bs fl \<or> p \<noteq> 0 \<and>
     allocated (if paging_enabled s then tables s (current_directory s) else {}) s bs (unat sz) (unat al) p s')"
proof -
  have "unat sz + unat al + 8 < 2 ^ 32" using room by linarith
  from block_size_for_value [OF al this] obtain k where
    k: "block_size_for sz al = Inr (of_nat k)" "k < 2 ^ 32" "even k" "16 \<le> k" "unat sz + unat al + 7 \<le> k"
    and kb: "k \<le> unat sz + unat al + 16" by blast
  show ?thesis
  proof (cases "first_fit (mem s) (of_nat k) fl")
    case None
    show ?thesis
      by (rule mem_alloc_aligned_miss [OF inv _ _ al k _ _ _ None]) (use empty dir us T room kb in auto)
  next
    case (Some a)
    obtain p s' where "mem_alloc_aligned P s sz al = Inr (p, s')" "p \<noteq> 0"
      "allocated {} s bs (unat sz) (unat al) p s'"
      using mem_alloc_aligned_hit [OF inv al k Some] by blast
    then show ?thesis using allocated_more by blast
  qed
qed

end

end
