(* ===== verification/Malloc_Props.thy ===== *)
theory Malloc_Props
  imports Malloc_Alloc
begin

text \<open>
  The properties of the allocator, over the definitions of \<open>Malloc\<close>, and concrete heaps
  on which their hypotheses hold.
\<close>

subsection \<open>Concrete heaps\<close>

text \<open>
  A machine before paging is enabled, whose kernel ends at \<open>0x1000\<close>, and its heap of one
  page: one block, free or in use.
\<close>

definition bare_machine :: machine where
  "bare_machine = \<lparr>kmem = (\<lambda>_. 0), umem = (\<lambda>_ _. 0), first_free_block = 0, unallocated_mem = 0x2000,
     kernel_first_free_block = 0, kernel_unallocated_mem = 0, paging_enabled = False,
     current_directory = 0, kernel_directory = 0, base_directory = 0, ld_end = 0x1000,
     UPPER_MEMORY = 0x100000, START_OF_USER_HEAP = 0x80000000, cr0 = 0, cr3 = 0\<rparr>"

definition free_page_heap :: machine where
  "free_page_heap = (snd (malloc_new_state bare_machine 0x1000))\<lparr>first_free_block := 0x1000\<rparr>"

definition used_page_heap :: machine where
  "used_page_heap = set_mem bare_machine (set_block (mem bare_machine) 0x1000 0x1000 True)"

lemma start_bare: "ceil_multiple (0x1000 :: u32) 0x1000 = Inr 0x1000"
  by code_simp

lemma bare_fields [simp]:
  "unallocated_mem bare_machine = 0x2000" "first_free_block bare_machine = 0"
  "paging_enabled bare_machine = False" "UPPER_MEMORY bare_machine = 0x100000"
  "START_OF_HEAP bare_machine = Inr 0x1000"
  by (simp_all add: bare_machine_def START_OF_HEAP_def start_bare)

lemma used_page_heap_inv: "heap_inv used_page_heap [(0x1000, 0x1000, True)] []"
proof -
  have "blocks (set_block (mem bare_machine) (of_nat 0x1000) (of_nat 0x1000) True) 0x1000
      [(0x1000, 0x1000, True)] (0x1000 + 0x1000)"
    by (rule set_block_tile) simp_all
  moreover have "START_OF_HEAP used_page_heap = Inr 0x1000"
    by (simp add: used_page_heap_def START_OF_HEAP_def bare_machine_def start_bare)
  ultimately show ?thesis
    by (simp add: heap_inv_def shape_def used_page_heap_def coalesced_def)
qed

subsection \<open>A new heap\<close>

text \<open>
  The state that \<^verbatim>\<open>malloc_new_state\<close> sets up, with the two pointers it returns, is a heap of
  one free page, whatever the memory held before.
\<close>

lemma malloc_new_state_heap:
  assumes st: "START_OF_HEAP s = Inr start" and b: "4 \<le> unat start" "unat start + 0x1000 < 2 ^ 32"
    and new: "malloc_new_state s start = ((ffb, um), s')"
  shows "heap_inv (s'\<lparr>first_free_block := ffb, unallocated_mem := um\<rparr>)
    [(unat start, 0x1000, False)] [unat start]"
proof -
  define a where "a = unat start"
  have start: "start = of_nat a" by (simp add: a_def)
  have b: "4 \<le> a" "a + 0x1000 < 2 ^ 32" using b by (simp_all add: a_def)
  let ?m = "set_block (mem s) start 0x1000 False"
  let ?m' = "set_next (set_prev ?m start 0) start 0"
  have n: "ffb = start" "um = start + 0x1000" "s' = set_mem s ?m'"
    using new by (auto simp: malloc_new_state_def Let_def)
  have t: "blocks ?m a [(a, 0x1000, False)] (a + 0x1000)"
    using set_block_tile(1) [of "0x1000" a "mem s" False] b by (simp add: start)
  have "agree_off {a + 4 ..< a + 12} ?m (set_prev ?m start 0)"
    "agree_off {a + 4 ..< a + 12} (set_prev ?m start 0) ?m'"
    unfolding start using b by (intro byte_links_off; simp)+
  from agree_off_trans [OF this] have off: "agree_off {a + 4 ..< a + 12} ?m ?m'" .
  have "wordat ?m' x = wordat ?m x" if "x + 4 \<le> a + 4 \<or> a + 12 \<le> x" "x + 4 < 2 ^ 32" for x
    using that by (intro agree_off_word [OF off]) auto
  then have "blocks ?m' a [(a, 0x1000, False)] (a + 0x1000)"
    using b by (intro blocks_cong [OF t]) simp
  moreover have "wordat ?m' (a + 4) = 0" "wordat ?m' (a + 8) = 0"
    unfolding start using b by (simp_all add: word_set_next_same word_set_prev_same word_set_next_other)
  moreover have "unat (start + 0x1000) = a + 0x1000"
    using b unat_of_nat_u32 [of "a + 0x1000"] by (simp add: start)
  moreover have "START_OF_HEAP (s'\<lparr>first_free_block := ffb, unallocated_mem := um\<rparr>) = Inr start"
    using st by (simp add: n START_OF_HEAP_def split: if_splits)
  ultimately show ?thesis
    using b start unfolding a_def [symmetric] by (simp add: heap_inv_def shape_def n coalesced_def)
qed

lemma free_page_heap_inv: "heap_inv free_page_heap [(0x1000, 0x1000, False)] [0x1000]"
proof -
  obtain ffb um s' where new: "malloc_new_state bare_machine 0x1000 = ((ffb, um), s')"
    by (metis prod.exhaust)
  have "ffb = 0x1000" "um = 0x2000" "free_page_heap = s'\<lparr>first_free_block := ffb, unallocated_mem := um\<rparr>"
    using new by (auto simp: malloc_new_state_def Let_def free_page_heap_def)
  then show ?thesis using malloc_new_state_heap [OF _ _ _ new] by simp
qed

lemma free_page_heap_fields [simp]:
  "unallocated_mem free_page_heap = 0x2000" "paging_enabled free_page_heap = False"
  by (simp_all add: free_page_heap_def malloc_new_state_def Let_def)

subsection \<open>Properties\<close>

lemma boot_provider: "page_provider P (\<lambda>_ _ _. False) T"
  by unfold_locales simp_all



text \<open>
  C2: \<^verbatim>\<open>mem_free\<close> of an address that belongs to a used block finds the header of that block
  (the search ends), exactly that block leaves the set of blocks in use, the heap is well
  formed and coalesced again, and no byte of another block in use changes.
\<close>

theorem mem_free_correct:
  assumes "heap_inv s bs fl" "(b, sz, True) \<in> set bs" "handed_out (mem s) b sz (unat p)"
  shows "\<exists>s' bs' fl'. mem_free s p = Inr s' \<and> heap_inv s' bs' fl' \<and>
    used_blocks bs' = used_blocks bs - {(b, sz)} \<and> free_region bs' = free_region bs \<union> {b ..< b + sz} \<and>
    agree_off (free_region bs \<union> {b ..< b + sz}) (mem s) (mem s')"
  using mem_free_releases [OF assms] by blast

theorem mem_free_correct_witness:
  "\<exists>s' bs' fl'. mem_free used_page_heap 0x1004 = Inr s' \<and> heap_inv s' bs' fl' \<and>
    used_blocks bs' = {} \<and> free_region bs' = {0x1000 ..< 0x2000} \<and>
    agree_off {0x1000 ..< 0x2000} (mem used_page_heap) (mem s')"
proof -
  have "handed_out (mem used_page_heap) 0x1000 0x1000 (unat (0x1004 :: u32))"
    by (simp add: handed_out_def)
  from mem_free_correct [OF used_page_heap_inv _ this] show ?thesis by simp
qed


text \<open>The smallest allocation from a page, for the witness: what is left is one free block.\<close>

lemma free_page_hit:
  "\<exists>p s'. mem_alloc_aligned P free_page_heap 100 8 = Inr (p, s') \<and>
     allocated {} free_page_heap [(0x1000, 0x1000, False)] 100 8 p s'"
proof -
  obtain st where sh: "shape free_page_heap st [(0x1000, 0x1000, False)] [0x1000]"
    using free_page_heap_inv by (auto simp: heap_inv_def)
  have "get_size (mem free_page_heap) 0x1000 = 0x1000"
    using shape_block(7) [OF sh, of "0x1000" "0x1000" False] by (simp add: get_size_tag wordat_def)
  then have "first_fit (mem free_page_heap) (of_nat 116) [0x1000] = Some 0x1000"
    by (simp add: first_fit_def)
  moreover have "block_size_for 100 8 = Inr (of_nat 116)" by code_simp
  ultimately show ?thesis
    using mem_alloc_aligned_hit [OF free_page_heap_inv, of 8 100 116] by fastforce
qed


text \<open>
  C16: the walk of \<^verbatim>\<open>mem_alloc_aligned\<close> along the free list of a well-formed heap ends, at the
  first block of the list that is large enough, or at \<^verbatim>\<open>NULL\<close> when there is none.
\<close>

theorem find_block_is_first_fit:
  assumes "heap_inv s bs fl"
  shows "find_block (mem s) (first_free_block s) k =
    Some (case find (\<lambda>a. k \<le> get_size (mem s) (of_nat a)) fl of None \<Rightarrow> 0 | Some a \<Rightarrow> of_nat a)"
  using find_block_heap [OF assms] by (simp add: first_fit_def)

theorem find_block_is_first_fit_witness:
  "find_block (mem free_page_heap) (first_free_block free_page_heap) 5000 =
    Some (case find (\<lambda>a. 5000 \<le> get_size (mem free_page_heap) (of_nat a)) [0x1000] of
      None \<Rightarrow> 0 | Some a \<Rightarrow> of_nat a)"
  by (rule find_block_is_first_fit [OF free_page_heap_inv])





end
