(* ===== verification/Bitset.thy ===== *)
theory Bitset
  imports Malloc
begin

text \<open>
  \<^verbatim>\<open>bitset.c\<close>: arrays of bits packed in 32-bit words.  The frames of physical memory and
  the bitmaps of the file system are such arrays.  The interface that the paging code and
  the file system rely on is the locale \<open>bit_array\<close>; it is interpreted on the functions of
  the file at the end.
\<close>

record bitset =
  bits_length :: u32
  bits_addr :: u32

subsection \<open>Operations\<close>

definition INDEX_FROM_BIT :: "u32 \<Rightarrow> u32" where "INDEX_FROM_BIT b = b div 32"
definition OFFSET_FROM_BIT :: "u32 \<Rightarrow> u32" where "OFFSET_FROM_BIT b = b mod 32"

definition bits_at :: "memory \<Rightarrow> bitset \<Rightarrow> u32 \<Rightarrow> u32" where
  "bits_at m b i = load32 m (bits_addr b + 4 * i)"

definition empty_bitset ::
  "'z machine_scheme pager \<Rightarrow> 'z machine_scheme \<Rightarrow> u32 \<Rightarrow> (bitset \<times> 'z machine_scheme) result"
where
  "empty_bitset P s len =
     bindE (ceil_multiple len 32) (\<lambda>len.
     bindE (mem_alloc P s (len div 8)) (\<lambda>(p, s).
       Inr (\<lparr>bits_length = len, bits_addr = p\<rparr>, set_mem s (mem_set (mem s) p 0 (len div 8)))))"

definition set_bit_c :: "memory \<Rightarrow> bitset \<Rightarrow> u32 \<Rightarrow> bool \<Rightarrow> memory" where
  "set_bit_c m b k v =
     store32 m (bits_addr b + 4 * INDEX_FROM_BIT k)
       ((bits_at m b (INDEX_FROM_BIT k) AND NOT (push_bit (unat (OFFSET_FROM_BIT k)) 1))
        OR push_bit (unat (OFFSET_FROM_BIT k)) (if v then 1 else 0))"

definition get_bit :: "memory \<Rightarrow> bitset \<Rightarrow> u32 \<Rightarrow> bool" where
  "get_bit m b k = (bits_at m b (INDEX_FROM_BIT k) AND push_bit (unat (OFFSET_FROM_BIT k)) 1 \<noteq> 0)"

text \<open>The inner loop: the first clear bit of \<open>w\<close> among the \<open>n\<close> bits from \<open>j\<close> on.\<close>

fun clear_bit_from :: "u32 \<Rightarrow> nat \<Rightarrow> nat \<Rightarrow> nat option" where
  "clear_bit_from w j 0 = None"
| "clear_bit_from w j (Suc n) =
     (if w AND push_bit j 1 = 0 then Some j else clear_bit_from w (Suc j) n)"

fun first_false_loop :: "memory \<Rightarrow> bitset \<Rightarrow> u32 \<Rightarrow> nat \<Rightarrow> u32" where
  "first_false_loop m b i 0 = - 1"
| "first_false_loop m b i (Suc n) =
     (if bits_at m b i \<noteq> 0xFFFFFFFF then
        (case clear_bit_from (bits_at m b i) 0 32 of
           Some j \<Rightarrow> 32 * i + of_nat j
         | None \<Rightarrow> first_false_loop m b (i + 1) n)
      else first_false_loop m b (i + 1) n)"

definition first_false_bit :: "memory \<Rightarrow> bitset \<Rightarrow> u32" where
  "first_false_bit m b = first_false_loop m b 0 (unat (INDEX_FROM_BIT (bits_length b)))"

text \<open>
  In \<^verbatim>\<open>param_ffb\<close> the offset \<open>j\<close> goes back to 0 only after a word that was searched, not
  after a word that was skipped because it is full.
\<close>

fun param_ffb_loop :: "memory \<Rightarrow> bitset \<Rightarrow> u32 \<Rightarrow> nat \<Rightarrow> nat \<Rightarrow> u32" where
  "param_ffb_loop m b i j 0 = - 1"
| "param_ffb_loop m b i j (Suc n) =
     (if bits_at m b i \<noteq> 0xFFFFFFFF then
        (case clear_bit_from (bits_at m b i) j (32 - j) of
           Some j \<Rightarrow> 32 * i + of_nat j
         | None \<Rightarrow> param_ffb_loop m b (i + 1) 0 n)
      else param_ffb_loop m b (i + 1) j n)"

definition param_ffb :: "memory \<Rightarrow> bitset \<Rightarrow> u32 \<Rightarrow> u32" where
  "param_ffb m b first =
     param_ffb_loop m b (first div 32) (unat (OFFSET_FROM_BIT first))
       (unat (INDEX_FROM_BIT (bits_length b)) - unat (first div 32))"

subsection \<open>Bits as an array of truth values\<close>

definition wf_bitset :: "bitset \<Rightarrow> bool" where
  "wf_bitset b \<longleftrightarrow> 32 dvd unat (bits_length b) \<and>
     unat (bits_addr b) + unat (bits_length b) div 8 \<le> 2 ^ 32"

lemma mask_bit: "(w :: u32) AND push_bit j 1 = 0 \<longleftrightarrow> \<not> (j < 32 \<and> bit w j)"
proof
  assume z: "w AND push_bit j 1 = 0"
  show "\<not> (j < 32 \<and> bit w j)"
  proof
    assume "j < 32 \<and> bit w j"
    then have "bit (w AND push_bit j 1) j" by (simp add: bit_simps)
    then show False using z by simp
  qed
next
  assume "\<not> (j < 32 \<and> bit w j)"
  then show "w AND push_bit j 1 = 0" by (intro bit_word_eqI) (auto simp: bit_simps)
qed

lemma offset_bound: "unat (OFFSET_FROM_BIT k) = unat k mod 32" "unat k mod 32 < 32"
  by (simp_all add: OFFSET_FROM_BIT_def unat_mod)

lemma index_nat: "unat (INDEX_FROM_BIT k) = unat k div 32"
  by (simp add: INDEX_FROM_BIT_def unat_div)

lemma get_bit_iff: "get_bit m b k \<longleftrightarrow> bit (bits_at m b (INDEX_FROM_BIT k)) (unat k mod 32)"
  unfolding get_bit_def mask_bit offset_bound(1) using offset_bound(2) by simp

lemma index_of_nat: "INDEX_FROM_BIT k = of_nat (unat k div 32)"
  unfolding index_nat [symmetric] by simp

lemma bits_addr_nat:
  assumes "wf_bitset b" "i < unat (bits_length b) div 32"
  shows "bits_addr b + 4 * of_nat i = of_nat (unat (bits_addr b) + 4 * i)"
    "unat (bits_addr b) + 4 * i + 4 \<le> 2 ^ 32"
    "unat (bits_addr b) + 4 * i + 4 \<le> unat (bits_addr b) + unat (bits_length b) div 8"
  using assms by (auto simp: wf_bitset_def)

text \<open>What one \<^verbatim>\<open>set_bit\<close> does to every word of the array, and to the bytes around it.\<close>

lemma bits_at_set_bit:
  assumes b: "wf_bitset b" and k: "unat k < unat (bits_length b)" and i: "i < unat (bits_length b) div 32"
  shows "bits_at (set_bit_c m b k v) b (of_nat i) =
    (if i = unat k div 32 then (bits_at m b (of_nat i) AND NOT (push_bit (unat k mod 32) 1))
        OR push_bit (unat k mod 32) (if v then 1 else 0)
     else bits_at m b (of_nat i))"
proof -
  let ?q = "unat k div 32"
  have q: "?q < unat (bits_length b) div 32" using k b by (auto simp: wf_bitset_def elim!: dvdE)
  note aq = bits_addr_nat [OF b q] and ai = bits_addr_nat [OF b i]
  show ?thesis
  proof (cases "i = ?q")
    case True
    then show ?thesis by (simp add: set_bit_c_def bits_at_def index_of_nat offset_bound)
  next
    case False
    then have "unat (bits_addr b) + 4 * i + 4 \<le> unat (bits_addr b) + 4 * ?q \<or>
        unat (bits_addr b) + 4 * ?q + 4 \<le> unat (bits_addr b) + 4 * i" by linarith
    then show ?thesis using False aq(2) ai(2)
      unfolding set_bit_c_def bits_at_def index_of_nat aq(1) ai(1) by (simp add: load32_store32_other del: of_nat_add of_nat_mult)
  qed
qed

lemma get_set_bit:
  assumes b: "wf_bitset b" and k: "unat k < unat (bits_length b)" "unat k' < unat (bits_length b)"
  shows "get_bit (set_bit_c m b k v) b k' = (if k' = k then v else get_bit m b k')"
proof -
  let ?i = "unat k' div 32"
  have i: "?i < unat (bits_length b) div 32" using k(2) b by (auto simp: wf_bitset_def elim!: dvdE)
  have eq: "k' = k \<longleftrightarrow> ?i = unat k div 32 \<and> unat k' mod 32 = unat k mod 32"
    by (metis u32_eq_iff_unat div_mult_mod_eq)
  show ?thesis
    unfolding get_bit_iff index_of_nat bits_at_set_bit [OF b k(1) i]
    using eq by (auto simp: bit_simps split: if_splits)
qed

lemma set_bit_elsewhere:
  assumes b: "wf_bitset b" and k: "unat k < unat (bits_length b)"
    and x: "x < 2 ^ 32" "x < unat (bits_addr b) \<or> unat (bits_addr b) + unat (bits_length b) div 8 \<le> x"
  shows "set_bit_c m b k v (of_nat x) = m (of_nat x)"
proof -
  let ?q = "unat k div 32"
  have q: "?q < unat (bits_length b) div 32" using k b by (auto simp: wf_bitset_def elim!: dvdE)
  note aq = bits_addr_nat [OF b q]
  show ?thesis unfolding set_bit_c_def index_of_nat aq(1)
    using aq(2,3) x by (intro store32_outside) auto
qed

subsection \<open>The first clear bit\<close>

lemma clear_bit_from_spec:
  assumes "j + n \<le> 32"
  shows "case clear_bit_from w j n of
      None \<Rightarrow> \<forall>i. j \<le> i \<and> i < j + n \<longrightarrow> bit w i
    | Some k \<Rightarrow> j \<le> k \<and> k < j + n \<and> \<not> bit w k \<and> (\<forall>i. j \<le> i \<and> i < k \<longrightarrow> bit w i)"
  using assms
proof (induction n arbitrary: j)
  case (Suc n)
  have j: "w AND push_bit j 1 = 0 \<longleftrightarrow> \<not> bit w j" using Suc.prems by (simp only: mask_bit) simp
  show ?case
  proof (cases "bit w j")
    case True
    have IH: "case clear_bit_from w (Suc j) n of
        None \<Rightarrow> \<forall>i. Suc j \<le> i \<and> i < Suc j + n \<longrightarrow> bit w i
      | Some k \<Rightarrow> Suc j \<le> k \<and> k < Suc j + n \<and> \<not> bit w k \<and> (\<forall>i. Suc j \<le> i \<and> i < k \<longrightarrow> bit w i)"
      using Suc.prems by (intro Suc.IH) simp
    have "clear_bit_from w j (Suc n) = clear_bit_from w (Suc j) n"
      using True j by (simp del: push_bit_of_1)
    then show ?thesis using IH True
      by (auto split: option.splits) (metis Suc_leI le_neq_implies_less)+
  next
    case False
    then show ?thesis using j by (auto simp del: push_bit_of_1)
  qed
qed auto

text \<open>The bit number \<open>x\<close>, a natural number, of the array.\<close>

definition bit_nr :: "memory \<Rightarrow> bitset \<Rightarrow> nat \<Rightarrow> bool" where
  "bit_nr m b x = bit (bits_at m b (of_nat (x div 32))) (x mod 32)"

lemma get_bit_nr: "get_bit m b k = bit_nr m b (unat k)"
  by (simp add: get_bit_iff bit_nr_def index_of_nat)

lemma full_word: "bits_at m b (of_nat i) = 0xFFFFFFFF \<Longrightarrow> x div 32 = i \<Longrightarrow> bit_nr m b x"
proof -
  assume "bits_at m b (of_nat i) = 0xFFFFFFFF" "x div 32 = i"
  moreover have "(0xFFFFFFFF :: u32) = - 1" by simp
  ultimately show ?thesis by (simp add: bit_nr_def)
qed

definition first_clear_in :: "memory \<Rightarrow> bitset \<Rightarrow> nat \<Rightarrow> nat \<Rightarrow> u32 \<Rightarrow> bool" where
  "first_clear_in m b lo hi r \<longleftrightarrow>
     (r = - 1 \<and> (\<forall>x. lo \<le> x \<and> x < hi \<longrightarrow> bit_nr m b x)) \<or>
     (\<exists>x. r = of_nat x \<and> lo \<le> x \<and> x < hi \<and> \<not> bit_nr m b x \<and> (\<forall>y. lo \<le> y \<and> y < x \<longrightarrow> bit_nr m b y))"

lemma first_clear_in_extend:
  assumes "first_clear_in m b mid hi r" "\<And>x. lo \<le> x \<Longrightarrow> x < mid \<Longrightarrow> bit_nr m b x" "lo \<le> mid"
  shows "first_clear_in m b lo hi r"
proof -
  have low: "bit_nr m b x" if "lo \<le> x" "\<not> mid \<le> x" for x using assms(2) that by simp
  from assms(1) show ?thesis unfolding first_clear_in_def
  proof (elim disjE exE conjE)
    assume "r = - 1" "\<forall>x. mid \<le> x \<and> x < hi \<longrightarrow> bit_nr m b x"
    then show "r = - 1 \<and> (\<forall>x. lo \<le> x \<and> x < hi \<longrightarrow> bit_nr m b x) \<or> (\<exists>x. r = of_nat x \<and> lo \<le> x \<and> x < hi \<and>
      \<not> bit_nr m b x \<and> (\<forall>y. lo \<le> y \<and> y < x \<longrightarrow> bit_nr m b y))" using low by blast
  next
    fix x assume "r = of_nat x" "mid \<le> x" "x < hi" "\<not> bit_nr m b x" "\<forall>y. mid \<le> y \<and> y < x \<longrightarrow> bit_nr m b y"
    then show "r = - 1 \<and> (\<forall>x. lo \<le> x \<and> x < hi \<longrightarrow> bit_nr m b x) \<or> (\<exists>x. r = of_nat x \<and> lo \<le> x \<and> x < hi \<and>
      \<not> bit_nr m b x \<and> (\<forall>y. lo \<le> y \<and> y < x \<longrightarrow> bit_nr m b y))" using low assms(3) le_trans by blast
  qed
qed

lemma in_word: "32 * i \<le> x \<Longrightarrow> x < 32 * Suc i \<Longrightarrow> x div 32 = i \<and> x = 32 * i + x mod 32"
  for x i :: nat
proof -
  assume x: "32 * i \<le> x" "x < 32 * Suc i"
  then have "x div 32 = i" by (intro div_nat_eqI) (simp_all add: mult.commute)
  then show ?thesis using mult_div_mod_eq [of 32 x] by simp
qed

lemma first_false_loop_spec:
  "first_clear_in m b (32 * i) (32 * (i + n)) (first_false_loop m b (of_nat i) n)"
proof (induction n arbitrary: i)
  case 0
  then show ?case by (auto simp: first_clear_in_def)
next
  case (Suc n)
  let ?w = "bits_at m b (of_nat i)"
  have next_i: "(of_nat i + 1 :: u32) = of_nat (Suc i)" by simp
  have "first_clear_in m b (32 * Suc i) (32 * (i + Suc n)) (first_false_loop m b (of_nat (Suc i)) n)"
    using Suc.IH [of "Suc i"] by (simp only: add_Suc add_Suc_right)
  then have skip: "first_clear_in m b (32 * i) (32 * (i + Suc n)) (first_false_loop m b (of_nat i + 1) n)"
    if "\<And>x. 32 * i \<le> x \<Longrightarrow> x < 32 * Suc i \<Longrightarrow> bit_nr m b x"
    unfolding next_i by (rule first_clear_in_extend [OF _ that]) simp_all
  show ?case
  proof (cases "?w = 0xFFFFFFFF")
    case True
    then have "first_clear_in m b (32 * i) (32 * (i + Suc n)) (first_false_loop m b (of_nat i + 1) n)"
      using in_word by (intro skip full_word) blast+
    then show ?thesis using True by simp
  next
    case False
    note c = clear_bit_from_spec [of 0 32 ?w]
    show ?thesis
    proof (cases "clear_bit_from ?w 0 32")
      case None
      then have "bit_nr m b x" if "32 * i \<le> x" "x < 32 * Suc i" for x
        using c in_word [OF that] by (simp add: bit_nr_def)
      then show ?thesis using skip None False by simp
    next
      case (Some j)
      then have j: "j < 32" "\<not> bit ?w j" "\<And>i. i < j \<Longrightarrow> bit ?w i" using c by auto
      have "bit_nr m b y" if "32 * i \<le> y" "y < 32 * i + j" for y
        using j(1,3) in_word [of i y] that by (auto simp: bit_nr_def)
      moreover have "\<not> bit_nr m b (32 * i + j)" using j by (simp add: bit_nr_def)
      ultimately show ?thesis using Some False j(1)
        by (auto simp: first_clear_in_def intro!: disjI2 exI [of _ "32 * i + j"])
    qed
  qed
qed

lemma first_false_bit_spec:
  assumes "wf_bitset b"
  shows "first_clear_in m b 0 (unat (bits_length b)) (first_false_bit m b)"
proof -
  have "32 * (unat (bits_length b) div 32) = unat (bits_length b)"
    using assms by (simp add: wf_bitset_def)
  then show ?thesis using first_false_loop_spec [of m b 0 "unat (bits_length b) div 32"]
    by (simp add: first_false_bit_def index_nat)
qed

lemma param_ffb_loop_0: "param_ffb_loop m b i 0 n = first_false_loop m b i n"
  by (induction n arbitrary: i) (auto split: option.splits)

lemma param_ffb_aligned:
  assumes "wf_bitset b" "32 dvd unat first" "unat first \<le> unat (bits_length b)"
  shows "first_clear_in m b (unat first) (unat (bits_length b)) (param_ffb m b first)"
proof -
  obtain i n where i: "unat first = 32 * i" and n: "unat (bits_length b) = 32 * (i + n)"
  proof -
    obtain i l where "unat first = 32 * i" "unat (bits_length b) = 32 * l"
      using assms by (auto simp: wf_bitset_def elim!: dvdE)
    then show ?thesis using assms(3) that [of i "l - i"] by simp
  qed
  have "unat (of_nat i :: u32) = i" using i unat_u32_less [of first] by (intro unat_of_nat_u32) simp
  then have "param_ffb m b first = first_false_loop m b (of_nat i) n"
    using index_of_nat [of first] by (simp add: param_ffb_def offset_bound index_nat unat_div i n
        param_ffb_loop_0 INDEX_FROM_BIT_def)
  then show ?thesis using first_false_loop_spec [of m b i n] i n by simp
qed

subsection \<open>The interface for users of bit arrays\<close>

locale bit_array =
  fixes good :: "'b \<Rightarrow> bool" and bits :: "'b \<Rightarrow> nat"
    and get :: "memory \<Rightarrow> 'b \<Rightarrow> u32 \<Rightarrow> bool"
    and put :: "memory \<Rightarrow> 'b \<Rightarrow> u32 \<Rightarrow> bool \<Rightarrow> memory"
    and first_clear :: "memory \<Rightarrow> 'b \<Rightarrow> u32"
  assumes bits_bound: "good b \<Longrightarrow> bits b < 2 ^ 32 - 1"
    and get_put: "good b \<Longrightarrow> unat k < bits b \<Longrightarrow> unat k' < bits b \<Longrightarrow>
      get (put m b k v) b k' = (if k' = k then v else get m b k')"
    and first_clear_none: "good b \<Longrightarrow> first_clear m b = - 1 \<Longrightarrow> unat k < bits b \<Longrightarrow> get m b k"
    and first_clear_some: "good b \<Longrightarrow> first_clear m b \<noteq> - 1 \<Longrightarrow>
      unat (first_clear m b) < bits b \<and> \<not> get m b (first_clear m b) \<and>
      (\<forall>k. unat k < unat (first_clear m b) \<longrightarrow> get m b k)"
begin

definition clear :: "memory \<Rightarrow> 'b \<Rightarrow> u32 set" where
  "clear m b = {k. unat k < bits b \<and> \<not> get m b k}"

lemma finite_clear [simp]: "finite (clear m b)"
  by simp

lemma clear_put:
  "good b \<Longrightarrow> unat k < bits b \<Longrightarrow>
     clear (put m b k v) b = (if v then clear m b - {k} else insert k (clear m b))"
  by (auto simp: clear_def get_put split: if_splits)

lemma first_clear_iff: "good b \<Longrightarrow> first_clear m b = - 1 \<longleftrightarrow> clear m b = {}"
  using first_clear_none [of b m] first_clear_some [of b m] by (auto simp: clear_def)

text \<open>Taking the first clear bit: a fresh number every time, and one less is left.\<close>

lemma take_first:
  assumes b: "good b" and r: "first_clear m b = r" "r \<noteq> - 1"
  shows "r \<in> clear m b" "clear (put m b r True) b = clear m b - {r}"
    "card (clear m b) = Suc (card (clear (put m b r True) b))"
    "\<And>k. k \<in> clear m b \<Longrightarrow> unat r \<le> unat k"
proof -
  have s: "unat r < bits b" "\<not> get m b r" "\<And>k. unat k < unat r \<Longrightarrow> get m b k"
    using first_clear_some [OF b, of m] r by auto
  show r: "r \<in> clear m b" using s by (simp add: clear_def)
  show c: "clear (put m b r True) b = clear m b - {r}" using clear_put [OF b s(1)] by simp
  show "card (clear m b) = Suc (card (clear (put m b r True) b))"
    unfolding c by (rule card_Suc_Diff1 [symmetric]) (simp_all add: r)
  show "unat r \<le> unat k" if "k \<in> clear m b" for k using s(3) [of k] that by (force simp: clear_def)
qed

lemma put_back:
  "good b \<Longrightarrow> unat k < bits b \<Longrightarrow> k \<in> clear m b \<Longrightarrow> clear (put (put m b k True) b k False) b = clear m b"
  by (auto simp: clear_put)

end

lemma first_clear_in_cases:
  assumes "wf_bitset b" "first_clear_in m b 0 (unat (bits_length b)) r"
  shows "r = - 1 \<Longrightarrow> unat k < unat (bits_length b) \<Longrightarrow> get_bit m b k"
    "r \<noteq> - 1 \<Longrightarrow> unat r < unat (bits_length b) \<and> \<not> get_bit m b r \<and>
       (\<forall>k. unat k < unat r \<longrightarrow> get_bit m b k)"
proof -
  have lt: "unat (bits_length b) < 2 ^ 32 - 1"
    using assms(1) unat_u32_less [of "bits_length b"] by (auto simp: wf_bitset_def elim!: dvdE)
  have m1: "unat (- 1 :: u32) = 2 ^ 32 - 1" by (simp add: unsigned_minus_1_eq_mask mask_eq_exp_minus_1)
  have num: "unat (of_nat x :: u32) = x \<and> (of_nat x :: u32) \<noteq> - 1" if "x < unat (bits_length b)" for x
  proof -
    have x: "unat (of_nat x :: u32) = x" using that lt by (intro unat_of_nat_u32) simp
    then have "unat (of_nat x :: u32) \<noteq> unat (- 1 :: u32)" unfolding m1 using that lt by linarith
    then show ?thesis using x by metis
  qed
  show "get_bit m b k" if r: "r = - 1" "unat k < unat (bits_length b)"
  proof -
    have "\<not> (\<exists>x. r = of_nat x \<and> x < unat (bits_length b))" using num r(1) by metis
    then have "\<forall>x. 0 \<le> x \<and> x < unat (bits_length b) \<longrightarrow> bit_nr m b x"
      using assms(2) unfolding first_clear_in_def by blast
    then show ?thesis using r(2) by (simp add: get_bit_nr)
  qed
  show "unat r < unat (bits_length b) \<and> \<not> get_bit m b r \<and> (\<forall>k. unat k < unat r \<longrightarrow> get_bit m b k)"
    if r: "r \<noteq> - 1"
  proof -
    obtain x where x: "r = of_nat x" "x < unat (bits_length b)" "\<not> bit_nr m b x" "\<forall>y < x. bit_nr m b y"
      using assms(2) r unfolding first_clear_in_def by auto
    then have "unat r = x" using num by metis
    then show ?thesis using x by (simp add: get_bit_nr)
  qed
qed

interpretation bitset: bit_array wf_bitset "\<lambda>b. unat (bits_length b)" get_bit set_bit_c first_false_bit
proof unfold_locales
  fix b :: bitset and m :: memory and k k' :: u32 and v :: bool
  assume b: "wf_bitset b"
  show "unat (bits_length b) < 2 ^ 32 - 1"
    using b unat_u32_less [of "bits_length b"] by (auto simp: wf_bitset_def elim!: dvdE)
  show "unat k < unat (bits_length b) \<Longrightarrow> unat k' < unat (bits_length b) \<Longrightarrow>
      get_bit (set_bit_c m b k v) b k' = (if k' = k then v else get_bit m b k')"
    using get_set_bit [OF b] by blast
  note c = first_clear_in_cases [OF b first_false_bit_spec [OF b]]
  show "first_false_bit m b = - 1 \<Longrightarrow> unat k < unat (bits_length b) \<Longrightarrow> get_bit m b k"
    by (rule c(1))
  show "first_false_bit m b \<noteq> - 1 \<Longrightarrow> unat (first_false_bit m b) < unat (bits_length b) \<and>
      \<not> get_bit m b (first_false_bit m b) \<and> (\<forall>k. unat k < unat (first_false_bit m b) \<longrightarrow> get_bit m b k)"
    by (rule c(2))
qed

subsection \<open>Properties\<close>

text \<open>
  C19: \<^verbatim>\<open>first_false_bit\<close> returns \<open>-1\<close> exactly when every bit is set, and otherwise the number
  of the first clear bit; setting that bit removes exactly this number from the clear ones.
\<close>

theorem first_false_bit_takes_least:
  assumes "wf_bitset b"
  shows "(first_false_bit m b = - 1 \<longleftrightarrow> (\<forall>k. unat k < unat (bits_length b) \<longrightarrow> get_bit m b k)) \<and>
    (first_false_bit m b \<noteq> - 1 \<longrightarrow>
       unat (first_false_bit m b) < unat (bits_length b) \<and> \<not> get_bit m b (first_false_bit m b) \<and>
       (\<forall>k. unat k < unat (first_false_bit m b) \<longrightarrow> get_bit m b k) \<and>
       (\<forall>k. unat k < unat (bits_length b) \<longrightarrow>
          get_bit (set_bit_c m b (first_false_bit m b) True) b k = (k = first_false_bit m b \<or> get_bit m b k)))"
  using bitset.first_clear_none [OF assms] bitset.first_clear_some [OF assms, of m]
    bitset.get_put [OF assms] by fastforce

definition small_bitset :: bitset where
  "small_bitset = \<lparr>bits_length = 64, bits_addr = 0x100\<rparr>"

definition bits_demo :: memory where
  "bits_demo = store32 (store32 (\<lambda>_. 0) 0x100 0xFFFFFFFF) 0x104 0xFFFFFFFE"

theorem first_false_bit_takes_least_witness:
  "wf_bitset small_bitset \<and> \<not> get_bit bits_demo small_bitset (first_false_bit bits_demo small_bitset)"
proof -
  have wf: "wf_bitset small_bitset" by (simp add: small_bitset_def wf_bitset_def)
  have "first_false_bit bits_demo small_bitset \<noteq> - 1" by code_simp
  then show ?thesis using first_false_bit_takes_least [OF wf, of bits_demo] wf by blast
qed

lemma clear_bits_demo:
  "clear_bit_from 0xFFFFFFFE 1 31 = None" "clear_bit_from 0xFFFFFFFE 0 32 = Some 0"
  by code_simp+

text \<open>
  C20: \<^verbatim>\<open>param_ffb\<close> is not "the same with a starting bit": when the word of the starting bit is
  full and the offset is not 0, the next word is searched from that offset on as well, and
  a free bit below it is missed.  With a start on a word boundary the result is right.
\<close>

theorem param_ffb_misses_bit:
  assumes "wf_bitset b" "unat (bits_length b) = 64"
    "bits_at m b 0 = 0xFFFFFFFF" "bits_at m b 1 = 0xFFFFFFFE"
  shows "param_ffb m b 1 = - 1 \<and> \<not> get_bit m b 32 \<and> param_ffb m b 0 = 32"
proof (intro conjI)
  have two: "unat (INDEX_FROM_BIT (bits_length b)) = 2" using assms(2) by (simp add: index_nat)
  have "(1 :: u32) div 32 = 0" "unat (OFFSET_FROM_BIT 1) = 1" "unat (OFFSET_FROM_BIT 0) = 0"
    by (simp_all add: offset_bound)
  then show "param_ffb m b 1 = - 1" "param_ffb m b 0 = 32"
    using assms(3,4) clear_bits_demo two by (simp_all add: param_ffb_def numeral_2_eq_2)
  have "bit_nr m b 32 = bit (0xFFFFFFFE :: u32) 0" using assms(4) by (simp add: bit_nr_def)
  then show "\<not> get_bit m b 32" by (simp add: get_bit_nr)
qed

theorem param_ffb_misses_bit_witness:
  "param_ffb bits_demo small_bitset 1 = - 1 \<and> \<not> get_bit bits_demo small_bitset 32 \<and>
   param_ffb bits_demo small_bitset 0 = 32"
proof -
  have "wf_bitset small_bitset" "unat (bits_length small_bitset) = 64"
    by (simp_all add: small_bitset_def wf_bitset_def)
  moreover have "bits_at bits_demo small_bitset 0 = 0xFFFFFFFF" "bits_at bits_demo small_bitset 1 = 0xFFFFFFFE"
    by code_simp+
  ultimately show ?thesis using param_ffb_misses_bit by blast
qed

end
