(* ===== verification/Paging.thy ===== *)
theory Paging
  imports Bitset
begin

text \<open>
  \<^verbatim>\<open>paging.c\<close>: page directories and page tables as 32-bit words in memory, the bit array of
  physical frames, and the operations that map, unmap, clone and free address spaces.

  A directory is \<open>0x2004\<close> bytes long: 1024 entries, the 1024 addresses of the page tables
  and the directory's own physical address.  An entry of a directory or of a table has the
  flags \<^verbatim>\<open>present\<close>, \<^verbatim>\<open>rw\<close>, \<^verbatim>\<open>user\<close> and \<^verbatim>\<open>page_size\<close> in bits 0, 1, 2 and 7 and the frame number
  in its upper 20 bits.  The copies through temporary mappings in \<^verbatim>\<open>fork_page_dir\<close> are plain
  copies between the two temporary addresses here: the model of memory does not alias
  two addresses that are mapped to one frame.
\<close>

subsection \<open>State\<close>

record paged = machine +
  frames :: bitset
  START_OF_USER_STACK :: u32
  START_OF_USER_CODE :: u32
  isr_routines :: "nat \<Rightarrow> string option"

text \<open>The allocator that the paging code calls; \<open>malloc_allocator\<close> below is \<^verbatim>\<open>malloc.c\<close>.\<close>

record 's allocator =
  alloc_aligned :: "'s \<Rightarrow> u32 \<Rightarrow> u32 \<Rightarrow> (u32 \<times> 's) result"
  release :: "'s \<Rightarrow> u32 \<Rightarrow> 's result"

subsection \<open>Entries\<close>

definition entry_present :: "u32 \<Rightarrow> bool" where "entry_present w = bit w 0"
definition entry_address :: "u32 \<Rightarrow> u32" where "entry_address w = drop_bit 12 w"

definition set_flag :: "nat \<Rightarrow> bool \<Rightarrow> u32 \<Rightarrow> u32" where
  "set_flag n v w = (if v then Bit_Operations.set_bit n w else unset_bit n w)"

definition set_entry_address :: "u32 \<Rightarrow> u32 \<Rightarrow> u32" where
  "set_entry_address a w = (w AND 0xFFF) OR push_bit 12 a"

definition dir_entry :: "u32 \<Rightarrow> u32 \<Rightarrow> u32" where "dir_entry dir i = dir + 4 * i"
definition dir_table :: "u32 \<Rightarrow> u32 \<Rightarrow> u32" where "dir_table dir i = dir + 0x1000 + 4 * i"
definition dir_physical :: "u32 \<Rightarrow> u32" where "dir_physical dir = dir + 0x2000"

definition write32 :: "'z machine_scheme \<Rightarrow> u32 \<Rightarrow> u32 \<Rightarrow> 'z machine_scheme" where
  "write32 s a v = set_mem s (store32 (mem s) a v)"

definition get_physical_address :: "memory \<Rightarrow> u32 \<Rightarrow> u32 \<Rightarrow> u32" where
  "get_physical_address m dir virtual_address =
     (let frame_address = virtual_address div 0x1000;
          page_index = frame_address mod 1024;
          table_index = frame_address div 1024
      in if entry_present (load32 m (dir_entry dir table_index)) then
           let page = load32 m (load32 m (dir_table dir table_index) + 4 * page_index)
           in if entry_present page then 0x1000 * entry_address page + virtual_address mod 0x1000
              else 0
         else 0)"

subsection \<open>Mapping one page\<close>

definition map_page_to_frame ::
  "'z paged_scheme \<Rightarrow> u32 \<Rightarrow> u32 \<Rightarrow> bool \<Rightarrow> bool \<Rightarrow> 'z paged_scheme result"
where
  "map_page_to_frame s page frame is_kernel is_writable =
     (if frame = 0 \<or> frame \<ge> 0x100000 then Inl (Throw ''Invalid frame'')
      else if entry_present (load32 (mem s) page) then Inl (Throw ''Page already mapped'')
      else let s = set_mem s (set_bit_c (mem s) (frames s) frame True);
               w = set_flag 0 True (load32 (mem s) page);
               w = set_flag 1 is_writable w;
               w = set_flag 2 (\<not> is_kernel) w;
               w = set_entry_address frame w
           in Inr (write32 s page w))"

definition map_page :: "'z paged_scheme \<Rightarrow> u32 \<Rightarrow> bool \<Rightarrow> bool \<Rightarrow> (bool \<times> 'z paged_scheme) result" where
  "map_page s page is_kernel is_writable =
     (let frame = first_false_bit (mem s) (frames s)
      in if frame = - 1 then Inr (False, s)
         else bindE (map_page_to_frame s page frame is_kernel is_writable) (\<lambda>s. Inr (True, s)))"

definition free_page :: "'z paged_scheme \<Rightarrow> u32 \<Rightarrow> bool \<Rightarrow> 'z paged_scheme" where
  "free_page s page set_frame_free =
     (let a = entry_address (load32 (mem s) page);
          s = (if set_frame_free \<and> a \<noteq> 0
               then set_mem s (set_bit_c (mem s) (frames s) a False) else s)
      in write32 s page (set_flag 0 False (load32 (mem s) page)))"

subsection \<open>Page tables\<close>

definition make_page_table ::
  "'z paged_scheme allocator \<Rightarrow> 'z paged_scheme \<Rightarrow> u32 \<Rightarrow> u32 \<Rightarrow> bool \<Rightarrow> bool \<Rightarrow> 'z paged_scheme result"
where
  "make_page_table A s dir table_index is_kernel is_writable =
     (if load32 (mem s) (dir_table dir table_index) \<noteq> 0 then Inl (Throw ''Page table already made'')
      else bindE (alloc_aligned A s 0x1000 0x1000) (\<lambda>(page_table_address, s).
        let physical_address =
              (if paging_enabled s
               then get_physical_address (mem s) (current_directory s) page_table_address
               else page_table_address);
            s = set_mem s (mem_set (mem s) page_table_address 0 0x1000);
            s = write32 s (dir_table dir table_index) page_table_address;
            w = set_flag 0 True (load32 (mem s) (dir_entry dir table_index));
            w = set_flag 1 is_writable w;
            w = set_flag 2 (\<not> is_kernel) w;
            w = set_flag 7 False w;
            w = set_entry_address (physical_address div 0x1000) w
        in Inr (write32 s (dir_entry dir table_index) w)))"

definition get_page ::
  "'z paged_scheme allocator \<Rightarrow> 'z paged_scheme \<Rightarrow> u32 \<Rightarrow> u32 \<Rightarrow> bool \<Rightarrow> bool
     \<Rightarrow> (u32 \<times> 'z paged_scheme) result"
where
  "get_page A s dir address is_kernel is_writable =
     (let frame_address = address div 0x1000;
          page_index = frame_address mod 1024;
          table_index = frame_address div 1024;
          page_table = load32 (mem s) (dir_table dir table_index);
          entry = dir_entry dir table_index
      in if \<not> entry_present (load32 (mem s) entry)
         then bindE (make_page_table A s dir table_index is_kernel is_writable) (\<lambda>s.
                Inr (load32 (mem s) (dir_table dir table_index) + 4 * page_index, s))
         else let s = (if \<not> is_kernel
                       then write32 s entry (set_flag 2 True (load32 (mem s) entry)) else s);
                  s = (if is_writable
                       then write32 s entry (set_flag 1 True (load32 (mem s) entry)) else s)
              in Inr (page_table + 4 * page_index, s))"

text \<open>The \<open>n\<close> pages from \<open>page\<close> on are tried; 0 when all are mapped.\<close>

fun find_unmapped_loop :: "memory \<Rightarrow> u32 \<Rightarrow> u32 \<Rightarrow> nat \<Rightarrow> u32" where
  "find_unmapped_loop m dir page 0 = 0"
| "find_unmapped_loop m dir page (Suc n) =
     (if get_physical_address m dir (0x1000 * page) = 0 then page
      else find_unmapped_loop m dir (page + 1) n)"

definition find_unmapped_page :: "memory \<Rightarrow> u32 \<Rightarrow> u32" where
  "find_unmapped_page m dir = find_unmapped_loop m dir 1 (1024 * 1024 - 1)"

subsection \<open>Requests\<close>

definition request_virtual_space_c ::
  "'z paged_scheme allocator \<Rightarrow> 'z paged_scheme \<Rightarrow> u32 \<Rightarrow> u32 \<Rightarrow> bool \<Rightarrow> bool
     \<Rightarrow> (bool \<times> 'z paged_scheme) result"
where
  "request_virtual_space_c A s dir virtual_address is_kernel is_writable =
     bindE (get_page A s dir virtual_address is_kernel is_writable) (\<lambda>(page, s).
       if entry_present (load32 (mem s) page) then Inr (False, s)
       else map_page s page is_kernel is_writable)"

definition request_physical_space ::
  "'z paged_scheme allocator \<Rightarrow> 'z paged_scheme \<Rightarrow> u32 \<Rightarrow> u32 \<Rightarrow> bool \<Rightarrow> bool
     \<Rightarrow> (u32 \<times> 'z paged_scheme) result"
where
  "request_physical_space A s dir physical_address is_kernel is_writable =
     (let index = find_unmapped_page (mem s) dir
      in if index = 0 then Inr (0, s)
         else let virtual_address = index * 0x1000 + physical_address mod 0x1000
              in bindE (get_page A s dir virtual_address is_kernel is_writable) (\<lambda>(page, s).
                 bindE (map_page_to_frame s page (physical_address div 0x1000) is_kernel is_writable)
                   (\<lambda>s. Inr (virtual_address, s))))"

definition free_virtual_space_c ::
  "'z paged_scheme allocator \<Rightarrow> 'z paged_scheme \<Rightarrow> u32 \<Rightarrow> u32 \<Rightarrow> bool \<Rightarrow> 'z paged_scheme result"
where
  "free_virtual_space_c A s dir virtual_address free_frame =
     bindE (get_page A s dir virtual_address True False) (\<lambda>(page, s). Inr (free_page s page free_frame))"

definition page_fault_handler :: "'z paged_scheme \<Rightarrow> 'z paged_scheme result" where
  "page_fault_handler s =
     (let s = switch_page_directory s (kernel_directory s) in Inl (Throw ''PAGE_FAULT''))"

subsection \<open>Tying the knot with the allocator\<close>

text \<open>
  \<^verbatim>\<open>malloc.c\<close> calls the paging code for pages and the paging code calls \<^verbatim>\<open>malloc.c\<close> for page
  tables.  \<open>pager_at n\<close> is the paging code with at most \<open>n\<close> nested calls of this kind; with
  none left the stack of the kernel is exhausted.
\<close>

definition malloc_allocator :: "'z paged_scheme pager \<Rightarrow> 'z paged_scheme allocator" where
  "malloc_allocator P = \<lparr>alloc_aligned = mem_alloc_aligned P, release = mem_free\<rparr>"

definition paging_pager :: "'z paged_scheme allocator \<Rightarrow> 'z paged_scheme pager" where
  "paging_pager A = \<lparr>request_virtual_space = request_virtual_space_c A,
     free_virtual_space = free_virtual_space_c A\<rparr>"

fun pager_at :: "nat \<Rightarrow> 'z paged_scheme pager" where
  "pager_at 0 = \<lparr>request_virtual_space = (\<lambda>_ _ _ _ _. Inl Hang), free_virtual_space = (\<lambda>_ _ _ _. Inl Hang)\<rparr>"
| "pager_at (Suc n) = paging_pager (malloc_allocator (pager_at n))"

subsection \<open>Cloning directories\<close>

definition clone_page_table ::
  "'z paged_scheme allocator \<Rightarrow> 'z paged_scheme \<Rightarrow> u32 \<Rightarrow> (u32 \<times> 'z paged_scheme) result"
where
  "clone_page_table A s table =
     bindE (alloc_aligned A s 0x1000 0x1000) (\<lambda>(copy, s).
       Inr (copy, set_mem s (mem_copy (mem s) copy table 0x1000)))"

text \<open>One pass over the \<open>n\<close> entries from \<open>i\<close> on; the flag says whether nothing was added.\<close>

fun clone_pass ::
  "'z paged_scheme allocator \<Rightarrow> 'z paged_scheme \<Rightarrow> u32 \<Rightarrow> u32 \<Rightarrow> bool \<Rightarrow> u32 \<Rightarrow> nat
     \<Rightarrow> (bool \<times> 'z paged_scheme) result"
where
  "clone_pass A s dir copy equal i 0 = Inr (equal, s)"
| "clone_pass A s dir copy equal i (Suc n) =
     (if entry_present (load32 (mem s) (dir_entry dir i)) \<and>
         \<not> entry_present (load32 (mem s) (dir_entry copy i))
      then bindE (clone_page_table A s (load32 (mem s) (dir_table dir i))) (\<lambda>(table, s).
             let s = write32 s (dir_table copy i) table;
                 s = write32 s (dir_entry copy i) (load32 (mem s) (dir_entry dir i))
             in clone_pass A s dir copy False (i + 1) n)
      else clone_pass A s dir copy equal (i + 1) n)"

text \<open>
  The passes are repeated until one adds nothing.  Every other pass adds an entry to the
  copy, so 1025 passes are enough.
\<close>

fun clone_passes ::
  "'z paged_scheme allocator \<Rightarrow> 'z paged_scheme \<Rightarrow> u32 \<Rightarrow> u32 \<Rightarrow> nat \<Rightarrow> 'z paged_scheme result"
where
  "clone_passes A s dir copy 0 = Inl Hang"
| "clone_passes A s dir copy (Suc fuel) =
     bindE (clone_pass A s dir copy True 0 1024) (\<lambda>(equal, s).
       if equal then Inr s else clone_passes A s dir copy fuel)"

fun clone_addresses :: "'z paged_scheme \<Rightarrow> u32 \<Rightarrow> u32 \<Rightarrow> u32 \<Rightarrow> nat \<Rightarrow> 'z paged_scheme" where
  "clone_addresses s dir copy i 0 = s"
| "clone_addresses s dir copy i (Suc n) =
     (let s = (if entry_present (load32 (mem s) (dir_entry dir i)) then
                 let a = get_physical_address (mem s) (current_directory s)
                           (load32 (mem s) (dir_table copy i)) div 0x1000
                 in write32 s (dir_entry copy i)
                      (set_entry_address a (load32 (mem s) (dir_entry copy i)))
               else s)
      in clone_addresses s dir copy (i + 1) n)"

definition clone_directory ::
  "'z paged_scheme allocator \<Rightarrow> 'z paged_scheme \<Rightarrow> u32 \<Rightarrow> (u32 \<times> 'z paged_scheme) result"
where
  "clone_directory A s dir =
     bindE (alloc_aligned A s 0x2004 0x1000) (\<lambda>(copy, s).
     let s = set_mem s (mem_set (mem s) copy 0 0x2004);
         s = write32 s (dir_physical copy) (get_physical_address (mem s) (current_directory s) copy)
     in bindE (clone_passes A s dir copy 1025) (\<lambda>s.
          Inr (copy, clone_addresses s dir copy 0 1024)))"

subsection \<open>Installation\<close>

text \<open>After \<open>2 ^ 20\<close> pages the search is back where it began: it never ends.\<close>

fun first_unmapped_address :: "memory \<Rightarrow> u32 \<Rightarrow> u32 \<Rightarrow> nat \<Rightarrow> u32 result" where
  "first_unmapped_address m dir address 0 = Inl Hang"
| "first_unmapped_address m dir address (Suc n) =
     (if get_physical_address m dir address \<noteq> 0
      then first_unmapped_address m dir (address + 0x1000) n else Inr address)"

definition set_user_addresses :: "'z paged_scheme \<Rightarrow> 'z paged_scheme result" where
  "set_user_addresses s =
     (let s = s\<lparr>START_OF_USER_CODE := 0xFFFF0000\<rparr>;
          s = s\<lparr>START_OF_USER_STACK := START_OF_USER_CODE s - 4\<rparr>
      in bindE (first_unmapped_address (mem s) (base_directory s) 0x1000 (2 ^ 20)) (\<lambda>address.
           Inr (s\<lparr>START_OF_USER_HEAP := address\<rparr>)))"

fun install_tables :: "'z paged_scheme \<Rightarrow> u32 \<Rightarrow> u32 \<Rightarrow> nat \<Rightarrow> 'z paged_scheme" where
  "install_tables s tables i 0 = s"
| "install_tables s tables i (Suc n) =
     (let table = tables + 0x1000 * i;
          entry = dir_entry (kernel_directory s) i;
          s = write32 s (dir_table (kernel_directory s) i) table;
          w = set_flag 0 True (load32 (mem s) entry);
          w = set_flag 1 False w;
          w = set_flag 2 True w;
          w = set_flag 7 False w;
          w = set_entry_address (table div 0x1000) w;
          s = write32 s entry w
      in install_tables s tables (i + 1) n)"

text \<open>
  The end of the heap is read again in every round, since \<^verbatim>\<open>get_page\<close> may allocate; \<open>2 ^ 20\<close>
  rounds cover the whole address space.
\<close>

fun identity_map ::
  "'z paged_scheme allocator \<Rightarrow> 'z paged_scheme \<Rightarrow> u32 \<Rightarrow> nat \<Rightarrow> 'z paged_scheme result"
where
  "identity_map A s frame 0 = Inl Hang"
| "identity_map A s frame (Suc n) =
     (if frame < unallocated_mem s then
        bindE (get_page A s (kernel_directory s) frame True False) (\<lambda>(page, s).
        bindE (map_page_to_frame s page (frame div 0x1000) True False) (\<lambda>s.
          identity_map A s (frame + 0x1000) n))
      else Inr s)"

definition paging_install ::
  "'z paged_scheme pager \<Rightarrow> 'z paged_scheme \<Rightarrow> 'z paged_scheme result"
where
  "paging_install P s =
     (let A = malloc_allocator P;
          s = s\<lparr>isr_routines := (isr_routines s)(14 := Some ''page_fault_handler'')\<rparr>
      in bindE (floor_ratio (UPPER_MEMORY s) 0x1000) (\<lambda>nb_frames.
         bindE (empty_bitset P s nb_frames) (\<lambda>(b, s).
         let s = s\<lparr>frames := b\<rparr>;
             s = set_mem s (set_bit_c (mem s) (frames s) 0 True)
         in bindE (alloc_aligned A s 0x2004 0x1000) (\<lambda>(dir, s).
         let s = s\<lparr>kernel_directory := dir\<rparr>;
             s = set_mem s (mem_set (mem s) dir 0 0x2004);
             s = write32 s (dir_physical dir) dir;
             s = s\<lparr>current_directory := dir\<rparr>;
             nb_pages = UPPER_MEMORY s div 0x1000
         in bindE (ceil_ratio nb_pages 1024) (\<lambda>nb_tables.
            bindE (alloc_aligned A s (nb_tables * 0x1000) 0x1000) (\<lambda>(tables, s).
            let s = set_mem s (mem_set (mem s) tables 0 (nb_tables * 0x1000));
                s = install_tables s tables 0 (unat nb_tables)
            in bindE (identity_map A s 0x1000 (2 ^ 20)) (\<lambda>s.
               let s = switch_page_directory s (kernel_directory s);
                   s = s\<lparr>paging_enabled := True\<rparr>
               in bindE (clone_directory A s (kernel_directory s)) (\<lambda>(base, s).
                    set_user_addresses (s\<lparr>base_directory := base\<rparr>)))))))))"

subsection \<open>Address spaces of processes\<close>

fun request_code_pages ::
  "'z paged_scheme allocator \<Rightarrow> 'z paged_scheme \<Rightarrow> u32 \<Rightarrow> u32 \<Rightarrow> nat \<Rightarrow> 'z paged_scheme result"
where
  "request_code_pages A s dir address 0 = Inl Hang"
| "request_code_pages A s dir address (Suc n) =
     (if address = 0 then Inr s
      else bindE (request_virtual_space_c A s dir address False True) (\<lambda>(ok, s).
             if ok then request_code_pages A s dir (address + 0x1000) n
             else Inl (Throw ''Unable to add user code!'')))"

text \<open>
  The result is the new directory and the two allocator pointers of the process.  The code
  starts at a page boundary, so that the addresses of its pages reach 0 after at most
  \<open>2 ^ 20\<close> steps.
\<close>

definition new_page_dir ::
  "'z paged_scheme allocator \<Rightarrow> 'z paged_scheme \<Rightarrow> ((u32 \<times> u32 \<times> u32) \<times> 'z paged_scheme) result"
where
  "new_page_dir A s =
     bindE (clone_directory A s (base_directory s)) (\<lambda>(new, s).
     bindE (request_code_pages A s new (START_OF_USER_CODE s) (2 ^ 20 + 1)) (\<lambda>s.
     bindE (request_virtual_space_c A s new (START_OF_USER_STACK s) False True) (\<lambda>(ok, s).
     if \<not> ok then Inl (Throw ''Unable to add user stack!'')
     else bindE (request_virtual_space_c A s new (START_OF_USER_HEAP s) False True) (\<lambda>(ok, s).
     if \<not> ok then Inl (Throw ''Unable to add user heap!'')
     else let heap_physical = get_physical_address (mem s) new (START_OF_USER_HEAP s)
     in bindE (request_physical_space A s (current_directory s) heap_physical True False)
          (\<lambda>(heap_virtual, s).
     let (_, s) = malloc_new_state s heap_virtual;
         user_first_free_block = START_OF_USER_HEAP s;
         user_unallocated_mem = START_OF_USER_HEAP s + 0x1000
     in bindE (free_virtual_space_c A s (current_directory s) heap_virtual False) (\<lambda>s.
          Inr ((new, user_first_free_block, user_unallocated_mem), s)))))))"

text \<open>The page loop of \<^verbatim>\<open>free_page_dir\<close>, for the \<open>n\<close> pages of a table from \<open>i\<close> on.\<close>

fun free_table_pages ::
  "'z paged_scheme allocator \<Rightarrow> 'z paged_scheme \<Rightarrow> u32 \<Rightarrow> u32 \<Rightarrow> u32 \<Rightarrow> nat \<Rightarrow> 'z paged_scheme result"
where
  "free_table_pages A s dir table_index i 0 = Inr s"
| "free_table_pages A s dir table_index i (Suc n) =
     (let virtual = 0x1000 * (i + 1024 * table_index)
      in bindE (if get_physical_address (mem s) (base_directory s) virtual = 0
                then free_virtual_space_c A s dir virtual True else Inr s)
           (\<lambda>s. free_table_pages A s dir table_index (i + 1) n))"

fun free_tables ::
  "'z paged_scheme allocator \<Rightarrow> 'z paged_scheme \<Rightarrow> u32 \<Rightarrow> u32 \<Rightarrow> nat \<Rightarrow> 'z paged_scheme result"
where
  "free_tables A s dir i 0 = Inr s"
| "free_tables A s dir i (Suc n) =
     bindE (if entry_present (load32 (mem s) (dir_entry dir i)) then
              bindE (free_table_pages A s dir i 0 1024) (\<lambda>s.
                release A s (load32 (mem s) (dir_table dir i)))
            else Inr s)
       (\<lambda>s. free_tables A s dir (i + 1) n)"

definition free_page_dir ::
  "'z paged_scheme allocator \<Rightarrow> 'z paged_scheme \<Rightarrow> u32 \<Rightarrow> 'z paged_scheme result"
where
  "free_page_dir A s dir = bindE (free_tables A s dir 0 1024) (\<lambda>s. release A s dir)"

text \<open>
  Copying one page of the parent for the child: \<open>False\<close> stands for the macro \<^verbatim>\<open>RET_NULL\<close>,
  which the caller completes by freeing the directory.
\<close>

definition fork_page ::
  "'z paged_scheme allocator \<Rightarrow> 'z paged_scheme \<Rightarrow> u32 \<Rightarrow> u32 \<Rightarrow> u32 \<Rightarrow> (bool \<times> 'z paged_scheme) result"
where
  "fork_page A s dir virtual entry =
     (let physical = first_false_bit (mem s) (frames s)
      in if physical = - 1 then Inr (False, s)
         else let s = set_mem s (set_bit_c (mem s) (frames s) physical True);
                  physical = physical * 0x1000
         in bindE (request_physical_space A s (current_directory s) physical True False) (\<lambda>(dest, s).
            if dest = 0 then Inr (False, s)
            else bindE (request_physical_space A s (current_directory s)
                          (get_physical_address (mem s) dir virtual) True False) (\<lambda>(src, s).
                 if src = 0 then
                   bindE (free_virtual_space_c A s (current_directory s) dest False) (\<lambda>s. Inr (False, s))
                 else let s = set_mem s (mem_copy (mem s) dest src 0x1000)
                 in bindE (free_virtual_space_c A s (current_directory s) src False) (\<lambda>s.
                    bindE (free_virtual_space_c A s (current_directory s) dest False) (\<lambda>s.
                    Inr (True, write32 s entry
                           (set_entry_address (physical div 0x1000) (load32 (mem s) entry))))))))"

fun fork_pages ::
  "'z paged_scheme allocator \<Rightarrow> 'z paged_scheme \<Rightarrow> u32 \<Rightarrow> u32 \<Rightarrow> u32 \<Rightarrow> u32 \<Rightarrow> u32 \<Rightarrow> nat
     \<Rightarrow> (bool \<times> 'z paged_scheme) result"
where
  "fork_pages A s dir table table_fork table_index i 0 = Inr (True, s)"
| "fork_pages A s dir table table_fork table_index i (Suc n) =
     (let virtual = table_index * 1024 * 0x1000 + i * 0x1000
      in bindE (if entry_present (load32 (mem s) (table + 4 * i)) \<and>
                   get_physical_address (mem s) (base_directory s) virtual = 0
                then fork_page A s dir virtual (table_fork + 4 * i)
                else Inr (True, s))
           (\<lambda>(ok, s). if ok then fork_pages A s dir table table_fork table_index (i + 1) n
                       else Inr (False, s)))"

fun fork_tables ::
  "'z paged_scheme allocator \<Rightarrow> 'z paged_scheme \<Rightarrow> u32 \<Rightarrow> u32 \<Rightarrow> u32 \<Rightarrow> nat
     \<Rightarrow> (bool \<times> 'z paged_scheme) result"
where
  "fork_tables A s dir fork i 0 = Inr (True, s)"
| "fork_tables A s dir fork i (Suc n) =
     (if entry_present (load32 (mem s) (dir_entry dir i)) then
        let table = load32 (mem s) (dir_table dir i)
        in bindE (alloc_aligned A s 0x1000 0x1000) (\<lambda>(table_fork, s).
           if table_fork = 0 then Inr (False, s)
           else let s = set_mem s (mem_copy (mem s) table_fork table 0x1000);
                    s = write32 s (dir_entry fork i) (load32 (mem s) (dir_entry dir i));
                    a = get_physical_address (mem s) (current_directory s) table_fork div 0x1000;
                    s = write32 s (dir_entry fork i)
                          (set_entry_address a (load32 (mem s) (dir_entry fork i)));
                    s = write32 s (dir_table fork i) table_fork
                in bindE (fork_pages A s dir table table_fork i 0 1024) (\<lambda>(ok, s).
                     if ok then fork_tables A s dir fork (i + 1) n else Inr (False, s)))
      else fork_tables A s dir fork (i + 1) n)"

definition fork_page_dir ::
  "'z paged_scheme allocator \<Rightarrow> 'z paged_scheme \<Rightarrow> u32 \<Rightarrow> (u32 \<times> 'z paged_scheme) result"
where
  "fork_page_dir A s dir =
     bindE (alloc_aligned A s 0x2004 0x1000) (\<lambda>(fork, s).
     if fork = 0 then Inr (0, s)
     else let s = set_mem s (mem_set (mem s) fork 0 0x2004);
              s = write32 s (dir_physical fork) (get_physical_address (mem s) (current_directory s) fork)
          in bindE (fork_tables A s dir fork 0 1024) (\<lambda>(ok, s).
               if ok then Inr (fork, s)
               else bindE (free_page_dir A s fork) (\<lambda>s. Inr (0, s))))"

end
