(* ===== verification/Paging_Correct.thy ===== *)
theory Paging_Correct
  imports Paging Malloc_Alloc
begin

text \<open>
  Translation of addresses after requests and releases, for directories whose page tables
  exist, and the contract that the allocator needs of the paging code: the interpretation
  of \<open>page_provider\<close> on the functions of \<^verbatim>\<open>paging.c\<close>.
\<close>

subsection \<open>Flags and frame numbers of an entry\<close>

lemma bit_0xFFF: "bit (0xFFF :: int) n \<longleftrightarrow> n < 12"
proof -
  have eq: "(0xFFF :: int) = mask 12" by (simp add: mask_eq_exp_minus_1)
  show ?thesis unfolding eq by (simp add: bit_mask_iff)
qed

lemma entry_present_flag [simp]:
  "entry_present (set_flag 0 v w) = v" "n \<noteq> 0 \<Longrightarrow> entry_present (set_flag n v w) = entry_present w"
  by (auto simp: entry_present_def set_flag_def bit_simps)

lemma entry_present_address [simp]: "entry_present (set_entry_address a w) = entry_present w"
  by (simp add: entry_present_def set_entry_address_def bit_simps bit_0xFFF)

lemma entry_address_flag [simp]: "n < 12 \<Longrightarrow> entry_address (set_flag n v w) = entry_address w"
  by (rule bit_word_eqI) (auto simp: entry_address_def set_flag_def bit_simps)

lemma entry_address_set [simp]:
  assumes "unat a < 2 ^ 20"
  shows "entry_address (set_entry_address a w) = a"
proof (rule bit_word_eqI)
  fix n assume n: "n < LENGTH(32)"
  have "\<not> bit a n" if "20 \<le> n"
  proof -
    have "take_bit 20 a = a" using assms
      by (simp add: u32_eq_iff_unat unsigned_take_bit_eq take_bit_nat_eq_self_iff)
    then show ?thesis using that by (metis bit_take_bit_iff not_le)
  qed
  then show "bit (entry_address (set_entry_address a w)) n = bit a n"
    using n by (cases "20 \<le> n") (auto simp: entry_address_def set_entry_address_def bit_simps bit_0xFFF)
qed

subsection \<open>Layout of a directory with its tables\<close>

definition entry_at :: "memory \<Rightarrow> nat \<Rightarrow> nat \<Rightarrow> u32" where
  "entry_at m d i = wordat m (d + 4 * i)"

definition table_at :: "memory \<Rightarrow> nat \<Rightarrow> nat \<Rightarrow> nat" where
  "table_at m d i = unat (wordat m (d + 0x1000 + 4 * i))"

definition page_at :: "memory \<Rightarrow> nat \<Rightarrow> nat \<Rightarrow> nat \<Rightarrow> u32" where
  "page_at m d i j = wordat m (table_at m d i + 4 * j)"

definition tix :: "u32 \<Rightarrow> nat" where "tix v = unat v div 0x1000 div 1024"
definition pix :: "u32 \<Rightarrow> nat" where "pix v = unat v div 0x1000 mod 1024"

definition bits_region :: "bitset \<Rightarrow> nat set" where
  "bits_region b = {unat (bits_addr b) ..< unat (bits_addr b) + unat (bits_length b) div 8}"

text \<open>
  The directory, its tables and the bit array of frames do not overlap; tables are pages;
  every frame number is one that the bit array has, and frame 0 is never handed out.
\<close>

definition layout_ok :: "bitset \<Rightarrow> memory \<Rightarrow> nat \<Rightarrow> bool" where
  "layout_ok b m d \<longleftrightarrow> wf_bitset b \<and> 0 < unat (bits_length b) \<and> unat (bits_length b) \<le> 2 ^ 20 \<and>
     get_bit m b 0 \<and> d + 0x2004 \<le> 2 ^ 32 \<and> {d ..< d + 0x2000} \<inter> bits_region b = {} \<and>
     (\<forall>i < 1024. entry_present (entry_at m d i) \<longrightarrow>
        0x1000 dvd table_at m d i \<and> {table_at m d i ..< table_at m d i + 0x1000} \<inter> bits_region b = {} \<and>
        {table_at m d i ..< table_at m d i + 0x1000} \<inter> {d ..< d + 0x2000} = {} \<and>
        (\<forall>j < 1024. unat (entry_address (page_at m d i j)) < unat (bits_length b)))"

definition table_bytes :: "bitset \<Rightarrow> memory \<Rightarrow> nat \<Rightarrow> nat set" where
  "table_bytes b m d = bits_region b \<union> {d ..< d + 0x1000} \<union>
     (\<Union>i \<in> {i. i < 1024 \<and> entry_present (entry_at m d i)}. {table_at m d i ..< table_at m d i + 0x1000})"

lemma tix_bound: "tix v < 1024"
  using unat_u32_less [of v] by (simp add: tix_def)

lemma pix_bound: "pix v < 1024"
  by (simp add: pix_def)

lemma index_words:
  "(v :: u32) div 0x1000 div 1024 = of_nat (tix v)" "(v :: u32) div 0x1000 mod 1024 = of_nat (pix v)"
proof -
  have "unat (v div 0x1000 div 1024) = tix v" "unat (v div 0x1000 mod 1024) = pix v"
    by (simp_all add: tix_def pix_def unat_div unat_mod)
  then show "v div 0x1000 div 1024 = of_nat (tix v)" "v div 0x1000 mod 1024 = of_nat (pix v)"
    by (metis of_nat_unat ucast_id)+
qed

lemma table_fits:
  assumes "0x1000 dvd (t :: nat)" "t < 2 ^ 32"
  shows "t + 0x1000 \<le> 2 ^ 32"
proof -
  obtain k where k: "t = 0x1000 * k" using assms(1) ..
  then have "k < 2 ^ 20" using assms(2) by simp
  then show ?thesis using k by simp
qed

lemma tables_apart:
  assumes "0x1000 dvd (t :: nat)" "0x1000 dvd t'"
  shows "t = t' \<or> t + 0x1000 \<le> t' \<or> t' + 0x1000 \<le> t"
proof -
  obtain k k' where "t = 0x1000 * k" "t' = 0x1000 * k'" using assms by (auto elim!: dvdE)
  moreover have "k = k' \<or> k + 1 \<le> k' \<or> k' + 1 \<le> k" by linarith
  ultimately show ?thesis by auto
qed

lemma layout_okD:
  assumes "layout_ok b m d"
  shows "wf_bitset b" "0 < unat (bits_length b)" "unat (bits_length b) \<le> 2 ^ 20" "get_bit m b 0"
    "d + 0x2004 \<le> 2 ^ 32" "{d ..< d + 0x2000} \<inter> bits_region b = {}"
  using assms by (auto simp: layout_ok_def)

lemma layout_tableD:
  assumes "layout_ok b m d" "i < 1024" "entry_present (entry_at m d i)"
  shows "0x1000 dvd table_at m d i" "table_at m d i + 0x1000 \<le> 2 ^ 32"
    "{table_at m d i ..< table_at m d i + 0x1000} \<inter> bits_region b = {}"
    "{table_at m d i ..< table_at m d i + 0x1000} \<inter> {d ..< d + 0x2000} = {}"
    "\<And>j. j < 1024 \<Longrightarrow> unat (entry_address (page_at m d i j)) < unat (bits_length b)"
proof -
  show dv: "0x1000 dvd table_at m d i" using assms by (simp add: layout_ok_def)
  show "table_at m d i + 0x1000 \<le> 2 ^ 32"
    using table_fits [OF dv] unat_u32_less by (simp add: table_at_def)
qed (use assms in \<open>auto simp: layout_ok_def\<close>)

lemma get_bit_cong:
  assumes b: "wf_bitset b" and eq: "agree_off R m m'" "R \<inter> bits_region b = {}" and k: "unat k < unat (bits_length b)"
  shows "get_bit m' b k = get_bit m b k"
proof -
  let ?i = "unat k div 32"
  have i: "?i < unat (bits_length b) div 32" using k b by (auto simp: wf_bitset_def elim!: dvdE)
  note a = bits_addr_nat [OF b i]
  have "wordat m' (unat (bits_addr b) + 4 * ?i) = wordat m (unat (bits_addr b) + 4 * ?i)"
    using a(2,3) eq(2) by (intro agree_off_word [OF eq(1)]) (auto simp: bits_region_def disjoint_iff)
  then show ?thesis unfolding get_bit_iff index_of_nat bits_at_def a(1) wordat_def by simp
qed

subsection \<open>The three kinds of writes\<close>

definition same_tables :: "memory \<Rightarrow> memory \<Rightarrow> nat \<Rightarrow> bool" where
  "same_tables m m' d \<longleftrightarrow> (\<forall>i < 1024. entry_present (entry_at m' d i) = entry_present (entry_at m d i) \<and>
     table_at m' d i = table_at m d i)"

lemma same_tables_trans: "same_tables m m' d \<Longrightarrow> same_tables m' m'' d \<Longrightarrow> same_tables m m'' d"
  by (simp add: same_tables_def)

lemma same_tables_bytes: "same_tables m m' d \<Longrightarrow> table_bytes b m' d = table_bytes b m d"
  unfolding same_tables_def table_bytes_def by (intro arg_cong2 [of _ _ _ _ "(\<union>)"] SUP_cong) auto

lemma layout_ok_update:
  assumes "layout_ok b m d" "same_tables m m' d" "get_bit m' b 0"
    "\<And>i j. i < 1024 \<Longrightarrow> j < 1024 \<Longrightarrow> entry_present (entry_at m d i) \<Longrightarrow>
       unat (entry_address (page_at m' d i j)) < unat (bits_length b)"
  shows "layout_ok b m' d"
  using assms unfolding layout_ok_def same_tables_def by metis

lemma update_bits:
  fixes v :: bool
  assumes lo: "layout_ok b m d" and k: "unat k < unat (bits_length b)" "k \<noteq> 0"
  defines "m' \<equiv> set_bit_c m b k v"
  shows "layout_ok b m' d" "same_tables m m' d" "agree_off (bits_region b) m m'"
    "\<And>i. i < 1024 \<Longrightarrow> entry_at m' d i = entry_at m d i"
    "\<And>i j. i < 1024 \<Longrightarrow> j < 1024 \<Longrightarrow> entry_present (entry_at m d i) \<Longrightarrow> page_at m' d i j = page_at m d i j"
proof -
  note l = layout_okD [OF lo]
  show off: "agree_off (bits_region b) m m'"
    unfolding agree_off_def m'_def bits_region_def
    using set_bit_elsewhere [OF l(1) k(1)] by auto
  have dw: "wordat m' x = wordat m x" if "d \<le> x" "x + 4 \<le> d + 0x2000" for x
    using that l(5,6) by (intro agree_off_word [OF off]) (auto simp: disjoint_iff)
  show en: "entry_at m' d i = entry_at m d i" if "i < 1024" for i
    unfolding entry_at_def using that by (intro dw) auto
  have ta: "table_at m' d i = table_at m d i" if "i < 1024" for i
    unfolding table_at_def using that by (subst dw) auto
  show st: "same_tables m m' d" by (simp add: same_tables_def en ta)
  show pa: "page_at m' d i j = page_at m d i j"
    if "i < 1024" "j < 1024" "entry_present (entry_at m d i)" for i j
    unfolding page_at_def ta [OF that(1)]
    using layout_tableD(2,3) [OF lo that(1,3)] that(2) by (intro agree_off_word [OF off]) (auto simp: disjoint_iff)
  have "get_bit m' b 0" using get_set_bit [OF l(1) k(1), of 0] l(2,4) k(2) by (simp add: m'_def)
  then show "layout_ok b m' d"
    using pa layout_tableD(5) [OF lo] by (intro layout_ok_update [OF lo st]) auto
qed

lemma store_off: "a + 4 \<le> 2 ^ 32 \<Longrightarrow> agree_off {a ..< a + 4} m (store32 m (of_nat a) w)"
  by (auto simp: agree_off_def intro!: store32_outside)

lemma update_entry:
  assumes lo: "layout_ok b m d" and i: "i < 1024" and w: "entry_present w = entry_present (entry_at m d i)"
  defines "m' \<equiv> store32 m (of_nat (d + 4 * i)) w"
  shows "layout_ok b m' d" "same_tables m m' d" "agree_off {d ..< d + 0x1000} m m'"
    "\<And>i' j. i' < 1024 \<Longrightarrow> j < 1024 \<Longrightarrow> entry_present (entry_at m d i') \<Longrightarrow> page_at m' d i' j = page_at m d i' j"
    "\<And>k. unat k < unat (bits_length b) \<Longrightarrow> get_bit m' b k = get_bit m b k"
proof -
  note l = layout_okD [OF lo]
  have off: "agree_off {d + 4 * i ..< d + 4 * i + 4} m m'" unfolding m'_def using l(5) i by (intro store_off) simp
  show offd: "agree_off {d ..< d + 0x1000} m m'" using i by (intro agree_off_mono [OF off]) auto
  have en: "entry_present (entry_at m' d i') = entry_present (entry_at m d i')" if "i' < 1024" for i'
  proof (cases "i' = i")
    case True
    then show ?thesis using w by (simp add: entry_at_def m'_def wordat_def del: of_nat_add of_nat_mult)
  next
    case False
    have "entry_at m' d i' = entry_at m d i'"
      unfolding entry_at_def using False l(5) that by (intro agree_off_word [OF off]) auto
    then show ?thesis by simp
  qed
  have ta: "table_at m' d i' = table_at m d i'" if "i' < 1024" for i'
    unfolding table_at_def using that l(5) by (subst agree_off_word [OF offd]) auto
  show st: "same_tables m m' d" by (simp add: same_tables_def en ta)
  show pa: "page_at m' d i' j = page_at m d i' j"
    if "i' < 1024" "j < 1024" "entry_present (entry_at m d i')" for i' j
    unfolding page_at_def ta [OF that(1)]
    using layout_tableD(2,4) [OF lo that(1,3)] that(2) by (intro agree_off_word [OF offd]) (auto simp: disjoint_iff)
  show bits: "get_bit m' b k = get_bit m b k" if "unat k < unat (bits_length b)" for k
    using l(6) by (intro get_bit_cong [OF l(1) offd _ that]) (auto simp: disjoint_iff)
  show "layout_ok b m' d"
    using pa layout_tableD(5) [OF lo] bits [of 0] l(2,4) by (intro layout_ok_update [OF lo st]) auto
qed

lemma update_page:
  assumes lo: "layout_ok b m d" and i: "i < 1024" "j < 1024" "entry_present (entry_at m d i)"
    and w: "unat (entry_address w) < unat (bits_length b)"
  defines "m' \<equiv> store32 m (of_nat (table_at m d i + 4 * j)) w"
  shows "layout_ok b m' d" "same_tables m m' d"
    "agree_off {table_at m d i ..< table_at m d i + 0x1000} m m'"
    "\<And>i' j'. i' < 1024 \<Longrightarrow> j' < 1024 \<Longrightarrow> entry_present (entry_at m d i') \<Longrightarrow>
       page_at m' d i' j' = (if table_at m d i' = table_at m d i \<and> j' = j then w else page_at m d i' j')"
    "\<And>k. unat k < unat (bits_length b) \<Longrightarrow> get_bit m' b k = get_bit m b k"
proof -
  note l = layout_okD [OF lo] and t = layout_tableD [OF lo i(1,3)]
  let ?t = "table_at m d i"
  have off: "agree_off {?t + 4 * j ..< ?t + 4 * j + 4} m m'" unfolding m'_def using t(2) i(2) by (intro store_off) simp
  show offt: "agree_off {?t ..< ?t + 0x1000} m m'" using i by (intro agree_off_mono [OF off]) auto
  have dw: "wordat m' x = wordat m x" if "d \<le> x" "x + 4 \<le> d + 0x2000" for x
    using that l(5) t(4) by (intro agree_off_word [OF offt]) (auto simp: disjoint_iff)
  have en: "entry_at m' d i' = entry_at m d i'" if "i' < 1024" for i'
    unfolding entry_at_def using that by (intro dw) auto
  have ta: "table_at m' d i' = table_at m d i'" if "i' < 1024" for i'
    unfolding table_at_def using that by (subst dw) auto
  show st: "same_tables m m' d" by (simp add: same_tables_def en ta)
  show pa: "page_at m' d i' j' = (if table_at m d i' = ?t \<and> j' = j then w else page_at m d i' j')"
    if x: "i' < 1024" "j' < 1024" "entry_present (entry_at m d i')" for i' j'
  proof (cases "table_at m d i' = ?t \<and> j' = j")
    case True
    then show ?thesis unfolding page_at_def ta [OF x(1)]
      by (simp add: m'_def wordat_def del: of_nat_add of_nat_mult)
  next
    case False
    note t' = layout_tableD [OF lo x(1,3)]
    have "table_at m d i' + 4 * j' + 4 \<le> ?t + 4 * j \<or> ?t + 4 * j + 4 \<le> table_at m d i' + 4 * j'"
      using tables_apart [OF t(1) t'(1)] False i(2) x(2) by auto
    then have "page_at m' d i' j' = page_at m d i' j'"
      unfolding page_at_def ta [OF x(1)] using t'(2) x(2) by (intro agree_off_word [OF off]) auto
    then show ?thesis using False by auto
  qed
  show bits: "get_bit m' b k = get_bit m b k" if "unat k < unat (bits_length b)" for k
    using t(3) by (intro get_bit_cong [OF l(1) offt _ that]) (auto simp: disjoint_iff)
  show "layout_ok b m' d"
    using pa layout_tableD(5) [OF lo] bits [of 0] l(2,4) w by (intro layout_ok_update [OF lo st]) auto
qed

subsection \<open>What the operations do to memory\<close>

definition upd :: "bitset \<Rightarrow> nat \<Rightarrow> memory \<Rightarrow> memory \<Rightarrow> bool" where
  "upd b d m m' \<longleftrightarrow> layout_ok b m' d \<and> same_tables m m' d \<and> agree_off (table_bytes b m d) m m'"

lemma upd_refl: "layout_ok b m d \<Longrightarrow> upd b d m m"
  by (simp add: upd_def same_tables_def)

lemma upd_trans: "upd b d m m' \<Longrightarrow> upd b d m' m'' \<Longrightarrow> upd b d m m''"
  unfolding upd_def using same_tables_bytes [of m m' d b] same_tables_trans [of m m' d m''] agree_off_trans
  by metis

lemma upd_entry:
  assumes "layout_ok b m d" "i < 1024" "entry_present w = entry_present (entry_at m d i)"
  shows "upd b d m (store32 m (of_nat (d + 4 * i)) w)"
  using update_entry [OF assms] unfolding upd_def table_bytes_def by (auto elim: agree_off_mono)

lemma upd_bits:
  assumes "layout_ok b m d" "unat k < unat (bits_length b)" "k \<noteq> 0"
  shows "upd b d m (set_bit_c m b k v)"
proof -
  have "bits_region b \<subseteq> table_bytes b m d" by (auto simp: table_bytes_def)
  then show ?thesis using update_bits(1-3) [OF assms, of v] agree_off_mono unfolding upd_def by blast
qed

lemma upd_page:
  assumes "layout_ok b m d" "i < 1024" "j < 1024" "entry_present (entry_at m d i)"
    "unat (entry_address w) < unat (bits_length b)"
  shows "upd b d m (store32 m (of_nat (table_at m d i + 4 * j)) w)"
proof -
  have "{table_at m d i ..< table_at m d i + 0x1000} \<subseteq> table_bytes b m d"
    using assms(2,4) by (auto simp: table_bytes_def)
  then show ?thesis using update_page [OF assms] agree_off_mono unfolding upd_def by blast
qed

lemma dir_words:
  "dir_entry (of_nat d) (of_nat i) = of_nat (d + 4 * i)"
  "dir_table (of_nat d) (of_nat i) = of_nat (d + 0x1000 + 4 * i)"
  by (simp_all add: dir_entry_def dir_table_def)

lemma table_word: "load32 m (of_nat (d + 0x1000 + 4 * i)) + 4 * of_nat j = of_nat (table_at m d i + 4 * j)"
  by (simp add: table_at_def wordat_def)

lemma get_physical_address_at:
  "get_physical_address m (of_nat d) v =
    (if entry_present (entry_at m d (tix v)) \<and> entry_present (page_at m d (tix v) (pix v))
     then 0x1000 * entry_address (page_at m d (tix v) (pix v)) + v mod 0x1000 else 0)"
  unfolding get_physical_address_def Let_def index_words dir_words table_word
  by (simp add: entry_at_def page_at_def wordat_def del: of_nat_add of_nat_mult)

text \<open>Only rights change when the page table exists.\<close>

lemma get_page_present:
  assumes lo: "layout_ok (frames s) (mem s) d" and pr: "entry_present (entry_at (mem s) d (tix v))"
  shows "\<exists>m'. get_page A s (of_nat d) v kn wr = Inr (of_nat (table_at (mem s) d (tix v) + 4 * pix v), set_mem s m') \<and>
    upd (frames s) d (mem s) m' \<and>
    (\<forall>i < 1024. \<forall>j < 1024. entry_present (entry_at (mem s) d i) \<longrightarrow> page_at m' d i j = page_at (mem s) d i j) \<and>
    (\<forall>k. unat k < unat (bits_length (frames s)) \<longrightarrow> get_bit m' (frames s) k = get_bit (mem s) (frames s) k)"
proof -
  let ?a = "d + 4 * tix v"
  define m1 where "m1 = (if \<not> kn then store32 (mem s) (of_nat ?a) (set_flag 2 True (wordat (mem s) ?a)) else mem s)"
  define m2 where "m2 = (if wr then store32 m1 (of_nat ?a) (set_flag 1 True (wordat m1 ?a)) else m1)"
  have g: "get_page A s (of_nat d) v kn wr = Inr (of_nat (table_at (mem s) d (tix v) + 4 * pix v), set_mem s m2)"
    using pr unfolding get_page_def Let_def index_words dir_words table_word
    by (simp add: entry_at_def wordat_def m1_def m2_def write32_def del: of_nat_add of_nat_mult)
  have step: "upd (frames s) d m (store32 m (of_nat ?a) (set_flag n True (wordat m ?a))) \<and>
      (\<forall>i < 1024. \<forall>j < 1024. entry_present (entry_at m d i) \<longrightarrow>
         page_at (store32 m (of_nat ?a) (set_flag n True (wordat m ?a))) d i j = page_at m d i j) \<and>
      (\<forall>k. unat k < unat (bits_length (frames s)) \<longrightarrow>
         get_bit (store32 m (of_nat ?a) (set_flag n True (wordat m ?a))) (frames s) k = get_bit m (frames s) k)"
    if "layout_ok (frames s) m d" "n \<noteq> 0" for m n
  proof -
    have w: "entry_present (set_flag n True (wordat m ?a)) = entry_present (entry_at m d (tix v))"
      using that(2) by (simp add: entry_at_def)
    show ?thesis using upd_entry [OF that(1) tix_bound w] update_entry(4,5) [OF that(1) tix_bound w] by blast
  qed
  have s1: "upd (frames s) d (mem s) m1 \<and>
      (\<forall>i < 1024. \<forall>j < 1024. entry_present (entry_at (mem s) d i) \<longrightarrow> page_at m1 d i j = page_at (mem s) d i j) \<and>
      (\<forall>k. unat k < unat (bits_length (frames s)) \<longrightarrow> get_bit m1 (frames s) k = get_bit (mem s) (frames s) k)"
    using step [OF lo, of 2] upd_refl [OF lo] by (simp add: m1_def)
  have lo1: "layout_ok (frames s) m1 d" and st1: "same_tables (mem s) m1 d" using s1 by (auto simp: upd_def)
  have s2: "upd (frames s) d m1 m2 \<and>
      (\<forall>i < 1024. \<forall>j < 1024. entry_present (entry_at m1 d i) \<longrightarrow> page_at m2 d i j = page_at m1 d i j) \<and>
      (\<forall>k. unat k < unat (bits_length (frames s)) \<longrightarrow> get_bit m2 (frames s) k = get_bit m1 (frames s) k)"
    using step [OF lo1, of 1] upd_refl [OF lo1] by (simp add: m2_def)
  show ?thesis
    using g s1 s2 st1 upd_trans [of "frames s" d "mem s" m1 m2] by (intro exI [of _ m2]) (simp add: same_tables_def)
qed

lemma frames_set_mem [simp]: "frames (set_mem s m) = frames s"
  by (simp add: set_mem_def)

text \<open>
  Mapping the page of \<open>v\<close>: the frame is the first free one and is in use afterwards, the
  translation of the page is that frame, and no other page changes.
\<close>

lemma map_page_maps:
  assumes lo: "layout_ok (frames s) (mem s) d" and i: "i < 1024" "j < 1024" "entry_present (entry_at (mem s) d i)"
    and np: "\<not> entry_present (page_at (mem s) d i j)"
    and f: "first_false_bit (mem s) (frames s) = f" "f \<noteq> - 1"
  shows "\<exists>m'. map_page s (of_nat (table_at (mem s) d i + 4 * j)) kn wr = Inr (True, set_mem s m') \<and>
    upd (frames s) d (mem s) m' \<and>
    entry_present (page_at m' d i j) \<and> entry_address (page_at m' d i j) = f \<and>
    (\<forall>i' < 1024. \<forall>j' < 1024. entry_present (entry_at (mem s) d i') \<longrightarrow>
       \<not> (table_at (mem s) d i' = table_at (mem s) d i \<and> j' = j) \<longrightarrow> page_at m' d i' j' = page_at (mem s) d i' j') \<and>
    (\<forall>k. unat k < unat (bits_length (frames s)) \<longrightarrow>
       get_bit m' (frames s) k = (k = f \<or> get_bit (mem s) (frames s) k))"
proof -
  let ?b = "frames s" and ?m = "mem s"
  note l = layout_okD [OF lo]
  have fb: "unat f < unat (bits_length ?b)" "\<not> get_bit ?m ?b f"
    using bitset.first_clear_some [OF l(1), of ?m] f by auto
  have f0: "f \<noteq> 0" using fb(2) l(4) by auto
  have f20: "unat f < 2 ^ 20" using fb(1) l(3) by simp
  let ?m1 = "set_bit_c ?m ?b f True"
  note u1 = update_bits [where v = True, OF lo fb(1) f0] and p1 = upd_bits [OF lo fb(1) f0, of True]
  let ?a = "table_at ?m d i + 4 * j"
  let ?w = "set_entry_address f (set_flag 2 (\<not> kn) (set_flag 1 wr (set_flag 0 True (wordat ?m1 ?a))))"
  have ta: "table_at ?m1 d i = table_at ?m d i" "entry_present (entry_at ?m1 d i)"
    using u1(2) i by (auto simp: same_tables_def)
  have wf: "unat (entry_address ?w) < unat (bits_length ?b)" "entry_present ?w" "entry_address ?w = f"
    using fb(1) f20 by simp_all
  note u2 = update_page [OF u1(1) i(1,2) ta(2) wf(1)] and p2 = upd_page [OF u1(1) i(1,2) ta(2) wf(1)]
  let ?m2 = "store32 ?m1 (of_nat ?a) ?w"
  have np': "\<not> entry_present (load32 ?m (of_nat ?a))" using np by (simp add: page_at_def wordat_def)
  have "\<not> (f = 0 \<or> f \<ge> 0x100000)" using f0 f20 by (simp add: word_le_nat_alt)
  then have mp: "map_page s (of_nat ?a) kn wr = Inr (True, set_mem s ?m2)"
    using np' f unfolding map_page_def map_page_to_frame_def Let_def
    by (simp add: write32_def wordat_def del: of_nat_add of_nat_mult)
  have "page_at ?m2 d i j = ?w" using u2(4) [OF i(1,2) ta(2)] by (simp add: ta)
  moreover have "page_at ?m2 d i' j' = page_at ?m d i' j'"
    if "i' < 1024" "j' < 1024" "entry_present (entry_at ?m d i')" "\<not> (table_at ?m d i' = table_at ?m d i \<and> j' = j)" for i' j'
    using that u2(4) [of i' j'] u1(2,5) ta(1) by (auto simp: same_tables_def)
  moreover have "get_bit ?m2 ?b k = (k = f \<or> get_bit ?m ?b k)" if "unat k < unat (bits_length ?b)" for k
    using u2(5) [OF that] get_set_bit [OF l(1) fb(1) that, of ?m True] by (simp add: ta)
  ultimately show ?thesis
    using mp upd_trans [OF p1 p2] wf by (intro exI [of _ ?m2]) (simp add: ta del: of_nat_add of_nat_mult)
qed

lemma free_page_frees:
  assumes lo: "layout_ok (frames s) (mem s) d" and i: "i < 1024" "j < 1024" "entry_present (entry_at (mem s) d i)"
  defines "a \<equiv> entry_address (page_at (mem s) d i j)"
  shows "\<exists>m'. free_page s (of_nat (table_at (mem s) d i + 4 * j)) fr = set_mem s m' \<and>
    upd (frames s) d (mem s) m' \<and> \<not> entry_present (page_at m' d i j) \<and> entry_address (page_at m' d i j) = a \<and>
    (\<forall>i' < 1024. \<forall>j' < 1024. entry_present (entry_at (mem s) d i') \<longrightarrow>
       \<not> (table_at (mem s) d i' = table_at (mem s) d i \<and> j' = j) \<longrightarrow> page_at m' d i' j' = page_at (mem s) d i' j') \<and>
    (\<forall>k. unat k < unat (bits_length (frames s)) \<longrightarrow>
       get_bit m' (frames s) k = (\<not> (fr \<and> k = a \<and> a \<noteq> 0) \<and> get_bit (mem s) (frames s) k))"
proof -
  let ?b = "frames s" and ?m = "mem s"
  let ?a = "table_at ?m d i + 4 * j"
  note l = layout_okD [OF lo]
  have al: "unat a < unat (bits_length ?b)" using layout_tableD(5) [OF lo i(1,3,2)] by (simp add: a_def)
  have aw: "entry_address (load32 ?m (of_nat ?a)) = a" by (simp add: a_def page_at_def wordat_def)
  define m1 where "m1 = (if fr \<and> a \<noteq> 0 then set_bit_c ?m ?b a False else ?m)"
  have lo1: "layout_ok ?b m1 d" and p1: "upd ?b d ?m m1"
    and pg: "\<And>i' j'. i' < 1024 \<Longrightarrow> j' < 1024 \<Longrightarrow> entry_present (entry_at ?m d i') \<Longrightarrow> page_at m1 d i' j' = page_at ?m d i' j'"
    and bt: "\<And>k. unat k < unat (bits_length ?b) \<Longrightarrow> get_bit m1 ?b k = (\<not> (fr \<and> k = a \<and> a \<noteq> 0) \<and> get_bit ?m ?b k)"
    using update_bits [where v = False, OF lo al] upd_bits [OF lo al, of False] upd_refl [OF lo] lo get_set_bit [OF l(1) al]
    by (auto simp: m1_def)
  have ta: "table_at m1 d i = table_at ?m d i" "entry_present (entry_at m1 d i)"
    using p1 i by (auto simp: upd_def same_tables_def)
  let ?w = "set_flag 0 False (wordat m1 ?a)"
  have "wordat m1 ?a = page_at m1 d i j" by (simp add: page_at_def ta)
  also have "\<dots> = page_at ?m d i j" by (rule pg [OF i(1,2,3)])
  finally have wa: "entry_address ?w = a" by (simp add: a_def)
  have wl: "unat (entry_address ?w) < unat (bits_length ?b)" using al wa by simp
  note u2 = update_page [OF lo1 i(1,2) ta(2) wl] and p2 = upd_page [OF lo1 i(1,2) ta(2) wl]
  let ?m2 = "store32 m1 (of_nat ?a) ?w"
  have fp: "free_page s (of_nat ?a) fr = set_mem s ?m2"
    unfolding free_page_def Let_def aw by (simp add: write32_def wordat_def m1_def del: of_nat_add of_nat_mult)
  have "page_at ?m2 d i j = ?w" using u2(4) [OF i(1,2) ta(2)] by (simp add: ta)
  moreover have "page_at ?m2 d i' j' = page_at ?m d i' j'"
    if "i' < 1024" "j' < 1024" "entry_present (entry_at ?m d i')" "\<not> (table_at ?m d i' = table_at ?m d i \<and> j' = j)" for i' j'
    using that u2(4) [of i' j'] pg p1 ta(1) by (auto simp: same_tables_def upd_def)
  moreover have "get_bit ?m2 ?b k = get_bit m1 ?b k" if "unat k < unat (bits_length ?b)" for k
    using u2(5) [OF that] by (simp add: ta)
  ultimately show ?thesis
    using fp upd_trans [OF p1 p2] wa bt by (intro exI [of _ ?m2]) (simp add: ta del: of_nat_add of_nat_mult)
qed

lemma request_effect:
  assumes lo: "layout_ok (frames s) (mem s) d" and pr: "entry_present (entry_at (mem s) d (tix v))"
  defines "ok \<equiv> \<not> entry_present (page_at (mem s) d (tix v) (pix v)) \<and>
    (\<exists>k. unat k < unat (bits_length (frames s)) \<and> \<not> get_bit (mem s) (frames s) k)"
  shows "\<exists>m' f. request_virtual_space_c A s (of_nat d) v kn wr = Inr (ok, set_mem s m') \<and>
    upd (frames s) d (mem s) m' \<and>
    (ok \<longrightarrow> entry_present (page_at m' d (tix v) (pix v)) \<and> entry_address (page_at m' d (tix v) (pix v)) = f \<and>
       unat f < unat (bits_length (frames s)) \<and> \<not> get_bit (mem s) (frames s) f) \<and>
    (\<forall>i' < 1024. \<forall>j' < 1024. entry_present (entry_at (mem s) d i') \<longrightarrow>
       \<not> (ok \<and> table_at (mem s) d i' = table_at (mem s) d (tix v) \<and> j' = pix v) \<longrightarrow>
       page_at m' d i' j' = page_at (mem s) d i' j') \<and>
    (\<forall>k. unat k < unat (bits_length (frames s)) \<longrightarrow>
       get_bit m' (frames s) k = (ok \<and> k = f \<or> get_bit (mem s) (frames s) k))"
proof -
  let ?b = "frames s"
  obtain m1 where g: "get_page A s (of_nat d) v kn wr = Inr (of_nat (table_at (mem s) d (tix v) + 4 * pix v), set_mem s m1)"
    and u1: "upd ?b d (mem s) m1"
    and pg: "\<forall>i < 1024. \<forall>j < 1024. entry_present (entry_at (mem s) d i) \<longrightarrow> page_at m1 d i j = page_at (mem s) d i j"
    and bt: "\<forall>k. unat k < unat (bits_length ?b) \<longrightarrow> get_bit m1 ?b k = get_bit (mem s) ?b k"
    using get_page_present [OF lo pr, of A kn wr] by blast
  have lo1: "layout_ok ?b m1 d" and st: "same_tables (mem s) m1 d" using u1 by (auto simp: upd_def)
  have ta: "table_at m1 d (tix v) = table_at (mem s) d (tix v)" "entry_present (entry_at m1 d (tix v))"
    using st pr tix_bound [of v] by (auto simp: same_tables_def)
  let ?a = "table_at (mem s) d (tix v) + 4 * pix v"
  have "page_at m1 d (tix v) (pix v) = page_at (mem s) d (tix v) (pix v)" using pg tix_bound pix_bound pr by simp
  then have pw: "load32 m1 (of_nat ?a) = page_at (mem s) d (tix v) (pix v)"
    by (simp add: page_at_def [of m1] ta(1) wordat_def)
  note wf = layout_okD(1) [OF lo]
  have full: "first_false_bit m1 ?b = - 1 \<longleftrightarrow> \<not> (\<exists>k. unat k < unat (bits_length ?b) \<and> \<not> get_bit (mem s) ?b k)"
    using bitset.first_clear_none [OF wf, of m1] bitset.first_clear_some [OF wf, of m1] bt by blast
  show ?thesis
  proof (cases ok)
    case False
    have "request_virtual_space_c A s (of_nat d) v kn wr = Inr (ok, set_mem s m1)"
      using False g pw full unfolding request_virtual_space_c_def ok_def map_page_def Let_def by auto
    then show ?thesis using False u1 pg bt by (intro exI [of _ m1] exI [of _ 0]) simp
  next
    case True
    let ?f = "first_false_bit m1 ?b"
    have f: "?f \<noteq> - 1" "\<not> entry_present (page_at m1 d (tix v) (pix v))"
      using True full pg tix_bound pix_bound pr by (auto simp: ok_def)
    have fb: "unat ?f < unat (bits_length ?b)" "\<not> get_bit (mem s) ?b ?f"
      using bitset.first_clear_some [OF wf f(1)] bt by auto
    obtain m' where mp: "map_page (set_mem s m1) (of_nat ?a) kn wr = Inr (True, set_mem s m')"
      "upd ?b d m1 m'" "entry_present (page_at m' d (tix v) (pix v))" "entry_address (page_at m' d (tix v) (pix v)) = ?f"
      "\<forall>i' < 1024. \<forall>j' < 1024. entry_present (entry_at m1 d i') \<longrightarrow>
         \<not> (table_at m1 d i' = table_at m1 d (tix v) \<and> j' = pix v) \<longrightarrow> page_at m' d i' j' = page_at m1 d i' j'"
      "\<forall>k. unat k < unat (bits_length ?b) \<longrightarrow> get_bit m' ?b k = (k = ?f \<or> get_bit m1 ?b k)"
      using map_page_maps [of "set_mem s m1" d "tix v" "pix v" ?f kn wr] lo1 tix_bound pix_bound ta f by auto
    have "request_virtual_space_c A s (of_nat d) v kn wr = Inr (ok, set_mem s m')"
      using True g pw mp(1) unfolding request_virtual_space_c_def ok_def by simp
    then show ?thesis using True upd_trans [OF u1 mp(2)] mp(3-6) fb st pg bt
      by (intro exI [of _ m'] exI [of _ ?f]) (simp add: same_tables_def ta)
  qed
qed

lemma free_effect:
  assumes lo: "layout_ok (frames s) (mem s) d" and pr: "entry_present (entry_at (mem s) d (tix v))"
  defines "a \<equiv> entry_address (page_at (mem s) d (tix v) (pix v))"
  shows "\<exists>m'. free_virtual_space_c A s (of_nat d) v fr = Inr (set_mem s m') \<and> upd (frames s) d (mem s) m' \<and>
    \<not> entry_present (page_at m' d (tix v) (pix v)) \<and> entry_address (page_at m' d (tix v) (pix v)) = a \<and>
    (\<forall>i' < 1024. \<forall>j' < 1024. entry_present (entry_at (mem s) d i') \<longrightarrow>
       \<not> (table_at (mem s) d i' = table_at (mem s) d (tix v) \<and> j' = pix v) \<longrightarrow>
       page_at m' d i' j' = page_at (mem s) d i' j') \<and>
    (\<forall>k. unat k < unat (bits_length (frames s)) \<longrightarrow>
       get_bit m' (frames s) k = (\<not> (fr \<and> k = a \<and> a \<noteq> 0) \<and> get_bit (mem s) (frames s) k))"
proof -
  let ?b = "frames s"
  obtain m1 where g: "get_page A s (of_nat d) v True False = Inr (of_nat (table_at (mem s) d (tix v) + 4 * pix v), set_mem s m1)"
    and u1: "upd ?b d (mem s) m1"
    and pg: "\<forall>i < 1024. \<forall>j < 1024. entry_present (entry_at (mem s) d i) \<longrightarrow> page_at m1 d i j = page_at (mem s) d i j"
    and bt: "\<forall>k. unat k < unat (bits_length ?b) \<longrightarrow> get_bit m1 ?b k = get_bit (mem s) ?b k"
    using get_page_present [OF lo pr, of A True False] by blast
  have lo1: "layout_ok ?b m1 d" and st: "same_tables (mem s) m1 d" using u1 by (auto simp: upd_def)
  have ta: "table_at m1 d (tix v) = table_at (mem s) d (tix v)" "entry_present (entry_at m1 d (tix v))"
    using st pr tix_bound [of v] by (auto simp: same_tables_def)
  have a: "entry_address (page_at m1 d (tix v) (pix v)) = a"
    using pg tix_bound pix_bound pr by (simp add: a_def)
  obtain m' where f: "free_page (set_mem s m1) (of_nat (table_at m1 d (tix v) + 4 * pix v)) fr = set_mem s m'"
    "upd ?b d m1 m'" "\<not> entry_present (page_at m' d (tix v) (pix v))" "entry_address (page_at m' d (tix v) (pix v)) = a"
    "\<forall>i' < 1024. \<forall>j' < 1024. entry_present (entry_at m1 d i') \<longrightarrow>
       \<not> (table_at m1 d i' = table_at m1 d (tix v) \<and> j' = pix v) \<longrightarrow> page_at m' d i' j' = page_at m1 d i' j'"
    "\<forall>k. unat k < unat (bits_length ?b) \<longrightarrow> get_bit m' ?b k = (\<not> (fr \<and> k = a \<and> a \<noteq> 0) \<and> get_bit m1 ?b k)"
    using free_page_frees [of "set_mem s m1" d "tix v" "pix v" fr] lo1 tix_bound pix_bound ta a by auto
  have "free_virtual_space_c A s (of_nat d) v fr = Inr (set_mem s m')"
    using g f(1) ta(1) unfolding free_virtual_space_c_def by simp
  then show ?thesis using upd_trans [OF u1 f(2)] f(3-6) st pg bt
    by (intro exI [of _ m']) (simp add: same_tables_def ta)
qed

subsection \<open>The contract of the allocator\<close>

definition usable :: "'z paged_scheme \<Rightarrow> u32 \<Rightarrow> u32 \<Rightarrow> bool" where
  "usable s dir v \<longleftrightarrow> layout_ok (frames s) (mem s) (unat dir) \<and>
     entry_present (entry_at (mem s) (unat dir) (tix v))"

definition tables_of :: "'z paged_scheme \<Rightarrow> u32 \<Rightarrow> nat set" where
  "tables_of s dir = table_bytes (frames s) (mem s) (unat dir)"

lemma upd_contract:
  assumes us: "usable s dir v" and u: "upd (frames s) (unat dir) (mem s) m'"
  shows "kept (tables_of s dir) s (set_mem s m')" "usable (set_mem s m') dir = usable s dir"
    "tables_of (set_mem s m') dir = tables_of s dir"
proof -
  show "kept (tables_of s dir) s (set_mem s m')"
    using u by (simp add: kept_def upd_def tables_of_def START_OF_HEAP_def)
  show "usable (set_mem s m') dir = usable s dir"
    using us u tix_bound by (intro ext) (auto simp: usable_def upd_def same_tables_def)
  show "tables_of (set_mem s m') dir = tables_of s dir"
    using u same_tables_bytes [of "mem s" m' "unat dir"] by (simp add: tables_of_def upd_def)
qed

interpretation paging: page_provider "paging_pager A" usable tables_of
  for A :: "'z paged_scheme allocator"
proof unfold_locales
  fix s :: "'z paged_scheme" and dir v kn wr fr
  assume us: "usable s dir v"
  then have lo: "layout_ok (frames s) (mem s) (unat dir)" and pr: "entry_present (entry_at (mem s) (unat dir) (tix v))"
    by (auto simp: usable_def)
  from request_effect [OF lo pr, of A kn wr] obtain ok m' where
    "request_virtual_space_c A s dir v kn wr = Inr (ok, set_mem s m')" "upd (frames s) (unat dir) (mem s) m'" by auto
  then show "\<exists>ok s'. request_virtual_space (paging_pager A) s dir v kn wr = Inr (ok, s') \<and>
      kept (tables_of s dir) s s' \<and> usable s' dir = usable s dir \<and> tables_of s' dir = tables_of s dir"
    using upd_contract [OF us] by (auto simp: paging_pager_def)
  from free_effect [OF lo pr, of A fr] obtain m' where
    "free_virtual_space_c A s dir v fr = Inr (set_mem s m')" "upd (frames s) (unat dir) (mem s) m'" by auto
  then show "\<exists>s'. free_virtual_space (paging_pager A) s dir v fr = Inr s' \<and>
      kept (tables_of s dir) s s' \<and> usable s' dir = usable s dir \<and> tables_of s' dir = tables_of s dir"
    using upd_contract [OF us] by (auto simp: paging_pager_def)
qed

end
