(* ===== verification/Paging_Props.thy ===== *)
theory Paging_Props
  imports Paging_Correct
begin

text \<open>
  The properties of the paging code and of the allocator on top of it, and a concrete
  machine with paging enabled on which their hypotheses hold.
\<close>

subsection \<open>A concrete machine\<close>

text \<open>
  One used heap block holds a page directory at \<open>0x11000\<close> whose first page table is at
  \<open>0x20000\<close>, and a bit array of 32 frames at \<open>0x30000\<close> with frame 0 in use.
\<close>

definition demo_frames :: bitset where
  "demo_frames = \<lparr>bits_length = 32, bits_addr = 0x30000\<rparr>"

definition demo_memory :: memory where
  "demo_memory = store32 (store32 (store32 (set_block (\<lambda>_. 0) 0x10000 0x30000 True)
     0x30000 1) 0x12000 0x20000) 0x11000 1"

definition demo_paged :: paged where
  "demo_paged = \<lparr>kmem = demo_memory, umem = (\<lambda>_ _. 0), first_free_block = 0, unallocated_mem = 0x40000,
     kernel_first_free_block = 0, kernel_unallocated_mem = 0, paging_enabled = True,
     current_directory = 0x11000, kernel_directory = 0x11000, base_directory = 0, ld_end = 0x10000,
     UPPER_MEMORY = 0x100000, START_OF_USER_HEAP = 0x80000000, cr0 = 0, cr3 = 0,
     frames = demo_frames, START_OF_USER_STACK = 0, START_OF_USER_CODE = 0, isr_routines = (\<lambda>_. None)\<rparr>"

lemma wordat_store_aligned:
  assumes "4 dvd a" "4 dvd x" "a < 2 ^ 32" "x < 2 ^ 32"
  shows "wordat (store32 m (of_nat a) v) x = (if x = a then v else wordat m x)"
proof (cases "x = a")
  case False
  obtain k l where kl: "a = 4 * k" "x = 4 * l" using assms(1,2) by (auto elim!: dvdE)
  then have "x + 4 \<le> a \<or> a + 4 \<le> x" using False by auto
  moreover have "a + 4 \<le> 2 ^ 32" "x + 4 \<le> 2 ^ 32" using assms(3,4) kl by auto
  ultimately show ?thesis using False by (simp add: wordat_def load32_store32_other)
qed (simp add: wordat_def)

lemma wordat_zero: "wordat (\<lambda>_. 0) x = 0"
  by (simp add: wordat_def load32_def)

lemma demo_word:
  assumes "4 dvd x" "0x10004 \<le> x" "x + 4 \<le> 0x3FFFC"
  shows "wordat demo_memory x = (if x = 0x11000 then 1 else if x = 0x12000 then 0x20000
    else if x = 0x30000 then 1 else 0)"
proof -
  have b: "(0x3FFFC :: nat) < 2 ^ 32" by simp
  have x: "x < 2 ^ 32" using assms(3) b by linarith
  have "wordat (set_block (\<lambda>_. 0) (of_nat 0x10000) (of_nat 0x30000) True) x = wordat (\<lambda>_. 0) x"
    using assms(2,3) by (intro word_frame set_block_props(4) [OF _ _ _ refl]) auto
  then show ?thesis
    using wordat_store_aligned [OF _ assms(1) _ x, of "0x11000"] wordat_store_aligned [OF _ assms(1) _ x, of "0x12000"]
      wordat_store_aligned [OF _ assms(1) _ x, of "0x30000"]
    by (simp add: demo_memory_def wordat_zero)
qed

lemma demo_entry: "i < 1024 \<Longrightarrow> entry_at demo_memory 0x11000 i = (if i = 0 then 1 else 0)"
  unfolding entry_at_def by (subst demo_word) auto

lemma demo_table: "table_at demo_memory 0x11000 0 = 0x20000"
  unfolding table_at_def by (subst demo_word) auto

lemma demo_page: "j < 1024 \<Longrightarrow> page_at demo_memory 0x11000 0 j = 0"
  unfolding page_at_def demo_table by (subst demo_word) auto

lemma demo_layout: "layout_ok demo_frames demo_memory 0x11000"
proof -
  have "bits_at demo_memory demo_frames 0 = wordat demo_memory 0x30000"
    by (simp add: bits_at_def demo_frames_def wordat_def)
  then have "get_bit demo_memory demo_frames 0" by (simp add: get_bit_iff demo_word INDEX_FROM_BIT_def)
  moreover have "entry_present (entry_at demo_memory 0x11000 i) = (i = 0)" if "i < 1024" for i
    using that by (simp add: demo_entry entry_present_def)
  moreover have "{0x20000 ..< 0x20000 + 0x1000 :: nat} \<inter> bits_region demo_frames = {}"
    "{0x11000 ..< 0x11000 + 0x2000 :: nat} \<inter> bits_region demo_frames = {}"
    "{0x20000 ..< 0x20000 + 0x1000 :: nat} \<inter> {0x11000 ..< 0x11000 + 0x2000} = {}"
    by (auto simp: bits_region_def demo_frames_def)
  moreover have "wf_bitset demo_frames" "unat (bits_length demo_frames) = 32"
    by (simp_all add: demo_frames_def wf_bitset_def)
  ultimately show ?thesis
    unfolding layout_ok_def by (simp add: demo_table demo_page entry_address_def)
qed

lemma demo_paged_fields [simp]:
  "mem demo_paged = demo_memory" "frames demo_paged = demo_frames" "unallocated_mem demo_paged = 0x40000"
  "first_free_block demo_paged = 0" "paging_enabled demo_paged = True"
  "current_directory demo_paged = 0x11000" "kernel_directory demo_paged = 0x11000"
  by (simp_all add: demo_paged_def mem_def)

lemma demo_usable: "unat v < 0x400000 \<Longrightarrow> usable demo_paged 0x11000 v"
  using demo_layout by (simp add: usable_def tix_def demo_entry entry_present_def)

subsection \<open>Properties of the paging code\<close>

lemma same_page_iff: "tix v' = tix v \<and> pix v' = pix v \<longleftrightarrow> v' div 0x1000 = v div 0x1000"
proof -
  have "unat v' div 0x1000 = unat v div 0x1000 \<longleftrightarrow> tix v' = tix v \<and> pix v' = pix v"
    unfolding tix_def pix_def by (metis div_mult_mod_eq)
  moreover have "v' div 0x1000 = v div 0x1000 \<longleftrightarrow> unat v' div 0x1000 = unat v div 0x1000"
    by (simp add: u32_eq_iff_unat unat_div)
  ultimately show ?thesis by blast
qed

definition own_table :: "memory \<Rightarrow> nat \<Rightarrow> nat \<Rightarrow> bool" where
  "own_table m d i \<longleftrightarrow> (\<forall>i' < 1024. i' \<noteq> i \<longrightarrow> entry_present (entry_at m d i') \<longrightarrow> table_at m d i' \<noteq> table_at m d i)"

lemma other_page_same:
  assumes st: "same_tables m m' d" and own: "own_table m d (tix v)"
    and pg: "\<forall>i' < 1024. \<forall>j' < 1024. entry_present (entry_at m d i') \<longrightarrow>
      \<not> (c \<and> table_at m d i' = table_at m d (tix v) \<and> j' = pix v) \<longrightarrow> page_at m' d i' j' = page_at m d i' j'"
    and ne: "\<not> c \<or> v' div 0x1000 \<noteq> v div 0x1000"
  shows "get_physical_address m' (of_nat d) v' = get_physical_address m (of_nat d) v'"
proof -
  have "\<not> (c \<and> table_at m d (tix v') = table_at m d (tix v) \<and> pix v' = pix v)"
    if "entry_present (entry_at m d (tix v'))"
    using that own ne same_page_iff [of v' v] tix_bound [of v'] by (auto simp: own_table_def)
  then have "page_at m' d (tix v') (pix v') = page_at m d (tix v') (pix v')"
    if "entry_present (entry_at m d (tix v'))"
    using that pg tix_bound pix_bound by blast
  moreover have "entry_present (entry_at m' d (tix v')) = entry_present (entry_at m d (tix v'))"
    using st tix_bound by (simp add: same_tables_def)
  ultimately show ?thesis by (auto simp: get_physical_address_at)
qed


lemma demo_own: "own_table demo_memory 0x11000 0"
  by (simp add: own_table_def demo_entry entry_present_def)


text \<open>
  C5: releasing the page of \<open>v\<close>, when its page table exists, always returns; the page is not
  mapped afterwards, its frame is free again if that was asked for, and every other page
  and frame is as before.
\<close>

theorem free_virtual_space_unmaps:
  assumes us: "usable s dir v" and own: "own_table (mem s) (unat dir) (tix v)"
  defines "a \<equiv> entry_address (page_at (mem s) (unat dir) (tix v) (pix v))"
  shows "\<exists>s'. free_virtual_space_c A s dir v fr = Inr s' \<and> usable s' dir v \<and>
    get_physical_address (mem s') dir v = 0 \<and>
    (\<forall>k. unat k < unat (bits_length (frames s)) \<longrightarrow>
       get_bit (mem s') (frames s) k = (\<not> (fr \<and> k = a \<and> a \<noteq> 0) \<and> get_bit (mem s) (frames s) k)) \<and>
    (\<forall>v'. v' div 0x1000 \<noteq> v div 0x1000 \<longrightarrow>
       get_physical_address (mem s') dir v' = get_physical_address (mem s) dir v')"
proof -
  let ?d = "unat dir" and ?b = "frames s"
  have lo: "layout_ok ?b (mem s) ?d" and pr: "entry_present (entry_at (mem s) ?d (tix v))"
    using us by (auto simp: usable_def)
  obtain m' where r: "free_virtual_space_c A s dir v fr = Inr (set_mem s m')" and u: "upd ?b ?d (mem s) m'"
    and np: "\<not> entry_present (page_at m' ?d (tix v) (pix v))"
    and pg: "\<forall>i' < 1024. \<forall>j' < 1024. entry_present (entry_at (mem s) ?d i') \<longrightarrow>
       \<not> (True \<and> table_at (mem s) ?d i' = table_at (mem s) ?d (tix v) \<and> j' = pix v) \<longrightarrow>
       page_at m' ?d i' j' = page_at (mem s) ?d i' j'"
    and bt: "\<forall>k. unat k < unat (bits_length ?b) \<longrightarrow>
       get_bit m' ?b k = (\<not> (fr \<and> k = a \<and> a \<noteq> 0) \<and> get_bit (mem s) ?b k)"
    using free_effect [OF lo pr, of A fr] unfolding a_def [symmetric] by auto
  have st: "same_tables (mem s) m' ?d" using u by (simp add: upd_def)
  have us': "usable (set_mem s m') dir v" using upd_contract(2) [OF us u] us by simp
  have z: "get_physical_address m' dir v = 0" using np get_physical_address_at [of m' ?d v] by simp
  have oth: "get_physical_address m' dir v' = get_physical_address (mem s) dir v'"
    if "v' div 0x1000 \<noteq> v div 0x1000" for v'
    using other_page_same [OF st own pg] that by simp
  show ?thesis using r us' z oth bt by (intro exI [of _ "set_mem s m'"]) simp
qed

theorem free_virtual_space_unmaps_witness:
  "\<forall>A. \<exists>s'. free_virtual_space_c A demo_paged 0x11000 0x41000 True = Inr s' \<and> usable s' 0x11000 0x41000 \<and>
     get_physical_address (mem s') 0x11000 0x41000 = 0"
proof
  fix A :: "paged allocator"
  have us: "usable demo_paged 0x11000 0x41000" by (rule demo_usable) simp
  have own: "own_table (mem demo_paged) (unat (0x11000 :: u32)) (tix 0x41000)" using demo_own by (simp add: tix_def)
  show "\<exists>s'. free_virtual_space_c A demo_paged 0x11000 0x41000 True = Inr s' \<and> usable s' 0x11000 0x41000 \<and>
     get_physical_address (mem s') 0x11000 0x41000 = 0"
    using free_virtual_space_unmaps [OF us own, of A True] by blast
qed


text \<open>The page at \<open>0x41000\<close> still has frame 5, which the page at \<open>0x42000\<close> uses.\<close>

definition stale_memory :: memory where
  "stale_memory = store32 (store32 demo_memory 0x20104 0x5000) 0x20108 0x5001"

lemma stale_word:
  assumes "4 dvd x" "0x10004 \<le> x" "x + 4 \<le> 0x3FFFC"
  shows "wordat stale_memory x = (if x = 0x20108 then 0x5001 else if x = 0x20104 then 0x5000 else wordat demo_memory x)"
proof -
  have x: "x < 2 ^ 32" using assms(3) by simp
  show ?thesis
    using wordat_store_aligned [OF _ assms(1) _ x, of "0x20104"] wordat_store_aligned [OF _ assms(1) _ x, of "0x20108"]
    by (simp add: stale_memory_def)
qed

lemma stale_reads:
  "i < 1024 \<Longrightarrow> entry_at stale_memory 0x11000 i = entry_at demo_memory 0x11000 i"
  "i < 1024 \<Longrightarrow> table_at stale_memory 0x11000 i = table_at demo_memory 0x11000 i"
  "j < 1024 \<Longrightarrow> page_at stale_memory 0x11000 0 j = (if j = 66 then 0x5001 else if j = 65 then 0x5000 else 0)"
proof -
  show "i < 1024 \<Longrightarrow> entry_at stale_memory 0x11000 i = entry_at demo_memory 0x11000 i"
    unfolding entry_at_def by (subst stale_word) auto
  show ta: "i < 1024 \<Longrightarrow> table_at stale_memory 0x11000 i = table_at demo_memory 0x11000 i" for i
    unfolding table_at_def by (subst stale_word) auto
  have t0: "table_at stale_memory 0x11000 0 = 0x20000" using ta [of 0] demo_table by simp
  show "j < 1024 \<Longrightarrow> page_at stale_memory 0x11000 0 j = (if j = 66 then 0x5001 else if j = 65 then 0x5000 else 0)"
    unfolding page_at_def t0 by (subst stale_word) (auto simp: demo_word)
qed

lemma stale_layout: "layout_ok demo_frames stale_memory 0x11000"
proof (rule layout_ok_update [OF demo_layout])
  show "same_tables demo_memory stale_memory 0x11000" by (simp add: same_tables_def stale_reads)
  have "bits_at stale_memory demo_frames 0 = wordat stale_memory 0x30000"
    by (simp add: bits_at_def demo_frames_def wordat_def)
  then show "get_bit stale_memory demo_frames 0"
    by (simp add: get_bit_iff stale_word demo_word INDEX_FROM_BIT_def)
  fix i j :: nat assume ij: "i < 1024" "j < 1024" "entry_present (entry_at demo_memory 0x11000 i)"
  then have "i = 0" by (simp add: demo_entry entry_present_def split: if_splits)
  then show "unat (entry_address (page_at stale_memory 0x11000 i j)) < unat (bits_length demo_frames)"
    using ij by (simp add: stale_reads entry_address_def demo_frames_def drop_bit_eq_div)
qed


subsection \<open>The kernel's allocator with paging\<close>

text \<open>
  C3: with paging enabled, the allocator of the kernel on top of the paging code: when the
  page tables for the addresses after the heap exist and lie in allocated memory, every
  call returns, with \<^verbatim>\<open>NULL\<close> and the same blocks, or with an aligned address in a fresh block
  of the requested size.  Besides the free blocks and the new pages only page tables and
  the bit array of frames change, and no block in use is lost or moved.
\<close>

theorem kernel_mem_alloc_correct:
  fixes s :: "'z paged_scheme"
  assumes "heap_inv s bs fl" "bs \<noteq> []" "paging_enabled s" "current_directory s = kernel_directory s" "al \<noteq> 0"
    "unat (unallocated_mem s) + unat sz + unat al + 0x1010 < 2 ^ 32"
    "\<And>v. unat (unallocated_mem s) \<le> unat v \<Longrightarrow> unat v < unat (unallocated_mem s) + unat sz + unat al + 0x1010 \<Longrightarrow>
       usable s (kernel_directory s) v"
    "tables_of s (kernel_directory s) \<subseteq> payload bs"
  shows "\<exists>p s'. mem_alloc_aligned (paging_pager A) s sz al = Inr (p, s') \<and>
    (p = 0 \<and> heap_inv s' bs fl \<or>
     p \<noteq> 0 \<and> allocated (tables_of s (kernel_directory s)) s bs (unat sz) (unat al) p s')"
proof -
  have al: "0 < unat al" using assms(5) by (simp add: u32_pos)
  have "\<exists>p s'. mem_alloc_aligned (paging_pager A) s sz al = Inr (p, s') \<and>
    (p = 0 \<and> heap_inv s' bs fl \<or> p \<noteq> 0 \<and>
     allocated (if paging_enabled s then tables_of s (current_directory s) else {}) s bs (unat sz) (unat al) p s')"
    by (rule paging.mem_alloc_aligned_allocates [OF assms(1) _ _ al assms(6)]) (use assms in auto)
  then show ?thesis using assms(3,4) by simp
qed

lemma demo_heap: "heap_inv demo_paged [(0x10000, 0x30000, True)] []"
proof -
  have sb: "blocks (set_block (\<lambda>_. 0) (of_nat 0x10000) (of_nat 0x30000) True) 0x10000
      [(0x10000, 0x30000, True)] (0x10000 + 0x30000)"
    by (rule set_block_tile) simp_all
  have w: "wordat demo_memory x = wordat (set_block (\<lambda>_. 0) (of_nat 0x10000) (of_nat 0x30000) True) x"
    if "4 dvd x" "x = 0x10000 \<or> x = 0x3FFFC" for x
  proof -
    have "x < 2 ^ 32" using that by auto
    note st = wordat_store_aligned [OF _ that(1) _ this]
    show ?thesis using that(2) st [of "0x11000"] st [of "0x12000"] st [of "0x30000"]
      by (auto simp: demo_memory_def)
  qed
  have "ceil_multiple (0x10000 :: u32) 0x1000 = Inr 0x10000" by code_simp
  then have "START_OF_HEAP demo_paged = Inr 0x10000" by (simp add: START_OF_HEAP_def demo_paged_def)
  moreover have "blocks demo_memory 0x10000 [(0x10000, 0x30000, True)] 0x40000"
    using blocks_cong [OF sb, of demo_memory] w by simp
  ultimately show ?thesis by (simp add: heap_inv_def shape_def coalesced_def)
qed

lemma demo_tables: "tables_of demo_paged 0x11000 \<subseteq> payload [(0x10000, 0x30000, True)]"
proof -
  have e: "{i. i < 1024 \<and> entry_present (entry_at demo_memory 0x11000 i)} = {0}"
    by (auto simp: demo_entry entry_present_def split: if_splits)
  have "tables_of demo_paged 0x11000 = bits_region demo_frames \<union> {0x11000 ..< 0x12000} \<union> {0x20000 ..< 0x21000}"
    by (simp add: tables_of_def table_bytes_def e demo_table)
  also have "\<dots> \<subseteq> {0x10004 ..< 0x3FFFC}" by (auto simp: bits_region_def demo_frames_def)
  also have "\<dots> \<subseteq> payload [(0x10000, 0x30000, True)]" by (auto simp: payload_def)
  finally show ?thesis .
qed

theorem kernel_mem_alloc_correct_witness:
  "\<forall>A. \<exists>p s'. mem_alloc_aligned (paging_pager A) demo_paged 0x1000 0x1000 = Inr (p, s') \<and>
    (p = 0 \<and> heap_inv s' [(0x10000, 0x30000, True)] [] \<or>
     p \<noteq> 0 \<and> allocated (tables_of demo_paged 0x11000) demo_paged [(0x10000, 0x30000, True)] 0x1000 0x1000 p s')"
  using kernel_mem_alloc_correct [OF demo_heap, of "0x1000" "0x1000"] demo_usable demo_tables by simp

end
