(* ===== verification/Kstring.thy ===== *)
theory Kstring
  imports Kmemory "HOL-Library.Signed_Division"
begin

text \<open>
  \<^verbatim>\<open>string.c\<close>.  A C string that a function reads or writes through a pointer is a run of
  bytes in memory that ends with a zero byte; the loops that look for this byte are
  \<open>partial_function\<close>s, so that running past all memory is the value \<open>None\<close>.  The conversions
  of numbers fill a buffer of the caller, which is a list of bytes here; a write past its
  end is \<open>OutOfBounds\<close>.
\<close>

type_synonym bytes = "u8 list"

subsection \<open>Strings in memory\<close>

partial_function (option) str_copy_loop :: "memory \<Rightarrow> u32 \<Rightarrow> u32 \<Rightarrow> u32 \<Rightarrow> (u32 \<times> memory) option" where
  "str_copy_loop m source dest pos =
     (if m (source + pos) \<noteq> 0
      then str_copy_loop (m(dest + pos := m (source + pos))) source dest (pos + 1)
      else Some (pos + 1, m(dest + pos := 0)))"

definition str_copy :: "memory \<Rightarrow> u32 \<Rightarrow> u32 \<Rightarrow> (u32 \<times> memory) option" where
  "str_copy m source dest = str_copy_loop m source dest 0"

partial_function (option) str_cmp_loop :: "memory \<Rightarrow> u32 \<Rightarrow> u32 \<Rightarrow> u32 \<Rightarrow> bool option" where
  "str_cmp_loop m a b pos =
     (if m (a + pos) \<noteq> 0 \<and> m (b + pos) \<noteq> 0 \<and> m (a + pos) = m (b + pos)
      then str_cmp_loop m a b (pos + 1)
      else Some (m (a + pos) = m (b + pos)))"

definition str_cmp :: "memory \<Rightarrow> u32 \<Rightarrow> u32 \<Rightarrow> bool option" where
  "str_cmp m a b = str_cmp_loop m a b 0"

partial_function (option) str_fill_loop :: "memory \<Rightarrow> u32 \<Rightarrow> u8 \<Rightarrow> u32 \<Rightarrow> memory option" where
  "str_fill_loop m s c pos =
     (if m (s + pos) \<noteq> 0 then str_fill_loop (m(s + pos := c)) s c (pos + 1) else Some m)"

text \<open>A length of 0 stands for "up to the zero byte"; a negative one fills nothing.\<close>

definition str_fill :: "memory \<Rightarrow> u32 \<Rightarrow> u8 \<Rightarrow> u32 \<Rightarrow> memory option" where
  "str_fill m s c len =
     (if len \<noteq> 0 then Some (mem_set_loop m s c (nat (sint len))) else str_fill_loop m s c 0)"

partial_function (option) str_length_loop :: "memory \<Rightarrow> u32 \<Rightarrow> u32 \<Rightarrow> u32 option" where
  "str_length_loop m s pos = (if m (s + pos) \<noteq> 0 then str_length_loop m s (pos + 1) else Some pos)"

definition str_length :: "memory \<Rightarrow> u32 \<Rightarrow> u32 option" where
  "str_length m s = str_length_loop m s 0"

subsection \<open>Splitting\<close>

text \<open>
  The words are collected in a buffer of 128 bytes, whose end is not checked in the code; the
  list of words is built in reverse and reversed at the end.
\<close>

fun str_split_loop :: "bytes \<Rightarrow> u8 \<Rightarrow> bool \<Rightarrow> bytes \<Rightarrow> bytes list \<Rightarrow> (bytes \<times> bytes list) result" where
  "str_split_loop [] c keep buffer res = Inr (buffer, res)"
| "str_split_loop (x # xs) c keep buffer res =
     (if x = c \<and> \<not> (buffer = [] \<and> \<not> keep) then
        if length buffer \<ge> 128 then Inl OutOfBounds
        else str_split_loop xs c keep [] (buffer # res)
      else if x \<noteq> c then
        if length buffer \<ge> 128 then Inl OutOfBounds
        else str_split_loop xs c keep (buffer @ [x]) res
      else str_split_loop xs c keep buffer res)"

definition str_split :: "bytes \<Rightarrow> u8 \<Rightarrow> bool \<Rightarrow> bytes list result" where
  "str_split s c keep =
     bindE (str_split_loop s c keep [] []) (\<lambda>(buffer, res).
       if \<not> (buffer = [] \<and> \<not> keep) then
         if length buffer \<ge> 128 then Inl OutOfBounds else Inr (rev (buffer # res))
       else Inr (rev res))"

subsection \<open>Numbers\<close>

definition digit_to_char :: "u32 \<Rightarrow> u8" where
  "digit_to_char digit = (if sint digit \<le> 9 then 48 + ucast digit else 65 + ucast digit - 10)"

text \<open>
  The number of digits: the \<^verbatim>\<open>do ... while\<close> loop of \<^verbatim>\<open>u_int_to_string\<close>.  In base 1 the loop never
  ends unless the number is 0.
\<close>

function u_int_len :: "u32 \<Rightarrow> u32 \<Rightarrow> nat result" where
  "u_int_len n base =
     (if base = 0 then Inl DivideError
      else if n div base = 0 then Inr 1
      else if base = 1 then Inl Hang
      else bindE (u_int_len (n div base) base) (\<lambda>l. Inr (l + 1)))"
  by pat_completeness auto
termination
proof (relation "measure (\<lambda>(n, _). unat n)", goal_cases)
  case (2 n base)
  have "2 \<le> unat base"
    using 2 by (metis Suc_1 Suc_leI less_one linorder_neqE_nat not_less_eq_eq one_le_numeral unat_1 unat_eq_zero u32_eq_iff_unat unat_gt_0)
  moreover have "0 < unat n" using 2 by (metis div_0 unat_gt_0)
  ultimately show ?case by (simp add: unat_div)
qed simp

text \<open>The digits are stored from the last position of the number backwards.\<close>

fun store_digits :: "bytes \<Rightarrow> u32 \<Rightarrow> u32 \<Rightarrow> nat \<Rightarrow> nat \<Rightarrow> bytes result" where
  "store_digits str num base len 0 = Inr str"
| "store_digits str num base len (Suc i) =
     (if base = 0 then Inl DivideError
      else if len - 1 \<ge> length str then Inl OutOfBounds
      else store_digits (str[len - 1 := digit_to_char (num mod base)]) (num div base) base (len - 1) i)"

definition u_int_to_string :: "bytes \<Rightarrow> u32 \<Rightarrow> u32 \<Rightarrow> (nat \<times> bytes) result" where
  "u_int_to_string str num base =
     bindE (u_int_len num base) (\<lambda>len.
     bindE (store_digits str num base len len) (\<lambda>str.
       if len \<ge> length str then Inl OutOfBounds else Inr (len + 1, str[len := 0])))"

text \<open>
  The signed variant.  Division and remainder of C round towards zero, and the negation of
  the smallest number is that number again.
\<close>

function int_len :: "int \<Rightarrow> int \<Rightarrow> nat result" where
  "int_len n base =
     (if base = 0 then Inl DivideError
      else if n sdiv base = 0 then Inr 1
      else if \<bar>base\<bar> = 1 then Inl Hang
      else bindE (int_len (n sdiv base) base) (\<lambda>l. Inr (l + 1)))"
  by pat_completeness auto
termination
proof (relation "measure (\<lambda>(n, _). nat \<bar>n\<bar>)", goal_cases)
  case (2 n base)
  have b: "2 \<le> \<bar>base\<bar>" using 2 by linarith
  have n: "n \<noteq> 0" using 2 by (auto simp: signed_divide_int_def)
  have "\<bar>n sdiv base\<bar> = \<bar>n\<bar> div \<bar>base\<bar>"
    using n b by (auto simp: signed_divide_int_def abs_mult abs_sgn_eq pos_imp_zdiv_nonneg_iff)
  moreover have "\<bar>n\<bar> div \<bar>base\<bar> < \<bar>n\<bar>" using n b by (intro int_div_less_self) auto
  ultimately show ?case by simp
qed simp

fun store_digits_signed :: "bytes \<Rightarrow> int \<Rightarrow> int \<Rightarrow> nat \<Rightarrow> nat \<Rightarrow> bytes result" where
  "store_digits_signed str n base len 0 = Inr str"
| "store_digits_signed str n base len (Suc i) =
     (if base = 0 then Inl DivideError
      else if len - 1 \<ge> length str then Inl OutOfBounds
      else store_digits_signed (str[len - 1 := digit_to_char (word_of_int (n smod base))])
             (n sdiv base) base (len - 1) i)"

definition int_to_string :: "bytes \<Rightarrow> u32 \<Rightarrow> u32 \<Rightarrow> (nat \<times> bytes) result" where
  "int_to_string str num base =
     (let negative = sint num < 0;
          n = sint (if negative then - num else num);
          sign = (if negative then 1 else 0)
      in bindE (int_len n (sint base)) (\<lambda>digits.
         let len = sign + digits
         in bindE (if negative
                   then if length str = 0 then Inl OutOfBounds else Inr (str[0 := 45])
                   else Inr str) (\<lambda>str.
            bindE (store_digits_signed str n (sint base) len digits) (\<lambda>str.
              if len \<ge> length str then Inl OutOfBounds else Inr (len + 1, str[len := 0])))))"

subsection \<open>Strings in memory, as lists\<close>

definition str_at :: "memory \<Rightarrow> nat \<Rightarrow> bytes \<Rightarrow> bool" where
  "str_at m a cs \<longleftrightarrow> a + length cs < 2 ^ 32 \<and> 0 \<notin> set cs \<and>
     (\<forall>i < length cs. m (of_nat (a + i)) = cs ! i) \<and> m (of_nat (a + length cs)) = 0"

lemma str_at_byte: "str_at m a cs \<Longrightarrow> i \<le> length cs \<Longrightarrow> m (of_nat (a + i)) = (if i < length cs then cs ! i else 0)"
  by (auto simp: str_at_def)

lemma str_at_nonzero: "str_at m a cs \<Longrightarrow> i < length cs \<Longrightarrow> cs ! i \<noteq> 0"
  by (metis nth_mem str_at_def)

lemma of_nat_sum: "(of_nat a :: u32) + of_nat i = of_nat (a + i)"
  by simp

lemma str_length_loop_ends:
  assumes s: "str_at m a cs" and i: "i \<le> length cs"
  shows "str_length_loop m (of_nat a) (of_nat i) = Some (of_nat (length cs))"
  using i
proof (induction "length cs - i" arbitrary: i)
  case 0
  then have "m (of_nat a + of_nat i) = 0" using str_at_byte [OF s, of i] by (simp only: of_nat_sum) simp
  then show ?case using 0 by (subst str_length_loop.simps) simp
next
  case (Suc n)
  then have i: "i < length cs" by simp
  then have "m (of_nat a + of_nat i) \<noteq> 0"
    using str_at_byte [OF s, of i] str_at_nonzero [OF s] by (simp only: of_nat_sum) simp
  then have "str_length_loop m (of_nat a) (of_nat i) = str_length_loop m (of_nat a) (of_nat (Suc i))"
    by (subst str_length_loop.simps) (simp add: add.commute)
  then show ?case using Suc.hyps(1) [of "Suc i"] Suc.hyps(2) i by simp
qed

lemma str_cmp_loop_ends:
  assumes a: "str_at m a cs" and b: "str_at m b ds"
    and i: "i \<le> length cs" "i \<le> length ds" "take i cs = take i ds"
  shows "str_cmp_loop m (of_nat a) (of_nat b) (of_nat i) = Some (cs = ds)"
  using i
proof (induction "length cs - i" arbitrary: i rule: less_induct)
  case less
  have ma: "m (of_nat a + of_nat i) = (if i < length cs then cs ! i else 0)"
    using str_at_byte [OF a less.prems(1)] by (simp only: of_nat_sum)
  have mb: "m (of_nat b + of_nat i) = (if i < length ds then ds ! i else 0)"
    using str_at_byte [OF b less.prems(2)] by (simp only: of_nat_sum)
  note nz = str_at_nonzero [OF a, of i] str_at_nonzero [OF b, of i]
  show ?case
  proof (cases "i < length cs \<and> i < length ds \<and> cs ! i = ds ! i")
    case True
    then have "take (Suc i) cs = take (Suc i) ds" using less.prems(3) by (simp add: take_Suc_conv_app_nth)
    moreover have "str_cmp_loop m (of_nat a) (of_nat b) (of_nat i) = str_cmp_loop m (of_nat a) (of_nat b) (of_nat (Suc i))"
      using True nz by (subst str_cmp_loop.simps) (simp add: ma mb add.commute)
    ultimately show ?thesis using less.hyps [of "Suc i"] True by auto
  next
    case False
    have "m (of_nat a + of_nat i) = m (of_nat b + of_nat i) \<longleftrightarrow> cs = ds"
    proof
      assume "m (of_nat a + of_nat i) = m (of_nat b + of_nat i)"
      then have "i = length cs" "i = length ds" using False ma mb nz less.prems(1,2) by (auto split: if_splits)
      then show "cs = ds" using less.prems(3) by simp
    qed (use ma mb in simp)
    moreover have "\<not> (m (of_nat a + of_nat i) \<noteq> 0 \<and> m (of_nat b + of_nat i) \<noteq> 0 \<and>
        m (of_nat a + of_nat i) = m (of_nat b + of_nat i))"
      unfolding ma mb using False by auto
    ultimately show ?thesis by (subst str_cmp_loop.simps) auto
  qed
qed

lemma str_copy_loop_copies:
  assumes a: "str_at m0 a cs" and d: "d + length cs < 2 ^ 32" "d + length cs < a \<or> a + length cs < d"
    and i: "i \<le> length cs" "\<And>j. j < i \<Longrightarrow> m (of_nat (d + j)) = cs ! j"
    and same: "\<And>x. x < 2 ^ 32 \<Longrightarrow> x < d \<or> d + i \<le> x \<Longrightarrow> m (of_nat x) = m0 (of_nat x)"
  shows "\<exists>m'. str_copy_loop m (of_nat a) (of_nat d) (of_nat i) = Some (of_nat (length cs + 1), m') \<and>
    str_at m' d cs \<and> (\<forall>x < 2 ^ 32. x < d \<or> d + length cs < x \<longrightarrow> m' (of_nat x) = m0 (of_nat x))"
  using i same
proof (induction "length cs - i" arbitrary: i m)
  case 0
  then have i: "i = length cs" by simp
  have al: "a + length cs < 2 ^ 32" using a by (simp add: str_at_def)
  have src: "m (of_nat (a + i)) = 0" using 0(4) [of "a + i"] str_at_byte [OF a, of i] i d al by auto
  let ?m = "m(of_nat (d + i) := 0)"
  have "str_copy_loop m (of_nat a) (of_nat d) (of_nat i) = Some (of_nat (length cs + 1), ?m)"
    using src i by (subst str_copy_loop.simps) (simp add: add.commute)
  moreover have w: "?m (of_nat x) = (if x = d + i then 0 else m (of_nat x))" if "x < 2 ^ 32" for x
    using that d(1) i of_nat_u32_eq_iff [of x "d + i"] by simp
  have "?m (of_nat (d + j)) = cs ! j" if "j < length cs" for j
    using w [of "d + j"] 0(3) [of j] that d(1) i by simp
  then have "str_at ?m d cs" using a d(1) w [of "d + length cs"] i by (simp add: str_at_def)
  moreover have "?m (of_nat x) = m0 (of_nat x)" if "x < 2 ^ 32" "x < d \<or> d + length cs < x" for x
    using w [OF that(1)] 0(4) [OF that(1)] that(2) i by auto
  ultimately show ?case by blast
next
  case (Suc n)
  then have i: "i < length cs" by simp
  have al: "a + length cs < 2 ^ 32" using a by (simp add: str_at_def)
  have src: "m (of_nat (a + i)) = cs ! i" using Suc(5) [of "a + i"] str_at_byte [OF a, of i] i d al by auto
  let ?m = "m(of_nat (d + i) := cs ! i)"
  have w: "?m (of_nat x) = (if x = d + i then cs ! i else m (of_nat x))" if "x < 2 ^ 32" for x
    using that d(1) i of_nat_u32_eq_iff [of x "d + i"] by simp
  have step: "str_copy_loop m (of_nat a) (of_nat d) (of_nat i) = str_copy_loop ?m (of_nat a) (of_nat d) (of_nat (Suc i))"
    using src str_at_nonzero [OF a i] by (subst str_copy_loop.simps) (simp add: add.commute)
  have "\<exists>m'. str_copy_loop ?m (of_nat a) (of_nat d) (of_nat (Suc i)) = Some (of_nat (length cs + 1), m') \<and>
    str_at m' d cs \<and> (\<forall>x < 2 ^ 32. x < d \<or> d + length cs < x \<longrightarrow> m' (of_nat x) = m0 (of_nat x))"
  proof (rule Suc.hyps(1))
    show "n = length cs - Suc i" "Suc i \<le> length cs" using Suc.hyps(2) i by simp_all
    show "?m (of_nat (d + j)) = cs ! j" if "j < Suc i" for j
      using w [of "d + j"] Suc(4) [of j] that d(1) i by (auto simp: less_Suc_eq)
    show "?m (of_nat x) = m0 (of_nat x)" if "x < 2 ^ 32" "x < d \<or> d + Suc i \<le> x" for x
      using w [OF that(1)] Suc(5) [OF that(1)] that(2) by auto
  qed
  then show ?case by (simp only: step)
qed

subsection \<open>Printed numbers\<close>

function nlen :: "nat \<Rightarrow> nat \<Rightarrow> nat" where
  "nlen B n = (if n div B = 0 \<or> B < 2 then 1 else Suc (nlen B (n div B)))"
  by pat_completeness auto
termination
proof (relation "measure snd", goal_cases)
  case (2 B n)
  then have "0 < n" "1 < B" by (auto intro: gr0I)
  then show ?case by simp
qed simp

declare nlen.simps [simp del]

fun dig :: "nat \<Rightarrow> nat \<Rightarrow> nat \<Rightarrow> bytes" where
  "dig B 0 n = []"
| "dig B (Suc i) n = dig B i (n div B) @ [digit_to_char (of_nat (n mod B))]"

definition char_value :: "u8 \<Rightarrow> nat" where
  "char_value c = (if unat c \<le> 57 then unat c - 48 else unat c - 55)"

definition parse_number :: "nat \<Rightarrow> bytes \<Rightarrow> nat" where
  "parse_number B cs = foldl (\<lambda>acc c. acc * B + char_value c) 0 cs"

lemma length_dig [simp]: "length (dig B i n) = i"
  by (induction i arbitrary: n) simp_all

lemma char_value_digit: "d < 36 \<Longrightarrow> char_value (digit_to_char (of_nat d)) = d"
proof -
  assume d: "d < 36"
  have u: "unat (ucast (of_nat d :: u32) :: u8) = d" using d by (simp add: unsigned_ucast_eq take_bit_nat_eq_self_iff)
  have s: "sint (of_nat d :: u32) = int d" using d by (intro sint_of_nat_u32) simp
  show ?thesis
  proof (cases "d \<le> 9")
    case True
    then have "unat (48 + ucast (of_nat d :: u32) :: u8) = 48 + d" using u by (simp add: unat_word_ariths)
    then show ?thesis using True s by (simp add: digit_to_char_def char_value_def)
  next
    case False
    have "(65 + ucast (of_nat d :: u32) - 10 :: u8) = 55 + ucast (of_nat d :: u32)" by simp
    moreover have "unat (55 + ucast (of_nat d :: u32) :: u8) = 55 + d" using u d by (simp add: unat_word_ariths)
    ultimately show ?thesis using False s by (simp add: digit_to_char_def char_value_def)
  qed
qed

lemma parse_dig: "2 \<le> B \<Longrightarrow> B \<le> 36 \<Longrightarrow> parse_number B (dig B i n) = n mod B ^ i"
proof (induction i arbitrary: n)
  case 0
  then show ?case by (simp add: parse_number_def)
next
  case (Suc i)
  have "parse_number B (dig B (Suc i) n) = parse_number B (dig B i (n div B)) * B + n mod B"
    using less_le_trans [OF mod_less_divisor [of B n], of 36] Suc.prems
    by (simp add: parse_number_def char_value_digit)
  also have "\<dots> = n div B mod B ^ i * B + n mod B" using Suc by simp
  also have "\<dots> = n mod B ^ Suc i" by (simp add: mod_mult2_eq mult.commute)
  finally show ?case .
qed

lemma nlen_bounds:
  assumes B: "2 \<le> B"
  shows "n < B ^ nlen B n" "nlen B n \<noteq> 1 \<Longrightarrow> B ^ (nlen B n - 1) \<le> n" "0 < nlen B n"
proof -
  have "n < B ^ nlen B n \<and> (nlen B n \<noteq> 1 \<longrightarrow> B ^ (nlen B n - 1) \<le> n) \<and> 0 < nlen B n"
  proof (induction n rule: less_induct)
    case (less n)
    show ?case
    proof (cases "n div B = 0")
      case True
      then show ?thesis using B by (subst (1 2 3 4) nlen.simps) (auto simp: div_eq_0_iff)
    next
      case False
      let ?l = "nlen B (n div B)"
      have len: "nlen B n = Suc ?l" using False B by (subst nlen.simps) simp
      have "n div B < n" using False B by (intro div_less_dividend) (auto intro: gr0I)
      from less.IH [OF this] have IH: "n div B < B ^ ?l" "?l \<noteq> 1 \<longrightarrow> B ^ (?l - 1) \<le> n div B" "0 < ?l" by auto
      have up: "n < B ^ Suc ?l" using IH(1) B by (simp add: div_less_iff_less_mult mult.commute)
      have "B ^ ?l \<le> n"
      proof (cases "?l = 1")
        case True
        then show ?thesis using False B by (simp add: div_eq_0_iff)
      next
        case l: False
        then have "B ^ (?l - 1) * B \<le> n" using IH(2) B by (simp add: less_eq_div_iff_mult_less_eq)
        then show ?thesis using IH(3) by (metis power_minus_mult)
      qed
      then show ?thesis using up by (simp add: len)
    qed
  qed
  then show "n < B ^ nlen B n" "nlen B n \<noteq> 1 \<Longrightarrow> B ^ (nlen B n - 1) \<le> n" "0 < nlen B n" by auto
qed

lemma u_int_len_nlen:
  assumes b: "2 \<le> unat base"
  shows "u_int_len n base = Inr (nlen (unat base) (unat n))"
proof (induction "unat n" arbitrary: n rule: less_induct)
  case less
  have ne: "base \<noteq> 0" "base \<noteq> 1" using b by auto
  have z: "n div base = 0 \<longleftrightarrow> unat n div unat base = 0" by (metis unat_div unat_eq_zero)
  show ?case
  proof (cases "n div base = 0")
    case True
    then show ?thesis using ne z by (subst u_int_len.simps, subst nlen.simps) simp
  next
    case False
    then have "unat (n div base) < unat n"
      using b by (simp add: unat_div) (metis div_0 gr0I unat_eq_zero div_less_dividend less_le_trans one_less_numeral_iff semiring_norm(76))
    from less [OF this] have "u_int_len (n div base) base = Inr (nlen (unat base) (unat n div unat base))"
      by (simp add: unat_div)
    then show ?thesis using False ne z b by (subst u_int_len.simps, subst nlen.simps) simp
  qed
qed

lemma store_digits_dig:
  assumes b: "2 \<le> unat base" "i \<le> len" "len \<le> length str"
  shows "store_digits str num base len i =
    Inr (take (len - i) str @ dig (unat base) i (unat num) @ drop len str)"
  using b(2,3)
proof (induction i arbitrary: str num len)
  case (Suc i)
  let ?c = "digit_to_char (num mod base)"
  have ne: "base \<noteq> 0" using b(1) by auto
  have "len - 1 < length str" using Suc.prems by linarith
  then have "store_digits str num base len (Suc i) = store_digits (str[len - 1 := ?c]) (num div base) base (len - 1) i"
    using Suc.prems ne by simp
  also have "\<dots> = Inr (take (len - 1 - i) (str[len - 1 := ?c]) @ dig (unat base) i (unat (num div base)) @
      drop (len - 1) (str[len - 1 := ?c]))"
    using Suc.prems by (intro Suc.IH) auto
  also have "take (len - 1 - i) (str[len - 1 := ?c]) = take (len - Suc i) str"
    using Suc.prems by simp
  also have "drop (len - 1) (str[len - 1 := ?c]) = ?c # drop len str"
    using Suc.prems by (subst Cons_nth_drop_Suc [symmetric]) auto
  also have "?c = digit_to_char (of_nat (unat num mod unat base))"
    unfolding unat_mod [symmetric] by simp
  finally show ?case by (simp add: unat_div)
qed simp

lemma u_int_to_string_dig:
  assumes b: "2 \<le> unat base" and len: "nlen (unat base) (unat num) < length str"
  defines "l \<equiv> nlen (unat base) (unat num)"
  shows "u_int_to_string str num base = Inr (l + 1, dig (unat base) l (unat num) @ 0 # drop (l + 1) str)"
proof -
  let ?ds = "dig (unat base) l (unat num)"
  have l: "l < length str" using len by (simp only: l_def)
  have s: "store_digits str num base l l = Inr (?ds @ drop l str)"
    using store_digits_dig [OF b, of l l str num] l by simp
  have d: "drop l str = str ! l # drop (l + 1) str" using l Cons_nth_drop_Suc [of l str] by simp
  have u: "(?ds @ drop l str)[l := 0] = ?ds @ 0 # drop (l + 1) str"
    unfolding d by (simp add: list_update_append)
  have "l < length (?ds @ drop l str)" using l by simp
  then show ?thesis
    unfolding u_int_to_string_def u_int_len_nlen [OF b] l_def [symmetric] bindE_Inr s by (simp only: u not_le split: if_split) simp
qed

text \<open>On numbers that are not negative the signed variant does the same.\<close>

lemma sdiv_smod_nonneg:
  "int n sdiv int B = int (n div B)" "int n smod int B = int (n mod B)"
proof -
  have s: "int B = 0 \<or> sgn (int n) = sgn (int B) \<or> int B dvd int n" by (cases "B = 0"; cases "n = 0") auto
  have "int n sdiv int B = int n div int B" using s by (auto simp: signed_divide_int_eq_divide_int)
  then show "int n sdiv int B = int (n div B)" by (simp only: zdiv_int)
  have "int n smod int B = int n mod int B" using s by (auto simp: signed_modulo_int_eq_modulo_int)
  then show "int n smod int B = int (n mod B)" by (simp only: zmod_int)
qed

lemma int_len_nlen: "2 \<le> B \<Longrightarrow> int_len (int n) (int B) = Inr (nlen B n)"
proof (induction n rule: less_induct)
  case (less n)
  show ?case
  proof (cases "n div B = 0")
    case True
    then show ?thesis using less.prems by (subst int_len.simps, subst nlen.simps) (simp add: sdiv_smod_nonneg)
  next
    case False
    have "n div B < n" using False less.prems by (intro div_less_dividend) (auto intro: gr0I)
    then show ?thesis using less False
      by (subst int_len.simps, subst nlen.simps) (simp add: sdiv_smod_nonneg)
  qed
qed

lemma store_digits_signed_dig:
  assumes "2 \<le> B" "i \<le> len" "len \<le> length str"
  shows "store_digits_signed str (int n) (int B) len i = Inr (take (len - i) str @ dig B i n @ drop len str)"
  using assms(2,3)
proof (induction i arbitrary: str n len)
  case (Suc i)
  let ?c = "digit_to_char (of_nat (n mod B))"
  have "len - 1 < length str" using Suc.prems by linarith
  then have "store_digits_signed str (int n) (int B) len (Suc i) =
      store_digits_signed (str[len - 1 := ?c]) (int (n div B)) (int B) (len - 1) i"
    using assms(1) by (simp add: sdiv_smod_nonneg)
  also have "\<dots> = Inr (take (len - 1 - i) (str[len - 1 := ?c]) @ dig B i (n div B) @ drop (len - 1) (str[len - 1 := ?c]))"
    using Suc.prems by (intro Suc.IH) auto
  also have "drop (len - 1) (str[len - 1 := ?c]) = ?c # drop len str"
    using Suc.prems by (subst Cons_nth_drop_Suc [symmetric]) auto
  finally show ?case using Suc.prems by simp
qed simp

subsection \<open>Fields of a string\<close>

fun fields :: "u8 \<Rightarrow> bytes \<Rightarrow> bytes list" where
  "fields c [] = [[]]"
| "fields c (x # xs) =
     (if x = c then [] # fields c xs else (x # hd (fields c xs)) # tl (fields c xs))"

definition kept_words :: "bool \<Rightarrow> bytes list \<Rightarrow> bytes list" where
  "kept_words keep ws = (if keep then ws else filter (\<lambda>w. w \<noteq> []) ws)"

lemma fields_nonempty [simp]: "fields c xs \<noteq> []"
  by (cases xs) simp_all

lemma kept_words_simps [simp]:
  "kept_words keep [] = []"
  "kept_words keep (w # ws) = (if w = [] \<and> \<not> keep then kept_words keep ws else w # kept_words keep ws)"
  "kept_words keep (vs @ ws) = kept_words keep vs @ kept_words keep ws"
  by (simp_all add: kept_words_def)

text \<open>The words that the loop has still to find, the first one completing the buffer.\<close>

lemma str_split_loop_fields:
  assumes "\<And>w. w \<in> set ((buffer @ hd (fields c xs)) # tl (fields c xs)) \<Longrightarrow> length w < 128"
  shows "\<exists>last res'. str_split_loop xs c keep buffer res = Inr (last, res') \<and> length last < 128 \<and>
    kept_words keep (rev res' @ [last]) =
      kept_words keep (rev res) @ kept_words keep ((buffer @ hd (fields c xs)) # tl (fields c xs)) \<and>
    (kept_words keep (rev res) = rev res \<longrightarrow> kept_words keep (rev res') = rev res')"
  using assms
proof (induction xs arbitrary: buffer res)
  case (Cons x xs)
  have small: "length buffer < 128" using Cons.prems by force
  obtain w ws where f: "fields c xs = w # ws" by (cases "fields c xs") auto
  show ?case
  proof (cases "x = c")
    case True
    have IH: "\<exists>last res'. str_split_loop xs c keep [] r = Inr (last, res') \<and> length last < 128 \<and>
      kept_words keep (rev res' @ [last]) = kept_words keep (rev r) @ kept_words keep (w # ws) \<and>
      (kept_words keep (rev r) = rev r \<longrightarrow> kept_words keep (rev res') = rev res')" for r
      using Cons.IH [of "[]" r] Cons.prems True by (simp add: f del: kept_words_simps)
    show ?thesis
    proof (cases "buffer = [] \<and> \<not> keep")
      case True
      then show ?thesis using IH [of res] \<open>x = c\<close> by (simp add: f)
    next
      case False
      obtain last res' where r: "str_split_loop xs c keep [] (buffer # res) = Inr (last, res')" "length last < 128"
        "kept_words keep (rev res' @ [last]) = kept_words keep (rev (buffer # res)) @ kept_words keep (w # ws)"
        "kept_words keep (rev (buffer # res)) = rev (buffer # res) \<longrightarrow> kept_words keep (rev res') = rev res'"
        using IH [of "buffer # res"] by blast
      moreover have "str_split_loop (x # xs) c keep buffer res = Inr (last, res')"
        using r(1) False \<open>x = c\<close> small by (simp add: not_le)
      ultimately show ?thesis using False \<open>x = c\<close> by (intro exI [of _ last] exI [of _ res']) (auto simp: f)
    qed
  next
    case False
    have len: "length v < 128" if "v \<in> set ((buffer @ x # w) # ws)" for v
      using Cons.prems [of v] that False by (simp add: f)
    obtain last res' where r: "str_split_loop xs c keep (buffer @ [x]) res = Inr (last, res')" "length last < 128"
      "kept_words keep (rev res' @ [last]) = kept_words keep (rev res) @ kept_words keep ((buffer @ x # w) # ws)"
      "kept_words keep (rev res) = rev res \<longrightarrow> kept_words keep (rev res') = rev res'"
      using Cons.IH [of "buffer @ [x]" res] len by (auto simp: f simp del: kept_words_simps)
    moreover have "str_split_loop (x # xs) c keep buffer res = Inr (last, res')"
      using r(1) False small by (simp add: not_le)
    ultimately show ?thesis using False
      by (intro exI [of _ last] exI [of _ res']) (simp add: f del: kept_words_simps)
  qed
qed simp

subsection \<open>Properties\<close>

text \<open>
  C22: the string operations on zero-terminated strings: the loops end, \<^verbatim>\<open>str_length\<close> is the
  length, \<^verbatim>\<open>str_cmp\<close> decides equality, and \<^verbatim>\<open>str_copy\<close> to a place that does not overlap makes a
  copy, returns the length with the terminator and changes nothing else.
\<close>

theorem string_operations_correct:
  assumes "str_at m a cs" "str_at m b ds"
    "d + length cs < 2 ^ 32" "d + length cs < a \<or> a + length cs < d"
  shows "str_length m (of_nat a) = Some (of_nat (length cs)) \<and>
    str_cmp m (of_nat a) (of_nat b) = Some (cs = ds) \<and>
    (\<exists>m'. str_copy m (of_nat a) (of_nat d) = Some (of_nat (length cs + 1), m') \<and> str_at m' d cs \<and>
       (\<forall>x < 2 ^ 32. x < d \<or> d + length cs < x \<longrightarrow> m' (of_nat x) = m (of_nat x)))"
  using str_length_loop_ends [OF assms(1), of 0] str_cmp_loop_ends [OF assms(1,2), of 0]
    str_copy_loop_copies [OF assms(1,3,4), of 0 m]
  by (simp add: str_length_def str_cmp_def str_copy_def)

definition hello_memory :: memory where
  "hello_memory = (\<lambda>_. 0)(0x100 := 72, 0x101 := 105)"

lemma hello_strings: "str_at hello_memory 0x100 [72, 105]" "str_at hello_memory 0x200 []"
  by (simp_all add: str_at_def hello_memory_def All_less_Suc)

theorem string_operations_correct_witness:
  "str_length hello_memory 0x100 = Some 2 \<and> str_cmp hello_memory 0x100 0x200 = Some False \<and>
   (\<exists>m'. str_copy hello_memory 0x100 0x300 = Some (3, m') \<and> str_at m' 0x300 [72, 105])"
  using string_operations_correct [OF hello_strings, of "0x300"] by auto

text \<open>
  C23: \<^verbatim>\<open>u_int_to_string\<close> in any base from 2 to 36 writes digits that read back as the number,
  without a leading zero, followed by the terminator, and returns their number plus one;
  the rest of the buffer is unchanged.
\<close>

theorem u_int_to_string_roundtrip:
  assumes "2 \<le> unat base" "unat base \<le> 36" "33 \<le> length str"
  shows "\<exists>ds. u_int_to_string str num base = Inr (length ds + 1, ds @ 0 # drop (length ds + 1) str) \<and>
    parse_number (unat base) ds = unat num \<and> ds \<noteq> [] \<and> (length ds = 1 \<or> unat base ^ (length ds - 1) \<le> unat num)"
proof -
  let ?B = "unat base" and ?l = "nlen (unat base) (unat num)"
  note nb = nlen_bounds [OF assms(1), of "unat num"]
  have "?l \<le> 32"
  proof (rule ccontr)
    assume "\<not> ?l \<le> 32"
    then have "?B ^ 32 \<le> ?B ^ (?l - 1)" using assms(1) by (intro power_increasing) auto
    moreover have "(2 :: nat) ^ 32 \<le> ?B ^ 32" using assms(1) by (intro power_mono) auto
    ultimately show False using nb(2) \<open>\<not> ?l \<le> 32\<close> unat_u32_less [of num] by linarith
  qed
  then have "?l < length str" using assms(3) by linarith
  moreover have "dig ?B ?l (unat num) \<noteq> []" using nb(3) length_dig by (metis length_0_conv less_irrefl)
  ultimately show ?thesis
    using u_int_to_string_dig [OF assms(1)] parse_dig [OF assms(1,2), of ?l "unat num"] nb
    by (intro exI [of _ "dig ?B ?l (unat num)"]) auto
qed

theorem u_int_to_string_roundtrip_witness:
  "\<exists>ds. u_int_to_string (replicate 40 0) 0xCAFE 16 = Inr (length ds + 1, ds @ 0 # drop (length ds + 1) (replicate 40 0)) \<and>
    parse_number 16 ds = 0xCAFE"
  using u_int_to_string_roundtrip [of 16 "replicate 40 0" "0xCAFE"] by auto

lemma nlen_bound_10: "n < 2 ^ 32 \<Longrightarrow> nlen 10 n \<le> 10"
proof (rule ccontr)
  assume n: "n < 2 ^ 32" and "\<not> nlen 10 n \<le> 10"
  then have "(10 :: nat) ^ 10 \<le> 10 ^ (nlen 10 n - 1)" by (intro power_increasing) auto
  then show False using nlen_bounds(2) [of 10 n] n \<open>\<not> nlen 10 n \<le> 10\<close> by simp
qed

lemma sint_negate:
  assumes "num \<noteq> (0x80000000 :: u32)"
  shows "sint (- num) = - sint num"
proof -
  have "sint num \<noteq> - (2 ^ 31)"
  proof
    assume "sint num = - (2 ^ 31)"
    then have "num = word_of_int (- (2 ^ 31))" by (metis of_int_sint scast_id)
    then show False using assms by simp
  qed
  moreover have "- (2 ^ 31) \<le> sint num" "sint num < 2 ^ 31"
    using sint_greater_eq [of num] sint_less [of num] by simp_all
  ultimately have "signed_take_bit 31 (- sint num) = - sint num"
    by (intro signed_take_bit_int_eq_self) simp_all
  then show ?thesis by (simp add: sint_word_ariths)
qed

lemma finish_digits:
  assumes "length pre + length ds < length str"
  shows "(pre @ ds @ drop (length pre + length ds) str)[length pre + length ds := 0] =
    pre @ ds @ 0 # drop (length pre + length ds + 1) str"
proof -
  let ?k = "length pre + length ds"
  have "drop ?k str = str ! ?k # drop (?k + 1) str" using assms Cons_nth_drop_Suc [of ?k str] by simp
  then show ?thesis by (simp add: list_update_append)
qed

lemma int_to_string_dig:
  assumes "num \<noteq> 0x80000000" "12 \<le> length str"
  defines "n \<equiv> nat \<bar>sint num\<bar>"
  defines "cs \<equiv> (if sint num < 0 then 45 # dig 10 (nlen 10 n) n else dig 10 (nlen 10 n) n)"
  shows "int_to_string str num 10 = Inr (length cs + 1, cs @ 0 # drop (length cs + 1) str)"
proof -
  let ?l = "nlen 10 n"
  define pre :: bytes where "pre = (if sint num < 0 then [45] else [])"
  define str' where "str' = (if sint num < 0 then str[0 := 45] else str)"
  have "sint num < 2 ^ 31" "- (2 ^ 31) \<le> sint num"
    using sint_greater_eq [of num] sint_less [of num] by simp_all
  then have l: "?l \<le> 10" by (intro nlen_bound_10) (simp add: n_def)
  have sn: "sint (if sint num < 0 then - num else num) = int n"
    using sint_negate [OF assms(1)] by (simp add: n_def)
  have il: "int_len (int n) 10 = Inr ?l" using int_len_nlen [of 10 n] by simp
  have ps: "length pre \<le> 1" "take (length pre) str' = pre" "length str' = length str"
    using assms(2) by (cases str; auto simp: pre_def str'_def)+
  have sd: "store_digits_signed str' (int n) 10 (length pre + ?l) ?l =
      Inr (pre @ dig 10 ?l n @ drop (length pre + ?l) str')"
    using store_digits_signed_dig [of 10 ?l "length pre + ?l" str' n] l ps assms(2) by simp
  have fin: "(pre @ dig 10 ?l n @ drop (length pre + ?l) str')[length pre + ?l := 0] =
      pre @ dig 10 ?l n @ 0 # drop (length pre + ?l + 1) str'"
    using finish_digits [of pre "dig 10 ?l n" str'] l ps assms(2) by simp
  have dr: "drop (length pre + ?l + 1) str' = drop (length pre + ?l + 1) str" by (auto simp: str'_def)
  have cs: "cs = pre @ dig 10 ?l n" by (simp add: cs_def pre_def)
  have ten: "sint (10 :: u32) = 10" using sint_of_nat_u32 [of 10] by simp
  have bnd: "\<not> length (pre @ dig 10 ?l n @ drop (length pre + ?l) str') \<le> length pre + ?l"
    using l ps assms(2) by simp
  have sign: "(if sint num < 0 then 1 else 0) = length pre" by (simp add: pre_def)
  have head: "(if sint num < 0 then if length str = 0 then Inl OutOfBounds else Inr (str[0 := 45]) else Inr str) = (Inr str' :: bytes result)"
    using assms(2) by (auto simp: str'_def)
  have "int_to_string str num 10 = Inr (length pre + ?l + 1, pre @ dig 10 ?l n @ 0 # drop (length pre + ?l + 1) str)"
    unfolding int_to_string_def Let_def sn ten il bindE_Inr sign head sd fin [symmetric] dr [symmetric]
    using bnd by (simp only: if_False)
  then show ?thesis by (simp add: cs)
qed



text \<open>
  The smallest number is not printed right: its negation is itself, the remainders are
  negative and the "digits" are characters before \<open>0\<close> in the character set.
\<close>

theorem int_to_string_smallest:
  "int_to_string (replicate 17 0) 0x80000000 10 =
     Inr (12, [45, 46, 47, 44, 41, 44, 40, 45, 42, 44, 40] @ replicate 6 0)"
  by code_simp

text \<open>
  C25: \<^verbatim>\<open>str_split\<close> returns the fields between separators, without the empty ones unless they
  are asked for, as long as no field exceeds the 127 bytes that fit in its buffer.
\<close>

theorem str_split_fields:
  assumes "\<And>w. w \<in> set (fields c s) \<Longrightarrow> length w < 128"
  shows "str_split s c keep = Inr (if keep then fields c s else filter (\<lambda>w. w \<noteq> []) (fields c s))"
proof -
  obtain last res' where l: "str_split_loop s c keep [] [] = Inr (last, res')" "length last < 128"
    "kept_words keep (rev res' @ [last]) = kept_words keep (fields c s)" "kept_words keep (rev res') = rev res'"
    using str_split_loop_fields [of "[]" c s keep "[]"] assms by (auto simp: hd_Cons_tl)
  have "kept_words keep (fields c s) = (if keep then fields c s else filter (\<lambda>w. w \<noteq> []) (fields c s))"
    by (simp add: kept_words_def)
  then show ?thesis using l by (auto simp: str_split_def)
qed

theorem str_split_fields_witness:
  "str_split [108, 115, 32, 32, 97] 32 False = Inr [[108, 115], [97]]"
  using str_split_fields [of 32 "[108, 115, 32, 32, 97]" False] by fastforce

end
