(* ===== verification/Printer.thy ===== *)
theory Printer
  imports Kmath Kstring
begin

text \<open>
  \<^verbatim>\<open>printer.c\<close>: text output on the VGA framebuffer.  The framebuffer is a function from byte
  offsets to bytes, since the code does not check the positions it writes to; the screen
  shows the first \<open>4000\<close> bytes, a character and its colours for each of \<open>80 * 25\<close> positions.
  The cursor lives in two registers of the video controller, behind an address port and
  a data port.
\<close>

subsection \<open>State\<close>

record screen =
  framebuffer :: "nat \<Rightarrow> u8"
  address_reg :: u8
  crt_regs :: "u8 \<Rightarrow> u8"
  foreground :: u32
  background :: u32

abbreviation (input) SCREEN_WIDTH :: nat where "SCREEN_WIDTH \<equiv> 80"
abbreviation (input) SCREEN_HEIGHT :: nat where "SCREEN_HEIGHT \<equiv> 25"
abbreviation (input) TAB_WIDTH :: nat where "TAB_WIDTH \<equiv> 4"

definition outb_address :: "screen \<Rightarrow> u8 \<Rightarrow> screen" where
  "outb_address s v = s\<lparr>address_reg := v\<rparr>"

definition outb_data :: "screen \<Rightarrow> u8 \<Rightarrow> screen" where
  "outb_data s v = s\<lparr>crt_regs := (crt_regs s)(address_reg s := v)\<rparr>"

definition inb_data :: "screen \<Rightarrow> u8" where
  "inb_data s = crt_regs s (address_reg s)"

definition utf8_c2 :: bytes where
  "utf8_c2 = [173,155,156,234,157,179,21,234,234,166,234,170,174,234,234,248,241,253,234,39,
     230,20,249,44,49,167,175,172,171,234,168]"

definition utf8_c3 :: bytes where
  "utf8_c3 = [65,65,65,65,142,143,146,128,69,144,69,69,73,73,73,73,68,165,79,79,79,79,153,120,
     79,85,85,85,154,89,48,225,133,160,131,97,132,134,145,135,138,130,136,137,141,161,140,139,
     235,164,149,162,147,111,148,246,237,151,163,150,129,121,0,152]"

subsection \<open>Characters and cursor\<close>

definition put_char :: "screen \<Rightarrow> nat \<Rightarrow> u8 \<Rightarrow> u32 \<Rightarrow> u32 \<Rightarrow> screen" where
  "put_char s i c fg bg =
     s\<lparr>framebuffer := (framebuffer s)(2 * i := c,
        2 * i + 1 := ucast (push_bit 4 (bg AND 0x0F) OR (fg AND 0x0F)))\<rparr>"

definition get_cursor_pos :: "screen \<Rightarrow> u16 \<times> screen" where
  "get_cursor_pos s =
     (let temp = address_reg s;
          s = outb_address s 0x0E;
          higher_byte = inb_data s;
          s = outb_address s 0x0F;
          lower_byte = inb_data s;
          s = outb_address s temp
      in (push_bit 8 (ucast higher_byte) OR ucast lower_byte, s))"

definition set_cursor_pos :: "screen \<Rightarrow> u16 \<Rightarrow> screen" where
  "set_cursor_pos s pos =
     (let s = outb_address s 0x0E;
          s = outb_data s (ucast (drop_bit 8 pos AND 0x00FF));
          s = outb_address s 0x0F
      in outb_data s (ucast (pos AND 0x00FF)))"

fun pad_loop :: "screen \<Rightarrow> nat \<Rightarrow> nat \<Rightarrow> screen" where
  "pad_loop s i 0 = s"
| "pad_loop s i (Suc n) = pad_loop (put_char s i 32 (foreground s) (background s)) (Suc i) n"

definition pad :: "screen \<Rightarrow> u16 \<Rightarrow> u16 \<Rightarrow> screen" where
  "pad s cursor_pos to_pad = pad_loop s (unat cursor_pos) (unat to_pad - unat cursor_pos)"

definition clear_screen :: "screen \<Rightarrow> screen" where
  "clear_screen s = set_cursor_pos (pad s 0 2000) 0"

fun copy_loop :: "(nat \<Rightarrow> u8) \<Rightarrow> nat \<Rightarrow> nat \<Rightarrow> nat \<Rightarrow> nat \<Rightarrow> u8" where
  "copy_loop fb d i 0 = fb"
| "copy_loop fb d i (Suc n) = copy_loop (fb(i := fb (i + d))) d (Suc i) n"

definition scroll :: "screen \<Rightarrow> screen" where
  "scroll s =
     (let last_line = 1920;
          s = s\<lparr>framebuffer := copy_loop (framebuffer s) 160 0 (2 * unat last_line)\<rparr>
      in pad s last_line (last_line + 80))"

definition write_char :: "screen \<Rightarrow> u8 \<Rightarrow> screen" where
  "write_char s c =
     (let (cursor_pos, s) = get_cursor_pos s
      in if c = 0 then s
         else
           let (cursor_pos, s) =
             (if c = 10 then
                let to_pad = 80 * (cursor_pos div 80 + 1) in (to_pad, pad s cursor_pos to_pad)
              else if c = 9 then
                let to_pad = 4 * (cursor_pos div 4 + 1) in (to_pad, pad s cursor_pos to_pad)
              else if c = 8 then
                let cursor_pos = cursor_pos - 1
                in (cursor_pos, put_char s (unat cursor_pos) 32 (foreground s) (background s))
              else if c = 127 then
                (cursor_pos, s\<lparr>framebuffer := copy_loop (framebuffer s) 2 (2 * unat cursor_pos)
                                 (4000 - 2 * unat cursor_pos)\<rparr>)
              else
                (cursor_pos + 1, put_char s (unat cursor_pos) c (foreground s) (background s)));
             (cursor_pos, s) =
             (if cursor_pos = 2000 then (cursor_pos - 80, scroll s) else (cursor_pos, s))
           in set_cursor_pos s cursor_pos)"

text \<open>
  A string is the list of its bytes before the terminator.  The bytes \<open>0xC2\<close> and \<open>0xC3\<close> start
  a two-byte character; the second byte selects from a table without a check.
\<close>

definition utf8_char :: "bytes \<Rightarrow> nat \<Rightarrow> u8 \<Rightarrow> u8 result" where
  "utf8_char table first b =
     (if first \<le> unat b \<and> unat b - first < length table then Inr (table ! (unat b - first))
      else Inl OutOfBounds)"

fun write_string :: "screen \<Rightarrow> bytes \<Rightarrow> screen result" where
  "write_string s [] = Inr s"
| "write_string s (c # cs) =
     (if c = 0 then Inr s
      else if c = 0xC2 then
        (case cs of [] \<Rightarrow> Inl OutOfBounds
         | b # cs \<Rightarrow> bindE (utf8_char utf8_c2 0xA1 b) (\<lambda>d. write_string (write_char s d) cs))
      else if c = 0xC3 then
        (case cs of [] \<Rightarrow> Inl OutOfBounds
         | b # cs \<Rightarrow> bindE (utf8_char utf8_c3 0x80 b) (\<lambda>d. write_string (write_char s d) cs))
      else write_string (write_char s c) cs)"

text \<open>The text in a filled buffer ends before its first zero byte.\<close>

definition text_of :: "bytes \<Rightarrow> bytes" where
  "text_of buf = takeWhile (\<lambda>c. c \<noteq> 0) buf"

definition write_int :: "screen \<Rightarrow> u32 \<Rightarrow> screen result" where
  "write_int s n =
     bindE (int_to_string (replicate 34 0) n 10) (\<lambda>(len, _).
     bindE (int_to_string (replicate len 0) n 10) (\<lambda>(_, buf). write_string s (text_of buf)))"

definition write_hex :: "screen \<Rightarrow> u32 \<Rightarrow> screen result" where
  "write_hex s n =
     bindE (u_int_to_string (replicate 34 0) n 16) (\<lambda>(len, _).
     bindE (u_int_to_string (replicate len 0) n 16) (\<lambda>(_, buf).
     bindE (write_string s [48, 120]) (\<lambda>s. write_string s (text_of buf))))"

subsection \<open>Formatted output\<close>

text \<open>
  The arguments after the format string, in order: machine words, or strings.  Taking a
  string where a word was passed, or an argument that was not passed, is \<open>OutOfBounds\<close>.
\<close>

datatype arg = Word_Arg u32 | Str_Arg bytes

definition pop_word :: "arg list \<Rightarrow> (u32 \<times> arg list) result" where
  "pop_word args = (case args of Word_Arg w # args \<Rightarrow> Inr (w, args) | _ \<Rightarrow> Inl OutOfBounds)"

definition pop_str :: "arg list \<Rightarrow> (bytes \<times> arg list) result" where
  "pop_str args = (case args of Str_Arg b # args \<Rightarrow> Inr (b, args) | _ \<Rightarrow> Inl OutOfBounds)"

fun write_zeros :: "screen \<Rightarrow> nat \<Rightarrow> screen" where
  "write_zeros s 0 = s"
| "write_zeros s (Suc n) = write_zeros (write_char s 48) n"

text \<open>
  One conversion of \<^verbatim>\<open>writef\<close>, after the percent sign.  For \<^verbatim>\<open>X\<close> the length that is subtracted
  counts the terminator, and the maximum with 0 is one of unsigned numbers.
\<close>

definition write_conversion :: "screen \<Rightarrow> u8 \<Rightarrow> arg list \<Rightarrow> (screen \<times> arg list) result" where
  "write_conversion s c args =
     (let buffer = replicate 17 0
      in if c = 100 then
           bindE (pop_word args) (\<lambda>(w, args).
           bindE (int_to_string buffer w 10) (\<lambda>(_, buffer).
           bindE (write_string s (text_of buffer)) (\<lambda>s. Inr (s, args))))
         else if c = 117 then
           bindE (pop_word args) (\<lambda>(w, args).
           bindE (u_int_to_string buffer w 10) (\<lambda>(_, buffer).
           bindE (write_string s (text_of buffer)) (\<lambda>s. Inr (s, args))))
         else if c = 120 then
           bindE (pop_word args) (\<lambda>(w, args).
           bindE (u_int_to_string buffer w 16) (\<lambda>(_, buffer).
           bindE (write_string s [48, 120]) (\<lambda>s.
           bindE (write_string s (text_of buffer)) (\<lambda>s. Inr (s, args)))))
         else if c = 88 then
           bindE (pop_word args) (\<lambda>(hex, args).
           bindE (u_int_to_string (replicate 34 0) hex 16) (\<lambda>(len, _).
           bindE (pop_word args) (\<lambda>(min_length, args).
           bindE (write_string s [48, 120]) (\<lambda>s.
           let s = write_zeros s (unat (max_c 0 (min_length - of_nat len)))
           in bindE (u_int_to_string buffer hex 16) (\<lambda>(_, buffer).
              bindE (write_string s (text_of buffer)) (\<lambda>s. Inr (s, args)))))))
         else if c = 104 then
           bindE (pop_word args) (\<lambda>(w, args).
           bindE (u_int_to_string buffer w 16) (\<lambda>(_, buffer).
           bindE (write_string s (text_of buffer)) (\<lambda>s. Inr (s, args))))
         else if c = 99 then
           bindE (pop_word args) (\<lambda>(w, args). Inr (write_char s (ucast w), args))
         else if c = 115 then
           bindE (pop_str args) (\<lambda>(b, args).
           bindE (write_string s b) (\<lambda>s. Inr (s, args)))
         else if c = 102 then
           bindE (pop_word args) (\<lambda>(w, args). Inr (s\<lparr>foreground := w\<rparr>, args))
         else if c = 98 then
           bindE (pop_word args) (\<lambda>(w, args). Inr (s\<lparr>background := w\<rparr>, args))
         else if c = 37 then Inr (write_char s 37, args)
         else Inl (Throw ''Invalid format string''))"

fun writef :: "screen \<Rightarrow> bytes \<Rightarrow> arg list \<Rightarrow> screen result" where
  "writef s [] args = Inr s"
| "writef s [c] args =
     (if c = 0 then Inr s
      else if c = 37 then Inl (Throw ''Invalid format string'')
      else if c = 0xC2 \<or> c = 0xC3 then Inl OutOfBounds
      else Inr (write_char s c))"
| "writef s (c # d # cs) args =
     (if c = 0 then Inr s
      else if c = 37 then
        bindE (write_conversion s d args) (\<lambda>(s, args). writef s cs args)
      else if c = 0xC2 then
        bindE (utf8_char utf8_c2 0xA1 d) (\<lambda>e. writef (write_char s e) cs args)
      else if c = 0xC3 then
        bindE (utf8_char utf8_c3 0x80 d) (\<lambda>e. writef (write_char s e) cs args)
      else writef (write_char s c) (d # cs) args)"

subsection \<open>Boxes\<close>

definition PUT_CHAR :: "screen \<Rightarrow> int \<Rightarrow> int \<Rightarrow> u8 \<Rightarrow> screen" where
  "PUT_CHAR s row col c =
     put_char s (unat (word_of_int (row * 80 + col) :: u16)) c (foreground s) (background s)"

fun box_row :: "screen \<Rightarrow> int \<Rightarrow> int \<Rightarrow> nat \<Rightarrow> screen" where
  "box_row s row col 0 = s"
| "box_row s row col (Suc n) = box_row (PUT_CHAR s row col 205) row (col + 1) n"

fun box_column :: "screen \<Rightarrow> int \<Rightarrow> int \<Rightarrow> nat \<Rightarrow> screen" where
  "box_column s row col 0 = s"
| "box_column s row col (Suc n) = box_column (PUT_CHAR s row col 186) (row - 1) col n"

text \<open>The outer loops step by the distance of the two sides, and for ever when it is 0.\<close>

partial_function (option) box_rows :: "screen \<Rightarrow> int \<Rightarrow> int \<Rightarrow> int \<Rightarrow> int \<Rightarrow> int \<Rightarrow> screen option" where
  "box_rows s row upper_row lower_row left_col right_col =
     (if row \<ge> upper_row
      then box_rows (box_row s row (left_col + 1) (nat (right_col - (left_col + 1))))
             (row + (upper_row - lower_row)) upper_row lower_row left_col right_col
      else Some s)"

partial_function (option) box_columns :: "screen \<Rightarrow> int \<Rightarrow> int \<Rightarrow> int \<Rightarrow> int \<Rightarrow> int \<Rightarrow> screen option" where
  "box_columns s col upper_row lower_row left_col right_col =
     (if col \<le> right_col
      then box_columns (box_column s (lower_row + 1) col (nat (lower_row + 1 - upper_row)))
             (col + (right_col - left_col)) upper_row lower_row left_col right_col
      else Some s)"

definition write_box :: "screen \<Rightarrow> u16 \<Rightarrow> u16 \<Rightarrow> screen result" where
  "write_box s upper_left lower_right =
     (let upper_row = uint (upper_left div 80); lower_row = uint (lower_right div 80);
          left_col = uint (upper_left mod 80); right_col = uint (lower_right mod 80)
      in bindE (of_option Hang (box_rows s lower_row upper_row lower_row left_col right_col)) (\<lambda>s.
         bindE (of_option Hang (box_columns s left_col upper_row lower_row left_col right_col)) (\<lambda>s.
         let s = PUT_CHAR s upper_row left_col 201;
             s = PUT_CHAR s upper_row right_col 187;
             s = PUT_CHAR s lower_row left_col 200
         in Inr (PUT_CHAR s lower_row right_col 188))))"

subsection \<open>The cursor\<close>

definition cursor :: "screen \<Rightarrow> u16" where
  "cursor s = fst (get_cursor_pos s)"

lemma cursor_regs: "cursor s = push_bit 8 (ucast (crt_regs s 0x0E)) OR ucast (crt_regs s 0x0F)"
  by (simp add: cursor_def get_cursor_pos_def Let_def outb_address_def inb_data_def)

lemma get_cursor_pos_eq: "get_cursor_pos s = (cursor s, s)"
  by (simp add: cursor_regs) (simp add: get_cursor_pos_def Let_def outb_address_def inb_data_def)

lemma cursor_updates [simp]:
  "cursor (s\<lparr>framebuffer := f\<rparr>) = cursor s" "cursor (s\<lparr>foreground := c\<rparr>) = cursor s"
  "cursor (s\<lparr>background := c\<rparr>) = cursor s"
  by (simp_all add: cursor_regs)

lemma bit_0xFF_int: "bit (0xFF :: int) k \<longleftrightarrow> k < 8"
proof -
  have eq: "(0xFF :: int) = mask 8" by (simp add: mask_eq_exp_minus_1)
  show ?thesis unfolding eq by (simp add: bit_mask_iff)
qed

lemma cursor_set [simp]: "cursor (set_cursor_pos s p) = p"
proof (rule bit_word_eqI)
  fix n assume "n < LENGTH(16)"
  then show "bit (cursor (set_cursor_pos s p)) n = bit p n"
    by (cases "n < 8") (auto simp: cursor_regs set_cursor_pos_def Let_def outb_address_def
        outb_data_def bit_simps bit_0xFF_int)
qed

lemma set_cursor_fields [simp]:
  "framebuffer (set_cursor_pos s p) = framebuffer s" "foreground (set_cursor_pos s p) = foreground s"
  "background (set_cursor_pos s p) = background s"
  by (simp_all add: set_cursor_pos_def Let_def outb_address_def outb_data_def)

subsection \<open>What the loops write\<close>

text \<open>The colour byte of the characters written with the current colours.\<close>

definition colours :: "screen \<Rightarrow> u8" where
  "colours s = ucast (push_bit 4 (background s AND 0x0F) OR (foreground s AND 0x0F))"

lemma put_char_fields [simp]:
  "foreground (put_char s i c fg bg) = foreground s" "background (put_char s i c fg bg) = background s"
  "cursor (put_char s i c fg bg) = cursor s"
  by (simp_all add: put_char_def)

lemma put_char_framebuffer:
  "framebuffer (put_char s i c (foreground s) (background s)) =
     (framebuffer s)(2 * i := c, 2 * i + 1 := colours s)"
  by (simp add: put_char_def colours_def)

lemma colours_cong: "foreground t = foreground s \<Longrightarrow> background t = background s \<Longrightarrow> colours t = colours s"
  by (simp add: colours_def)

lemma pad_loop_fields [simp]:
  "foreground (pad_loop s i n) = foreground s \<and> background (pad_loop s i n) = background s
   \<and> cursor (pad_loop s i n) = cursor s"
  by (induction s i n rule: pad_loop.induct) simp_all

lemma pad_loop_framebuffer:
  "framebuffer (pad_loop s i n) j =
     (if 2 * i \<le> j \<and> j < 2 * (i + n) then if even j then 32 else colours s else framebuffer s j)"
proof (induction s i n rule: pad_loop.induct)
  case (2 s i n)
  have "colours (put_char s i 32 (foreground s) (background s)) = colours s"
    by (rule colours_cong) simp_all
  moreover have "j = Suc (2 * i) \<or> j = 2 * i \<or> j < 2 * i \<or> 2 * Suc i \<le> j" by presburger
  ultimately show ?case using 2 by (auto simp: put_char_framebuffer)
qed auto

lemma copy_loop_nth:
  "0 < d \<Longrightarrow> copy_loop fb d i n j = (if i \<le> j \<and> j < i + n then fb (j + d) else fb j)"
  by (induction fb d i n rule: copy_loop.induct) auto

end
