(* ===== verification/Printer_Props.thy ===== *)
theory Printer_Props
  imports Printer
begin

text \<open>
  What \<^verbatim>\<open>printer.c\<close> shows on the screen.  The visible part of the framebuffer is a list of 2000
  cells, a character with its colours each; \<open>type_char\<close> is the terminal that \<^verbatim>\<open>write_char\<close> is meant
  to be, on that list and a cursor below 2000, and the code is shown to implement it.
\<close>

subsection \<open>The terminal\<close>

definition cell :: "screen \<Rightarrow> nat \<Rightarrow> u8 \<times> u8" where
  "cell s i = (framebuffer s (2 * i), framebuffer s (2 * i + 1))"

definition terminal :: "screen \<Rightarrow> (u8 \<times> u8) list \<times> nat" where
  "terminal s = (map (cell s) [0..<2000], unat (cursor s))"

definition fill :: "u8 \<Rightarrow> nat \<Rightarrow> nat \<Rightarrow> (u8 \<times> u8) list \<Rightarrow> (u8 \<times> u8) list" where
  "fill col i j xs = take i xs @ replicate (j - i) (32, col) @ drop j xs"

text \<open>At the end of the screen the lines move up by one and a blank line comes in.\<close>

definition roll :: "u8 \<Rightarrow> (u8 \<times> u8) list \<times> nat \<Rightarrow> (u8 \<times> u8) list \<times> nat" where
  "roll col t = (if snd t = 2000 then (drop 80 (fst t) @ replicate 80 (32, col), 1920) else t)"

text \<open>
  A delete pulls the characters after the cursor one position back; the last position gets
  the cell behind the visible screen, \<open>next\<close>.
\<close>

definition type_char :: "u8 \<Rightarrow> u8 \<times> u8 \<Rightarrow> u8 \<Rightarrow> (u8 \<times> u8) list \<times> nat \<Rightarrow> (u8 \<times> u8) list \<times> nat" where
  "type_char col next c t =
     (let xs = fst t; p = snd t; line = 80 * (p div 80 + 1); tab = 4 * (p div 4 + 1)
      in if c = 0 then t
         else if c = 10 then roll col (fill col p line xs, line)
         else if c = 9 then roll col (fill col p tab xs, tab)
         else if c = 8 then (xs[p - 1 := (32, col)], p - 1)
         else if c = 127 then (take p xs @ drop (p + 1) xs @ [next], p)
         else roll col (xs[p := (c, col)], p + 1))"

definition off_screen :: "screen \<Rightarrow> screen \<Rightarrow> bool" where
  "off_screen s s' \<longleftrightarrow> (\<forall>j\<ge>4000. framebuffer s' j = framebuffer s j)"

subsection \<open>Cells\<close>

lemma cells_eqI:
  assumes "length xs = 2000" "\<And>i. i < 2000 \<Longrightarrow> cell s i = xs ! i"
  shows "map (cell s) [0..<2000] = xs"
  by (rule nth_equalityI) (use assms in auto)

lemma length_cells [simp]: "length (map (cell s) [0..<2000]) = 2000"
  by simp

lemma cell_put_char: "cell (put_char s p c (foreground s) (background s)) i =
    (if i = p then (c, colours s) else cell s i)"
proof -
  have "2 * i \<noteq> Suc (2 * p)" "Suc (2 * i) \<noteq> 2 * p" by presburger+
  then show ?thesis by (auto simp: cell_def put_char_framebuffer)
qed

lemma cell_pad_loop: "cell (pad_loop s p n) i = (if p \<le> i \<and> i < p + n then (32, colours s) else cell s i)"
  by (auto simp: cell_def pad_loop_framebuffer)

lemma cell_copy: "0 < d \<Longrightarrow> cell (s\<lparr>framebuffer := copy_loop (framebuffer s) (2 * d) (2 * p) (2 * n)\<rparr>) i =
    (if p \<le> i \<and> i < p + n then cell s (i + d) else cell s i)"
  by (auto simp: cell_def copy_loop_nth)

lemma unat_u16_of_nat: "n < 65536 \<Longrightarrow> unat (of_nat n :: u16) = n"
  by (simp add: unat_of_nat)

lemma u16_of_nat_eq: "unat (p :: u16) = n \<Longrightarrow> p = of_nat n"
  by auto

lemma unat_line:
  assumes "unat (p :: u16) < 2000" and "0 < k" "k \<le> 80" "unat (of_nat k :: u16) = k"
  shows "unat (of_nat k * (p div of_nat k + 1) :: u16) = k * (unat p div k + 1)"
proof -
  have small: "k * (unat p div k + 1) < 65536"
  proof -
    have "k * (unat p div k) \<le> unat p" by simp
    then show ?thesis unfolding distrib_left mult_1_right using assms(1,3) by linarith
  qed
  have "p div of_nat k = of_nat (unat p div k)"
    by (rule u16_of_nat_eq) (simp add: unat_div_distrib assms(4))
  then have "of_nat k * (p div of_nat k + 1) = (of_nat (k * (unat p div k + 1)) :: u16)"
    by (simp add: algebra_simps)
  then show ?thesis using small by (metis unat_u16_of_nat)
qed

lemma pad_cells:
  "map (cell (pad s p q)) [0..<2000] = fill (colours s) (unat p) (unat q) (map (cell s) [0..<2000])"
  if "unat p \<le> unat q" "unat q \<le> 2000"
proof (rule cells_eqI)
  show "length (fill (colours s) (unat p) (unat q) (map (cell s) [0..<2000])) = 2000"
    using that by (simp add: fill_def)
next
  fix i :: nat assume "i < 2000"
  then show "cell (pad s p q) i = fill (colours s) (unat p) (unat q) (map (cell s) [0..<2000]) ! i"
    using that by (auto simp: pad_def cell_pad_loop fill_def nth_append)
qed


lemma scroll_cells:
  "map (cell (scroll s)) [0..<2000] =
     drop 80 (map (cell s) [0..<2000]) @ replicate 80 (32, colours s)"
proof (rule cells_eqI)
  fix i :: nat assume "i < 2000"
  moreover have "cell (s\<lparr>framebuffer := copy_loop (framebuffer s) (2 * 80) (2 * 0) (2 * 1920)\<rparr>) i =
      (if i < 1920 then cell s (80 + i) else cell s i)" for i
    by (subst cell_copy) (simp_all add: add.commute)
  moreover have "colours (s\<lparr>framebuffer := f\<rparr>) = colours s" for f by (simp add: colours_def)
  ultimately show "cell (scroll s) i =
      (drop 80 (map (cell s) [0..<2000]) @ replicate 80 (32, colours s)) ! i"
    by (auto simp: scroll_def pad_def cell_pad_loop nth_append Let_def)
qed simp

lemma pad_fields [simp]:
  "foreground (pad s p q) = foreground s" "background (pad s p q) = background s"
  "cursor (pad s p q) = cursor s"
  by (simp_all add: pad_def)

lemma scroll_fields [simp]: "cursor (scroll s) = cursor s"
  by (simp add: scroll_def Let_def)

lemma cells_set_cursor [simp]: "cell (set_cursor_pos s p) = cell s"
  by (simp add: cell_def fun_eq_iff)

subsection \<open>Off the screen\<close>

lemma off_screen_refl [simp]: "off_screen s s"
  by (simp add: off_screen_def)

lemma off_screen_trans: "off_screen s t \<Longrightarrow> off_screen t u \<Longrightarrow> off_screen s u"
  by (simp add: off_screen_def)

lemma off_screen_set_cursor [simp]: "off_screen s (set_cursor_pos t p) = off_screen s t"
  by (simp add: off_screen_def)

lemma off_screen_put: "p < 2000 \<Longrightarrow> off_screen s (put_char s p c (foreground s) (background s))"
  by (auto simp: off_screen_def put_char_framebuffer)

lemma off_screen_pad: "unat q \<le> 2000 \<Longrightarrow> off_screen s (pad s p q)"
  by (auto simp: off_screen_def pad_def pad_loop_framebuffer)

lemma off_screen_copy:
  "0 < d \<Longrightarrow> i + n \<le> 4000 \<Longrightarrow> off_screen s (s\<lparr>framebuffer := copy_loop (framebuffer s) d i n\<rparr>)"
  by (auto simp: off_screen_def copy_loop_nth)

lemma off_screen_scroll: "off_screen s (scroll s)"
  unfolding scroll_def Let_def
  by (rule off_screen_trans [OF off_screen_copy off_screen_pad]) simp_all

subsection \<open>Refinement\<close>

text \<open>The end of \<^verbatim>\<open>write_char\<close>: scrolling when the cursor has left the screen.\<close>

definition finish_char :: "u16 \<times> screen \<Rightarrow> screen" where
  "finish_char ps = (let (p, s) = (if fst ps = 2000 then (fst ps - 80, scroll (snd ps)) else ps)
     in set_cursor_pos s p)"

lemma terminal_finish:
  assumes "unat p \<le> 2000" "map (cell t) [0..<2000] = xs"
  shows "terminal (finish_char (p, t)) = roll (colours t) (xs, unat p)"
proof (cases "p = 2000")
  case True
  then show ?thesis
    using scroll_cells [of t] assms(2) by (simp add: finish_char_def terminal_def roll_def)
next
  case False
  then have "unat p \<noteq> 2000" by (metis u16_of_nat_eq of_nat_numeral)
  then show ?thesis using False assms by (simp add: finish_char_def terminal_def roll_def)
qed

lemma finish_on_screen:
  assumes "unat p \<le> 2000" "off_screen s t"
  shows "off_screen s (finish_char (p, t)) \<and> unat (cursor (finish_char (p, t))) < 2000"
proof (cases "p = 2000")
  case True
  then show ?thesis using off_screen_trans [OF assms(2) off_screen_scroll]
    by (simp add: finish_char_def)
next
  case False
  then have "unat p \<noteq> 2000" by (metis u16_of_nat_eq of_nat_numeral)
  then show ?thesis using False assms by (simp add: finish_char_def)
qed


lemma write_char_finish:
  "write_char s c =
     (if c = 0 then s
      else if c = 10 then
        finish_char (80 * (cursor s div 80 + 1), pad s (cursor s) (80 * (cursor s div 80 + 1)))
      else if c = 9 then
        finish_char (4 * (cursor s div 4 + 1), pad s (cursor s) (4 * (cursor s div 4 + 1)))
      else if c = 8 then
        finish_char (cursor s - 1,
          put_char s (unat (cursor s - 1)) 32 (foreground s) (background s))
      else if c = 127 then
        finish_char (cursor s, s\<lparr>framebuffer :=
          copy_loop (framebuffer s) 2 (2 * unat (cursor s)) (4000 - 2 * unat (cursor s))\<rparr>)
      else finish_char (cursor s + 1,
        put_char s (unat (cursor s)) c (foreground s) (background s)))"
  by (simp add: write_char_def get_cursor_pos_eq Let_def finish_char_def split_def)

lemma step_bounds:
  assumes "unat (cursor s) < 2000"
  shows "unat (80 * (cursor s div 80 + 1)) = 80 * (unat (cursor s) div 80 + 1)"
    "80 * (unat (cursor s) div 80 + 1) \<le> 2000"
    "unat (4 * (cursor s div 4 + 1)) = 4 * (unat (cursor s) div 4 + 1)"
    "4 * (unat (cursor s) div 4 + 1) \<le> 2000"
    "unat (cursor s + 1) = unat (cursor s) + 1"
proof -
  show "unat (80 * (cursor s div 80 + 1)) = 80 * (unat (cursor s) div 80 + 1)"
    using unat_line [OF assms, of 80] by simp
  show "unat (4 * (cursor s div 4 + 1)) = 4 * (unat (cursor s) div 4 + 1)"
    using unat_line [OF assms, of 4] by simp
  have "unat (cursor s) div 80 < 25" "unat (cursor s) div 4 < 500"
    using assms by (simp_all add: less_mult_imp_div_less)
  then show "80 * (unat (cursor s) div 80 + 1) \<le> 2000" and "4 * (unat (cursor s) div 4 + 1) \<le> 2000"
    by simp_all
  have "unat (of_nat (unat (cursor s) + 1) :: u16) = unat (cursor s) + 1"
    using assms by (intro unat_u16_of_nat) simp
  then show "unat (cursor s + 1) = unat (cursor s) + 1" by (simp add: add.commute)
qed

lemma le_step: "(p :: nat) \<le> k * (p div k + 1)" if "0 < k"
  using dividend_less_times_div [OF that, of p] by simp

lemma unat_pred: "unat (p - 1 :: u16) = unat p - 1" if "p \<noteq> 0"
proof -
  have "unat p \<noteq> 0" using that by (simp add: unat_eq_0)
  then have "of_nat (unat p - 1) = (p - 1 :: u16)" by (simp add: of_nat_diff)
  moreover have "unat p < 65536" using unsigned_less [where ?'a = nat, of p] by simp
  ultimately show ?thesis using unat_u16_of_nat [of "unat p - 1"] by simp
qed

lemma cells_put_char:
  "map (cell (put_char s p c (foreground s) (background s))) [0..<2000] =
     (map (cell s) [0..<2000])[p := (c, colours s)]"
  by (rule cells_eqI) (simp_all add: cell_put_char nth_list_update)

lemma cells_delete:
  assumes "p < 2000"
  shows "map (cell (s\<lparr>framebuffer := copy_loop (framebuffer s) 2 (2 * p) (4000 - 2 * p)\<rparr>)) [0..<2000] =
    take p (map (cell s) [0..<2000]) @ drop (p + 1) (map (cell s) [0..<2000]) @ [cell s 2000]"
proof (rule cells_eqI)
  fix i :: nat assume "i < 2000"
  moreover have "4000 - 2 * p = 2 * (2000 - p)" by simp
  ultimately show "cell (s\<lparr>framebuffer := copy_loop (framebuffer s) 2 (2 * p) (4000 - 2 * p)\<rparr>) i =
      (take p (map (cell s) [0..<2000]) @ drop (p + 1) (map (cell s) [0..<2000]) @ [cell s 2000]) ! i"
    using assms cell_copy [of 1 s p "2000 - p" i]
    by (cases "i = 1999") (auto simp: nth_append less_Suc_eq)
qed (use assms in simp)

lemma colours_put_pad [simp]:
  "colours (put_char s i c fg bg) = colours s" "colours (pad s p q) = colours s"
  "colours (s\<lparr>framebuffer := f\<rparr>) = colours s"
  by (simp_all add: colours_def)

lemma write_char_on_screen:
  assumes "unat (cursor s) < 2000" "c = 8 \<Longrightarrow> cursor s \<noteq> 0"
  shows "off_screen s (write_char s c) \<and> unat (cursor (write_char s c)) < 2000"
proof -
  note b = step_bounds [OF assms(1)]
  let ?ok = "\<lambda>u. off_screen s u \<and> unat (cursor u) < 2000"
  have line: "?ok (finish_char (80 * (cursor s div 80 + 1), pad s (cursor s) (80 * (cursor s div 80 + 1))))"
    using b(2) unfolding b(1) [symmetric] by (intro finish_on_screen off_screen_pad) assumption+
  have tab: "?ok (finish_char (4 * (cursor s div 4 + 1), pad s (cursor s) (4 * (cursor s div 4 + 1))))"
    using b(4) unfolding b(3) [symmetric] by (intro finish_on_screen off_screen_pad) assumption+
  have bs: "?ok (finish_char (cursor s - 1,
      put_char s (unat (cursor s - 1)) 32 (foreground s) (background s)))" if "c = 8"
    using assms(1) unat_pred [OF assms(2) [OF that]]
    by (intro finish_on_screen off_screen_put) linarith+
  have del: "?ok (finish_char (cursor s, s\<lparr>framebuffer :=
      copy_loop (framebuffer s) 2 (2 * unat (cursor s)) (4000 - 2 * unat (cursor s))\<rparr>))"
    using assms(1) by (intro finish_on_screen off_screen_copy) simp_all
  have other: "?ok (finish_char (cursor s + 1, put_char s (unat (cursor s)) c (foreground s) (background s)))"
    using assms(1) b(5) by (intro finish_on_screen off_screen_put) simp_all
  show ?thesis
    unfolding write_char_finish using assms(1) line tab bs del other
    by (simp only: off_screen_refl split: if_split) blast
qed

lemma terminal_write_char:
  assumes "unat (cursor s) < 2000" "c = 8 \<Longrightarrow> cursor s \<noteq> 0"
  shows "terminal (write_char s c) = type_char (colours s) (cell s 2000) c (terminal s)"
proof -
  note b = step_bounds [OF assms(1)]
  let ?xs = "map (cell s) [0..<2000]" and ?p = "unat (cursor s)"
  have line: "terminal (finish_char (80 * (cursor s div 80 + 1), pad s (cursor s) (80 * (cursor s div 80 + 1))))
      = roll (colours s) (fill (colours s) ?p (80 * (?p div 80 + 1)) ?xs, 80 * (?p div 80 + 1))"
    using b le_step [of 80 ?p] by (subst terminal_finish [OF _ pad_cells]) simp_all
  have tab: "terminal (finish_char (4 * (cursor s div 4 + 1), pad s (cursor s) (4 * (cursor s div 4 + 1))))
      = roll (colours s) (fill (colours s) ?p (4 * (?p div 4 + 1)) ?xs, 4 * (?p div 4 + 1))"
    using b le_step [of 4 ?p] by (subst terminal_finish [OF _ pad_cells]) simp_all
  have bs: "terminal (finish_char (cursor s - 1,
        put_char s (unat (cursor s - 1)) 32 (foreground s) (background s)))
      = (?xs[?p - 1 := (32, colours s)], ?p - 1)" if "c = 8"
    using assms(1) unat_pred [OF assms(2) [OF that]]
    by (subst terminal_finish [OF _ cells_put_char]) (simp_all add: roll_def)
  have del: "terminal (finish_char (cursor s, s\<lparr>framebuffer :=
        copy_loop (framebuffer s) 2 (2 * ?p) (4000 - 2 * ?p)\<rparr>))
      = (take ?p ?xs @ drop (?p + 1) ?xs @ [cell s 2000], ?p)"
    using assms(1) by (subst terminal_finish [OF _ cells_delete]) (simp_all add: roll_def)
  have other: "terminal (finish_char (cursor s + 1,
        put_char s ?p c (foreground s) (background s)))
      = roll (colours s) (?xs[?p := (c, colours s)], ?p + 1)"
    using assms(1) b by (subst terminal_finish [OF _ cells_put_char]) simp_all
  have t: "terminal s = (?xs, ?p)" by (simp add: terminal_def)
  show ?thesis
    unfolding write_char_finish if_distrib [of terminal] line tab del other t
      type_char_def Let_def fst_conv snd_conv using bs by simp
qed


subsection \<open>Properties\<close>

text \<open>C26: \<^verbatim>\<open>write_char\<close> is a terminal on the 25 lines of 80 characters: on every character but a
  backspace at the first position, the visible cells and the cursor afterwards are those of
  \<open>type_char\<close> (newline, tabulator, backspace, delete, ordinary characters, and the lines
  moving up when the last position is filled).\<close>
theorem write_char_refines_terminal:
  assumes "unat (cursor s) < 2000" "c = 8 \<longrightarrow> cursor s \<noteq> 0"
  shows "terminal (write_char s c) = type_char (colours s) (cell s 2000) c (terminal s)"
  using assms terminal_write_char by blast

theorem write_char_refines_terminal_witness:
  defines "s \<equiv> set_cursor_pos \<lparr>framebuffer = (\<lambda>_. 0), address_reg = 0, crt_regs = (\<lambda>_. 0),
    foreground = 15, background = 0\<rparr> 1999"
  shows "unat (cursor s) < 2000 \<and> cursor s \<noteq> 0
    \<and> terminal (write_char s 65) = type_char (colours s) (cell s 2000) 65 (terminal s)"
  using write_char_refines_terminal [of s 65] by (simp add: s_def)

lemma utf8_char_in: "utf8_char t n b = Inr d \<Longrightarrow> d \<in> set t"
  by (auto simp: utf8_char_def split: if_splits)

lemma write_string_step:
  assumes "write_string s (c # cs) = Inr s'"
  obtains "s' = s"
  | d cs' where "d = c \<or> d \<in> set utf8_c2 \<or> d \<in> set utf8_c3" "set cs' \<subseteq> set cs"
      "length cs' \<le> length cs" "write_string (write_char s d) cs' = Inr s'"
proof -
  consider "c = 0" | "c = 0xC2" | "c = 0xC3" | "c \<noteq> 0" "c \<noteq> 0xC2" "c \<noteq> 0xC3" by blast
  then show thesis
  proof cases
    case 1 then show thesis using assms that(1) by simp
  next
    case 2
    then obtain b cs' d where "cs = b # cs'" "utf8_char utf8_c2 0xA1 b = Inr d"
      "write_string (write_char s d) cs' = Inr s'"
      using assms by (cases cs) (simp_all add: bindE_eq_Inr, blast)
    then show thesis using that(2) [of d cs'] utf8_char_in by auto
  next
    case 3
    then obtain b cs' d where "cs = b # cs'" "utf8_char utf8_c3 0x80 b = Inr d"
      "write_string (write_char s d) cs' = Inr s'"
      using assms by (cases cs) (simp_all add: bindE_eq_Inr, blast)
    then show thesis using that(2) [of d cs'] utf8_char_in by auto
  next
    case 4 then show thesis using assms that(2) [of c cs] by simp
  qed
qed

lemma write_string_on_screen:
  "write_string s cs = Inr s' \<Longrightarrow> 8 \<notin> set cs \<Longrightarrow> unat (cursor s) < 2000 \<Longrightarrow>
     off_screen s s' \<and> unat (cursor s') < 2000"
proof (induction "length cs" arbitrary: s cs rule: less_induct)
  case less
  show ?case
  proof (cases cs)
    case Nil
    then show ?thesis using less.prems by simp
  next
    case (Cons c cs')
    have tables: "8 \<notin> set utf8_c2" "8 \<notin> set utf8_c3" by (simp_all add: utf8_c2_def utf8_c3_def)
    from less.prems(1) [unfolded Cons] show ?thesis
    proof (cases rule: write_string_step)
      case 1
      then show ?thesis using less.prems by simp
    next
      case (2 d cs'')
      then have "d \<noteq> 8" using less.prems(2) Cons tables by auto
      then have step: "off_screen s (write_char s d) \<and> unat (cursor (write_char s d)) < 2000"
        using write_char_on_screen [OF less.prems(3)] by blast
      then have "off_screen (write_char s d) s' \<and> unat (cursor s') < 2000"
        using less.hyps [of cs''] 2 less.prems(2) Cons by fastforce
      then show ?thesis using step off_screen_trans by blast
    qed
  qed
qed

text \<open>C27: Printing a string without backspaces never writes outside the visible screen, and
  leaves the cursor on it; in particular the two-byte characters are translated by the
  tables to characters that keep to it.\<close>
theorem write_string_stays_on_screen:
  assumes "write_string s cs = Inr s'" "8 \<notin> set cs" "unat (cursor s) < 2000"
  shows "unat (cursor s') < 2000 \<and> (\<forall>j\<ge>4000. framebuffer s' j = framebuffer s j)"
  using write_string_on_screen [OF assms] by (simp add: off_screen_def)

theorem write_string_stays_on_screen_witness:
  defines "s \<equiv> set_cursor_pos \<lparr>framebuffer = (\<lambda>_. 0), address_reg = 0, crt_regs = (\<lambda>_. 0),
    foreground = 15, background = 0\<rparr> 1998"
  shows "\<exists>s'. write_string s [72, 0xC3, 0xA9, 10] = Inr s' \<and> unat (cursor s') < 2000
    \<and> framebuffer s' 4000 = framebuffer s 4000"
proof -
  have ok: "write_string s [72, 0xC3, 0xA9, 10] = Inr (write_char (write_char (write_char s 72) 130) 10)"
    by (simp add: utf8_char_def utf8_c3_def)
  show ?thesis
    using write_string_stays_on_screen [OF ok] ok by (simp add: s_def)
qed

text \<open>C28: A backspace at the first position does leave the screen: the position wraps around to
  65535, a blank is written far behind the framebuffer and the cursor stays at 65535.\<close>
theorem backspace_leaves_screen:
  assumes "cursor s = 0"
  shows "cursor (write_char s 8) = 65535 \<and> framebuffer (write_char s 8) 131070 = 32"
proof -
  have "unat (- 1 :: u16) = 65535" by (simp add: unsigned_minus_1_eq_mask mask_eq_exp_minus_1)
  then show ?thesis using assms by (simp add: write_char_finish finish_char_def put_char_def)
qed

theorem backspace_leaves_screen_witness:
  defines "s \<equiv> set_cursor_pos \<lparr>framebuffer = (\<lambda>_. 0), address_reg = 0, crt_regs = (\<lambda>_. 0),
    foreground = 15, background = 0\<rparr> 0"
  shows "cursor s = 0 \<and> cursor (write_char s 8) = 65535 \<and> framebuffer (write_char s 8) 131070 = 32"
  using backspace_leaves_screen [of s] by (simp add: s_def)


lemma nlen_bound_16: "n < 2 ^ 32 \<Longrightarrow> nlen 16 n \<le> 8"
proof (rule ccontr)
  assume n: "n < 2 ^ 32" and "\<not> nlen 16 n \<le> 8"
  then have "(16 :: nat) ^ 8 \<le> 16 ^ (nlen 16 n - 1)" by (intro power_increasing) auto
  then show False using nlen_bounds(2) [of 16 n] n \<open>\<not> nlen 16 n \<le> 8\<close> by simp
qed

lemma digit_to_char_nonzero: "d < 16 \<Longrightarrow> digit_to_char (of_nat d) \<noteq> 0"
  using char_value_digit [of d] by (cases "d = 0") (auto simp: char_value_def digit_to_char_def)

lemma dig_nonzero: "0 \<notin> set (dig 16 i n)"
proof (induction i arbitrary: n)
  case (Suc i)
  then show ?case using digit_to_char_nonzero [of "n mod 16"] by (simp add: eq_commute [of 0])
qed simp

lemma text_of_string: "0 \<notin> set cs \<Longrightarrow> text_of (cs @ 0 # xs) = cs"
  unfolding text_of_def by (subst takeWhile_append2) auto

text \<open>The padded hexadecimal conversion of \<^verbatim>\<open>writef\<close>, for a number of \<open>n\<close> digits and a
  minimal length \<open>m\<close>: when \<open>m\<close> is more than \<open>n\<close> the code writes \<open>m - n - 1\<close> zeros, one less than asked
  for, and when \<open>m\<close> is at most \<open>n\<close> the unsigned count wraps around, to \<open>2 ^ 32 + m - n - 1\<close> zeros.\<close>
theorem hex_padding_count:
  fixes hex m :: u32
  defines "n \<equiv> nlen 16 (unat hex)"
  shows "write_conversion s 88 (Word_Arg hex # Word_Arg m # args) =
    bindE (write_string s [48, 120]) (\<lambda>s.
    bindE (write_string (write_zeros s (if n < unat m then unat m - n - 1 else 2 ^ 32 + unat m - n - 1))
      (dig 16 n (unat hex))) (\<lambda>s. Inr (s, args)))"
proof -
  have n: "n \<le> 8" unfolding n_def by (rule nlen_bound_16 [OF unat_u32_less])
  have str: "u_int_to_string (replicate k 0) hex 16 = Inr (n + 1, dig 16 n (unat hex) @ 0 # drop (n + 1) (replicate k 0))"
    if "8 < k" for k
    using u_int_to_string_dig [of 16 hex "replicate k 0"] n that unfolding n_def by simp
  have "unat (m - of_nat (n + 1)) = (if n < unat m then unat m - n - 1 else 2 ^ 32 + unat m - n - 1)"
  proof (cases "n < unat m")
    case True
    then have "of_nat (unat m - (n + 1)) = m - of_nat (n + 1)" by (simp add: of_nat_diff)
    then show ?thesis using True unat_of_nat_u32 [of "unat m - (n + 1)"] unat_u32_less [of m] by simp
  next
    case False
    have "(of_nat (2 ^ 32 + unat m - (n + 1)) :: u32) = of_nat (2 ^ 32) + m - of_nat (n + 1)"
      using n by (simp add: of_nat_diff del: of_nat_power)
    moreover have "(of_nat (2 ^ 32) :: u32) = 0" by simp
    ultimately have "of_nat (2 ^ 32 + unat m - (n + 1)) = m - of_nat (n + 1)" by simp
    moreover have "2 ^ 32 + unat m - (n + 1) < 2 ^ 32" using False by simp
    ultimately have "unat (m - of_nat (n + 1)) = 2 ^ 32 + unat m - (n + 1)"
      using unat_of_nat_u32 by metis
    then show ?thesis using False by simp
  qed
  moreover have "max_c 0 w = w" for w :: u32 by (simp add: max_c_def)
  ultimately show ?thesis
    unfolding write_conversion_def
    by (simp add: pop_word_def str text_of_string dig_nonzero Let_def)
qed


subsection \<open>Boxes\<close>

lemma PUT_CHAR_nat:
  "80 * r + c < 65536 \<Longrightarrow>
     PUT_CHAR s (int r) (int c) ch = put_char s (80 * r + c) ch (foreground s) (background s)"
proof -
  assume "80 * r + c < 65536"
  moreover have "(word_of_int (int r * 80 + int c) :: u16) = of_nat (80 * r + c)"
    by (simp add: mult.commute)
  ultimately show ?thesis unfolding PUT_CHAR_def by (simp only: unat_u16_of_nat)
qed

lemma PUT_CHAR_fields [simp]:
  "foreground (PUT_CHAR s r c ch) = foreground s" "background (PUT_CHAR s r c ch) = background s"
  "colours (PUT_CHAR s r c ch) = colours s"
  by (simp_all add: PUT_CHAR_def)

lemma cell_PUT_CHAR: "80 * r + c < 65536 \<Longrightarrow>
    cell (PUT_CHAR s (int r) (int c) ch) i = (if i = 80 * r + c then (ch, colours s) else cell s i)"
  by (simp only: PUT_CHAR_nat cell_put_char)

lemma colours_box_row [simp]: "colours (box_row s r c n) = colours s"
  by (induction s r c n rule: box_row.induct) simp_all

lemma colours_box_column [simp]: "colours (box_column s r c n) = colours s"
  by (induction s r c n rule: box_column.induct) simp_all

lemma cell_box_row:
  "80 * r + c + n < 65536 \<Longrightarrow> cell (box_row s (int r) (int c) n) i =
     (if 80 * r + c \<le> i \<and> i < 80 * r + c + n then (205, colours s) else cell s i)"
proof (induction n arbitrary: s c)
  case (Suc n)
  have "cell (box_row s (int r) (int c) (Suc n)) i =
      cell (box_row (PUT_CHAR s (int r) (int c) 205) (int r) (int (Suc c)) n) i" by (simp add: add.commute)
  also have "\<dots> = (if 80 * r + Suc c \<le> i \<and> i < 80 * r + Suc c + n then (205, colours s)
      else cell (PUT_CHAR s (int r) (int c) 205) i)"
    using Suc.prems by (subst Suc.IH) simp_all
  finally show ?case using Suc.prems by (auto simp: cell_PUT_CHAR)
qed auto

lemma cell_box_column:
  "80 * r + c < 65536 \<Longrightarrow> n \<le> r \<Longrightarrow> cell (box_column s (int r) (int c) n) i =
     (if \<exists>k<n. i = 80 * (r - k) + c then (186, colours s) else cell s i)"
proof (induction n arbitrary: s r)
  case (Suc n)
  have "int r - 1 = int (r - 1)" using Suc.prems by simp
  then have "cell (box_column s (int r) (int c) (Suc n)) i =
      cell (box_column (PUT_CHAR s (int r) (int c) 186) (int (r - 1)) (int c) n) i"
    by (simp only: box_column.simps)
  also have "\<dots> = (if \<exists>k<n. i = 80 * (r - 1 - k) + c then (186, colours s)
      else cell (PUT_CHAR s (int r) (int c) 186) i)"
    using Suc.prems by (subst Suc.IH) auto
  also have "\<dots> = (if \<exists>k<Suc n. i = 80 * (r - k) + c then (186, colours s) else cell s i)"
    unfolding Ex_less_Suc2 using Suc.prems by (auto simp: cell_PUT_CHAR)
  finally show ?case .
qed simp

lemma box_rows_twice:
  assumes "upper_row < lower_row"
  shows "box_rows s lower_row upper_row lower_row left_col right_col =
    (let bar = (\<lambda>s row. box_row s row (left_col + 1) (nat (right_col - (left_col + 1))))
     in Some (bar (bar s lower_row) upper_row))"
  using assms by (simp add: box_rows.simps [of _ lower_row] box_rows.simps [of _ upper_row]
      box_rows.simps [of _ "2 * upper_row - lower_row"] Let_def)

lemma box_columns_twice:
  assumes "left_col < right_col"
  shows "box_columns s left_col upper_row lower_row left_col right_col =
    (let bar = (\<lambda>s col. box_column s (lower_row + 1) col (nat (lower_row + 1 - upper_row)))
     in Some (bar (bar s left_col) right_col))"
  using assms by (simp add: box_columns.simps [of _ left_col] box_columns.simps [of _ right_col]
      box_columns.simps [of _ "2 * right_col - left_col"] Let_def)

lemma row_and_column:
  assumes "r < 800" "c < 80"
  shows "uint (of_nat (80 * r + c) div 80 :: u16) = int r" "uint (of_nat (80 * r + c) mod 80 :: u16) = int c"
proof -
  have "unat (of_nat (80 * r + c) :: u16) = 80 * r + c"
    by (rule unat_u16_of_nat) (use assms in linarith)
  then have u: "uint (of_nat (80 * r + c) :: u16) = int (80 * r + c)" by (simp only: uint_nat)
  show "uint (of_nat (80 * r + c) div 80 :: u16) = int r" "uint (of_nat (80 * r + c) mod 80 :: u16) = int c"
    unfolding uint_div_distrib uint_mod_distrib u using assms by simp_all
qed

lemma position_eq:
  assumes "c < 80" "c' < (80 :: nat)"
  shows "80 * r + c = 80 * r' + c' \<longleftrightarrow> r = r' \<and> c = c'"
proof
  assume eq: "80 * r + c = 80 * r' + c'"
  have "(80 * r + c) div 80 = r" "(80 * r' + c') div 80 = r'" using assms by simp_all
  then show "r = r' \<and> c = c'" using eq by simp
qed simp

lemma position_between:
  assumes "c < 80" "c1 < c2" "c2 < (80 :: nat)"
  shows "80 * r' + (c1 + 1) \<le> 80 * r + c \<and> 80 * r + c < 80 * r' + (c1 + 1) + (c2 - (c1 + 1))
    \<longleftrightarrow> r = r' \<and> c1 < c \<and> c < c2"
  using assms by (cases r r' rule: linorder_cases) auto

lemma position_column:
  assumes "c < 80" "c' < 80" "r1 \<le> r2"
  shows "(\<exists>k < r2 + 1 - r1. 80 * r + c = 80 * (r2 + 1 - k) + c') \<longleftrightarrow> c = (c' :: nat) \<and> r1 < r \<and> r \<le> r2 + 1"
proof
  assume "c = c' \<and> r1 < r \<and> r \<le> r2 + 1"
  then show "\<exists>k < r2 + 1 - r1. 80 * r + c = 80 * (r2 + 1 - k) + c'"
    by (intro exI [of _ "r2 + 1 - r"]) auto
qed (use assms position_eq in auto)

text \<open>C29: Drawing a box over the rows \<open>r1 < r2\<close> and the columns \<open>c1 < c2\<close> ends, and sets exactly its
  four corners, its two horizontal bars and its two vertical bars, which reach one row
  below the lower corners, into row \<open>r2 + 1\<close>.\<close>
theorem write_box_draws:
  assumes "r1 < r2" "r2 < 800" "c1 < c2" "c2 < 80"
  shows "\<exists>s'. write_box s (of_nat (80 * r1 + c1)) (of_nat (80 * r2 + c2)) = Inr s' \<and>
    (\<forall>r c. c < 80 \<longrightarrow> cell s' (80 * r + c) =
       (if (r, c) = (r1, c1) then (201, colours s)
        else if (r, c) = (r1, c2) then (187, colours s)
        else if (r, c) = (r2, c1) then (200, colours s)
        else if (r, c) = (r2, c2) then (188, colours s)
        else if c \<in> {c1, c2} \<and> r1 < r \<and> r \<le> r2 + 1 then (186, colours s)
        else if r \<in> {r1, r2} \<and> c1 < c \<and> c < c2 then (205, colours s)
        else cell s (80 * r + c)))"
proof -
  define n m where "n = c2 - (c1 + 1)" and "m = r2 + 1 - r1"
  define t1 where "t1 = box_row (box_row s (int r2) (int (c1 + 1)) n) (int r1) (int (c1 + 1)) n"
  define t2 where "t2 = box_column (box_column t1 (int (r2 + 1)) (int c1) m) (int (r2 + 1)) (int c2) m"
  define t3 where "t3 = PUT_CHAR (PUT_CHAR (PUT_CHAR (PUT_CHAR t2 (int r1) (int c1) 201) (int r1) (int c2) 187)
    (int r2) (int c1) 200) (int r2) (int c2) 188"
  have rc: "uint (of_nat (80 * r1 + c1) div 80 :: u16) = int r1" "uint (of_nat (80 * r2 + c2) div 80 :: u16) = int r2"
    "uint (of_nat (80 * r1 + c1) mod 80 :: u16) = int c1" "uint (of_nat (80 * r2 + c2) mod 80 :: u16) = int c2"
    using row_and_column [of r1 c1] row_and_column [of r2 c2] assms by auto
  have n: "nat (int c2 - int (c1 + 1)) = n" "nat (int (r2 + 1) - int r1) = m"
    unfolding n_def m_def by auto
  have i: "int c1 + 1 = int (c1 + 1)" "int r2 + 1 = int (r2 + 1)" by simp_all
  have lt: "int r1 < int r2" "int c1 < int c2" using assms by simp_all
  have "write_box s (of_nat (80 * r1 + c1)) (of_nat (80 * r2 + c2)) = Inr t3"
    unfolding write_box_def Let_def rc box_rows_twice [OF lt(1), unfolded Let_def]
      box_columns_twice [OF lt(2), unfolded Let_def] of_option_simps bindE_Inr i n
      t1_def [symmetric] t2_def [symmetric] t3_def [symmetric] ..
  moreover have "cell t3 (80 * r + c) =
       (if (r, c) = (r1, c1) then (201, colours s)
        else if (r, c) = (r1, c2) then (187, colours s)
        else if (r, c) = (r2, c1) then (200, colours s)
        else if (r, c) = (r2, c2) then (188, colours s)
        else if c \<in> {c1, c2} \<and> r1 < r \<and> r \<le> r2 + 1 then (186, colours s)
        else if r \<in> {r1, r2} \<and> c1 < c \<and> c < c2 then (205, colours s)
        else cell s (80 * r + c))" if "c < 80" for r c
  proof -
    have b: "80 * r1 + c1 < 65536" "80 * r1 + c2 < 65536" "80 * r2 + c1 < 65536" "80 * r2 + c2 < 65536"
      "80 * (r2 + 1) + c1 < 65536" "80 * (r2 + 1) + c2 < 65536" "m \<le> r2 + 1"
      "80 * r1 + (c1 + 1) + n < 65536" "80 * r2 + (c1 + 1) + n < 65536"
      using assms unfolding n_def m_def by simp_all
    have c: "c1 < 80" "c2 < 80" "r1 \<le> r2" using assms by simp_all
    note pos = position_eq [OF that c(1)] position_eq [OF that c(2)]
    note bars = position_column [OF that c(1) c(3)] position_column [OF that c(2) c(3)]
      position_between [OF that assms(3,4)]
    have col: "colours t1 = colours s" "colours t2 = colours s" unfolding t1_def t2_def by simp_all
    have 1: "cell t1 (80 * r + c) = (if r \<in> {r1, r2} \<and> c1 < c \<and> c < c2 then (205, colours s) else cell s (80 * r + c))"
      unfolding t1_def cell_box_row [OF b(8)] cell_box_row [OF b(9)] colours_box_row unfolding n_def bars by auto
    have 2: "cell t2 (80 * r + c) = (if c \<in> {c1, c2} \<and> r1 < r \<and> r \<le> r2 + 1 then (186, colours s) else cell t1 (80 * r + c))"
      unfolding t2_def cell_box_column [OF b(5,7)] cell_box_column [OF b(6,7)] colours_box_column col
      unfolding m_def bars by auto
    show ?thesis
      unfolding t3_def cell_PUT_CHAR [OF b(1)] cell_PUT_CHAR [OF b(2)] cell_PUT_CHAR [OF b(3)]
        cell_PUT_CHAR [OF b(4)] PUT_CHAR_fields col pos 1 2 using assms by auto
  qed
  ultimately show ?thesis by blast
qed


theorem write_box_draws_witness:
  defines "s \<equiv> set_cursor_pos \<lparr>framebuffer = (\<lambda>_. 0), address_reg = 0, crt_regs = (\<lambda>_. 0),
    foreground = 15, background = 0\<rparr> 0"
  shows "\<exists>s'. write_box s (of_nat (80 * 2 + 10)) (of_nat (80 * 4 + 20)) = Inr s'
    \<and> cell s' (80 * 5 + 10) = (186, 15)"
proof -
  obtain s' where s': "write_box s (of_nat (80 * 2 + 10)) (of_nat (80 * 4 + 20)) = Inr s'"
    and cells: "\<forall>r c. c < 80 \<longrightarrow> cell s' (80 * r + c) =
       (if (r, c) = (2, 10) then (201, colours s)
        else if (r, c) = (2, 20) then (187, colours s)
        else if (r, c) = (4, 10) then (200, colours s)
        else if (r, c) = (4, 20) then (188, colours s)
        else if c \<in> {10, 20} \<and> 2 < r \<and> r \<le> 4 + 1 then (186, colours s)
        else if r \<in> {2, 4} \<and> 10 < c \<and> c < 20 then (205, colours s)
        else cell s (80 * r + c))"
    using write_box_draws [of 2 4 10 20 s] by auto
  have "colours s = 15" by (simp add: s_def colours_def)
  then show ?thesis using s' cells [rule_format, of 10 5] by (intro exI [of _ s']) simp
qed

end
