(* ===== verification/Descriptors.thy ===== *)
theory Descriptors
  imports Prelude
begin

text \<open>
  \<^verbatim>\<open>gdt.c\<close>, \<^verbatim>\<open>idt.c\<close>, the installation parts of \<^verbatim>\<open>isr.c\<close> and \<^verbatim>\<open>irq.c\<close>, and \<^verbatim>\<open>timer.c\<close>: the segment descriptors, the
  interrupt gates, the controller's initialisation and the tables of handlers.  The addresses
  of the assembly stubs (\<^verbatim>\<open>isr0\<close>, \<open>\<dots>\<close>, \<^verbatim>\<open>irq0\<close>, \<open>\<dots>\<close>) and of the objects are arguments.  Writes to ports are
  kept in order in \<open>ports_out\<close>.
\<close>

subsection \<open>State\<close>

record gdt_entry =
  limit_low :: u16
  base_low :: u16
  base_middle :: u8
  access :: bool
  read_write :: bool
  dir_conform :: bool
  executable :: bool
  always_one :: bool
  privilege :: nat
  g_present :: bool
  limit_high :: nat
  available :: bool
  always_zero :: bool
  seg_size :: bool
  granularity :: bool
  base_high :: u8

record idt_entry =
  address_low :: u16
  selector :: u16
  gate_type :: nat
  storage :: bool
  dpl :: nat
  i_present :: bool
  address_high :: u16

datatype irq_routine = Timer_handler | Timer_handler_dummy | Keyboard_handler | Keyboard_shell_handler

record descriptors =
  gdt :: "gdt_entry list"
  current_entry :: nat
  NULL_SEGMENT :: u32
  KERNEL_CODE_SEGMENT :: u32
  KERNEL_DATA_SEGMENT :: u32
  KERNEL_STACK_SEGMENT :: u32
  USER_CODE_SEGMENT :: u32
  USER_DATA_SEGMENT :: u32
  USER_STACK_SEGMENT :: u32
  TSS_SEGMENT :: u32
  ss0 :: u32
  esp0 :: u32
  gdt_limit :: u16
  gdt_base :: u32
  idt :: "idt_entry list"
  idt_limit :: u16
  idt_base :: u32
  irq_routines :: "irq_routine option list"
  timer_ticks :: u32
  ports_out :: "(u16 \<times> u8) list"

abbreviation (input) GDT_SIZE :: nat where "GDT_SIZE \<equiv> 8"

definition outb :: "descriptors \<Rightarrow> u16 \<Rightarrow> u8 \<Rightarrow> descriptors" where
  "outb d port v = d\<lparr>ports_out := ports_out d @ [(port, v)]\<rparr>"

subsection \<open>Segments\<close>

text \<open>
  The new descriptor and its selector.  The fields have the widths of the structure: the
  limit keeps 20 bits of the argument, the privilege 2.
\<close>

definition add_segment :: "descriptors \<Rightarrow> u32 \<Rightarrow> u32 \<Rightarrow> bool \<Rightarrow> nat \<Rightarrow> (u32 \<times> descriptors) result" where
  "add_segment d base limit code ring =
     (if current_entry d = GDT_SIZE then Inl (Throw ''Too many segments!'')
      else let e = \<lparr>limit_low = ucast (limit AND 0xFFFF), base_low = ucast (base AND 0xFFFF),
                   base_middle = ucast (drop_bit 16 base AND 0xFF),
                   access = False, read_write = True, dir_conform = False, executable = code,
                   always_one = True, privilege = ring mod 4, g_present = (base \<noteq> limit),
                   limit_high = unat (drop_bit 16 limit AND 0xF), available = True,
                   always_zero = False, seg_size = True, granularity = True,
                   base_high = ucast (drop_bit 24 base AND 0xFF)\<rparr>
           in Inr (of_nat (current_entry d * 8) OR of_nat ring,
                d\<lparr>gdt := (gdt d)[current_entry d := e], current_entry := current_entry d + 1\<rparr>))"

text \<open>The task state segment, 104 bytes long, at \<open>tss\<close>; only two of its fields are not zero.\<close>

definition write_tss :: "descriptors \<Rightarrow> nat \<Rightarrow> u32 \<Rightarrow> u32 \<Rightarrow> descriptors" where
  "write_tss d g tss START_OF_KERNEL_STACK =
     (let base = tss; limit = 104 :: u32; ring = 0;
          e = \<lparr>limit_low = ucast (limit AND 0xFFFF), base_low = ucast (base AND 0xFFFF),
               base_middle = ucast (drop_bit 16 base AND 0xFF),
               access = True, read_write = False, dir_conform = False, executable = True,
               always_one = False, privilege = ring, g_present = True,
               limit_high = unat (drop_bit 16 limit AND 0xF), available = False,
               always_zero = False, seg_size = True, granularity = False,
               base_high = ucast (drop_bit 24 base AND 0xFF)\<rparr>
      in d\<lparr>gdt := (gdt d)[g := e],
           TSS_SEGMENT := of_nat (current_entry d * 8) OR of_nat ring,
           ss0 := KERNEL_STACK_SEGMENT d, esp0 := START_OF_KERNEL_STACK,
           current_entry := current_entry d + 1\<rparr>)"

definition set_kernel_stack :: "descriptors \<Rightarrow> u32 \<Rightarrow> descriptors" where
  "set_kernel_stack d stack = d\<lparr>esp0 := stack\<rparr>"

definition gdt_install :: "descriptors \<Rightarrow> u32 \<Rightarrow> u32 \<Rightarrow> u32 \<Rightarrow> descriptors result" where
  "gdt_install d gdt_address tss START_OF_KERNEL_STACK =
     (let d = d\<lparr>gdt_limit := 8 * 8 - 1, gdt_base := gdt_address\<rparr>
      in bindE (add_segment d 0 0 False 0) (\<lambda>(w, d).
         bindE (add_segment (d\<lparr>NULL_SEGMENT := w\<rparr>) 0 0xFFFFF True 0) (\<lambda>(w, d).
         bindE (add_segment (d\<lparr>KERNEL_CODE_SEGMENT := w\<rparr>) 0 0xFFFFF False 0) (\<lambda>(w, d).
         bindE (add_segment (d\<lparr>KERNEL_DATA_SEGMENT := w\<rparr>) 0 0xFFFFF False 0) (\<lambda>(w, d).
         bindE (add_segment (d\<lparr>KERNEL_STACK_SEGMENT := w\<rparr>) 0 0xFFFFF True 3) (\<lambda>(w, d).
         bindE (add_segment (d\<lparr>USER_CODE_SEGMENT := w\<rparr>) 0 0xFFFFF False 3) (\<lambda>(w, d).
         bindE (add_segment (d\<lparr>USER_DATA_SEGMENT := w\<rparr>) 0 0xFFFFF False 3) (\<lambda>(w, d).
         let d = d\<lparr>USER_STACK_SEGMENT := w\<rparr>
         in if current_entry d \<ge> GDT_SIZE then Inl OutOfBounds
            else Inr (write_tss d (current_entry d) tss START_OF_KERNEL_STACK)))))))))"

definition init_pic :: "descriptors \<Rightarrow> descriptors" where
  "init_pic d = foldl (\<lambda>d (port, v). outb d port v) d
     [(0x20, 0x11), (0xA0, 0x11), (0x21, 0x20), (0xA1, 0x28), (0x21, 0x04), (0xA1, 0x02),
      (0x21, 0x01), (0xA1, 0x01), (0x21, 0x0), (0xA1, 0x0)]"

subsection \<open>Interrupt gates\<close>

definition idt_set_gate :: "descriptors \<Rightarrow> u8 \<Rightarrow> u32 \<Rightarrow> u16 \<Rightarrow> nat \<Rightarrow> descriptors" where
  "idt_set_gate d num address sel priv =
     d\<lparr>idt := (idt d)[unat num := \<lparr>address_low = ucast (address AND 0xFFFF), selector = sel,
        gate_type = 0xE, storage = False, dpl = priv mod 4, i_present = True,
        address_high = ucast (drop_bit 16 address AND 0xFFFF)\<rparr>]\<rparr>"

definition idt_install :: "descriptors \<Rightarrow> u32 \<Rightarrow> descriptors" where
  "idt_install d idt_address =
     foldl (\<lambda>d i. idt_set_gate d (of_nat i) 0 0 0) (d\<lparr>idt_limit := 8 * 256 - 1, idt_base := idt_address\<rparr>) [0..<256]"

text \<open>The gates that \<^verbatim>\<open>isrs_install\<close> sets, with the number of the stub, in the order of the calls.\<close>

definition isr_gates :: "(nat \<times> nat) list" where
  "isr_gates =
    [(0, 0), (1, 1), (2, 2), (3, 3), (4, 4), (5, 5), (6, 6), (7, 7), (8, 8), (9, 9), (10, 10),
     (11, 11), (12, 12), (13, 13), (14, 14), (15, 15), (16, 16), (17, 17), (18, 18), (19, 19),
     (20, 20), (21, 21), (21, 22), (23, 23), (24, 24), (25, 25), (26, 26), (27, 27), (28, 28),
     (29, 29), (30, 30), (31, 31)]"

definition isrs_install :: "descriptors \<Rightarrow> (nat \<Rightarrow> u32) \<Rightarrow> descriptors" where
  "isrs_install d isr =
     foldl (\<lambda>d (num, stub). idt_set_gate d (of_nat num) (isr stub) (ucast (KERNEL_CODE_SEGMENT d)) 0) d isr_gates"

definition irq_remap :: "descriptors \<Rightarrow> descriptors" where
  "irq_remap d = foldl (\<lambda>d (port, v). outb d port v) d
     [(0x20, 0x11), (0xA0, 0x11), (0x21, 0x20), (0xA1, 0x28), (0x21, 0x04), (0xA1, 0x02),
      (0x21, 0x01), (0xA1, 0x01), (0x21, 0x0), (0xA1, 0x0)]"

definition irq_install :: "descriptors \<Rightarrow> (nat \<Rightarrow> u32) \<Rightarrow> descriptors" where
  "irq_install d irq =
     foldl (\<lambda>d k. idt_set_gate d (of_nat (32 + k)) (irq k) (ucast (KERNEL_CODE_SEGMENT d)) 0) (irq_remap d) [0..<16]"

subsection \<open>Handlers\<close>

definition irq_install_handler :: "descriptors \<Rightarrow> nat \<Rightarrow> irq_routine \<Rightarrow> descriptors result" where
  "irq_install_handler d irq handler =
     (if irq < length (irq_routines d) then Inr (d\<lparr>irq_routines := (irq_routines d)[irq := Some handler]\<rparr>)
      else Inl OutOfBounds)"

definition irq_uninstall_handler :: "descriptors \<Rightarrow> nat \<Rightarrow> descriptors result" where
  "irq_uninstall_handler d irq =
     (if irq < length (irq_routines d) then Inr (d\<lparr>irq_routines := (irq_routines d)[irq := None]\<rparr>)
      else Inl OutOfBounds)"

text \<open>The acknowledgement at the end of \<^verbatim>\<open>irq_handler\<close>, for the interrupt number it reads then.\<close>

definition irq_acknowledge :: "descriptors \<Rightarrow> u32 \<Rightarrow> descriptors" where
  "irq_acknowledge d int_no = outb (if int_no \<ge> 40 then outb d 0xA0 0x20 else d) 0x20 0x20"

definition timer_phase :: "descriptors \<Rightarrow> int \<Rightarrow> descriptors result" where
  "timer_phase d hz =
     (if hz = 0 then Inl DivideError
      else let divisor = (if hz < 0 then - (1193180 div (- hz)) else 1193180 div hz) :: int
           in Inr (outb (outb (outb d 0x43 0x36) 0x40 (word_of_int divisor)) 0x40 (word_of_int (divisor div 256))))"

definition timer_handler_dummy :: "descriptors \<Rightarrow> descriptors" where
  "timer_handler_dummy d = d\<lparr>timer_ticks := timer_ticks d + 1\<rparr>"

definition timer_install :: "descriptors \<Rightarrow> descriptors result" where
  "timer_install d = bindE (timer_phase d 1000) (\<lambda>d. irq_install_handler d 0 Timer_handler_dummy)"

text \<open>The tables before the installation.\<close>

definition boot_descriptors :: descriptors where
  "boot_descriptors = \<lparr>gdt = replicate 8 \<lparr>limit_low = 0, base_low = 0, base_middle = 0, access = False, read_write = False,
       dir_conform = False, executable = False, always_one = False, privilege = 0, g_present = False, limit_high = 0,
       available = False, always_zero = False, seg_size = False, granularity = False, base_high = 0\<rparr>,
     current_entry = 0, NULL_SEGMENT = 0, KERNEL_CODE_SEGMENT = 0, KERNEL_DATA_SEGMENT = 0, KERNEL_STACK_SEGMENT = 0,
     USER_CODE_SEGMENT = 0, USER_DATA_SEGMENT = 0, USER_STACK_SEGMENT = 0, TSS_SEGMENT = 0, ss0 = 0, esp0 = 0,
     gdt_limit = 0, gdt_base = 0,
     idt = replicate 256 \<lparr>address_low = 0, selector = 0, gate_type = 0, storage = False, dpl = 0, i_present = False, address_high = 0\<rparr>,
     idt_limit = 0, idt_base = 0, irq_routines = replicate 16 None, timer_ticks = 0, ports_out = []\<rparr>"

end
