(* ===== verification/Descriptors_Props.thy ===== *)
theory Descriptors_Props
  imports Descriptors
begin

text \<open>What the installation leaves in the descriptor tables, read back from their split fields.\<close>

subsection \<open>Reading descriptors\<close>

definition segment_base :: "gdt_entry \<Rightarrow> u32" where
  "segment_base e = push_bit 24 (ucast (base_high e)) OR push_bit 16 (ucast (base_middle e)) OR ucast (base_low e)"

definition segment_limit :: "gdt_entry \<Rightarrow> u32" where
  "segment_limit e = push_bit 16 (of_nat (limit_high e)) OR ucast (limit_low e)"

definition gate_address :: "idt_entry \<Rightarrow> u32" where
  "gate_address e = push_bit 16 (ucast (address_high e)) OR ucast (address_low e)"

lemma bit_mask_numerals:
  "bit (0xFFFF :: int) k \<longleftrightarrow> k < 16" "bit (0xFF :: int) k \<longleftrightarrow> k < 8" "bit (0xF :: int) k \<longleftrightarrow> k < 4"
proof -
  have eq: "(0xFFFF :: int) = mask 16" "(0xFF :: int) = mask 8" "(0xF :: int) = mask 4"
    by (simp_all add: mask_eq_exp_minus_1)
  show "bit (0xFFFF :: int) k \<longleftrightarrow> k < 16" "bit (0xFF :: int) k \<longleftrightarrow> k < 8" "bit (0xF :: int) k \<longleftrightarrow> k < 4"
    unfolding eq by (simp_all add: bit_mask_iff)
qed

lemma join_halves:
  "push_bit 16 (ucast (ucast (drop_bit 16 w AND 0xFFFF) :: u16)) OR ucast (ucast (w AND 0xFFFF) :: u16) = (w :: u32)"
proof (rule bit_word_eqI)
  fix n assume "n < LENGTH(32)"
  then show "bit (push_bit 16 (ucast (ucast (drop_bit 16 w AND 0xFFFF) :: u16)) OR ucast (ucast (w AND 0xFFFF) :: u16) :: u32) n = bit w n"
    by (cases "n < 16") (auto simp: bit_simps bit_mask_numerals)
qed

lemma join_base:
  "push_bit 24 (ucast (ucast (drop_bit 24 w AND 0xFF) :: u8)) OR push_bit 16 (ucast (ucast (drop_bit 16 w AND 0xFF) :: u8))
     OR ucast (ucast (w AND 0xFFFF) :: u16) = (w :: u32)"
proof (rule bit_word_eqI)
  fix n assume n: "n < LENGTH(32)"
  consider "n < 16" | "16 \<le> n" "n < 24" | "24 \<le> n" by linarith
  then show "bit (push_bit 24 (ucast (ucast (drop_bit 24 w AND 0xFF) :: u8)) OR
      push_bit 16 (ucast (ucast (drop_bit 16 w AND 0xFF) :: u8)) OR ucast (ucast (w AND 0xFFFF) :: u16) :: u32) n = bit w n"
    using n by cases (auto simp: bit_simps bit_mask_numerals)
qed

subsection \<open>Gates\<close>

definition gate :: "u32 \<Rightarrow> u16 \<Rightarrow> nat \<Rightarrow> idt_entry" where
  "gate address sel priv = \<lparr>address_low = ucast (address AND 0xFFFF), selector = sel, gate_type = 0xE,
     storage = False, dpl = priv mod 4, i_present = True, address_high = ucast (drop_bit 16 address AND 0xFFFF)\<rparr>"

lemma gate_address_gate [simp]: "gate_address (gate a sel p) = a"
  by (simp add: gate_address_def gate_def join_halves)

lemma idt_set_gate_idt: "idt (idt_set_gate d num a sel p) = (idt d)[unat num := gate a sel p]"
  by (simp add: idt_set_gate_def gate_def)

lemma set_gates:
  fixes f :: "'a \<Rightarrow> u32"
  assumes "\<forall>(n, a) \<in> set gs. n < 256" "length (idt d) = 256" "k < 256"
  defines "d' \<equiv> foldl (\<lambda>d (n, a). idt_set_gate d (of_nat n) (f a) (ucast (KERNEL_CODE_SEGMENT d)) 0) d gs"
  shows "idt d' ! k = (case map_of (rev gs) k of Some a \<Rightarrow> gate (f a) (ucast (KERNEL_CODE_SEGMENT d)) 0 | None \<Rightarrow> idt d ! k)
    \<and> length (idt d') = 256 \<and> KERNEL_CODE_SEGMENT d' = KERNEL_CODE_SEGMENT d"
  unfolding d'_def using assms(1)
proof (induction gs rule: rev_induct)
  case (snoc g gs)
  obtain n a where g: "g = (n, a)" by fastforce
  then have n: "unat (of_nat n :: u8) = n" using snoc.prems by (simp add: unat_of_nat)
  show ?case using snoc n assms(2,3)
    by (auto simp: g idt_set_gate_idt nth_list_update idt_set_gate_def [of _ "of_nat n"] gate_def)
qed (use assms(2) in simp)


lemma isr_gates_last:
  "list_all (\<lambda>k. map_of (rev isr_gates) k = (if k = 21 then Some 22 else if k = 22 \<or> 32 \<le> k then None else Some k)) [0..<256]"
  by code_simp

lemma irq_gates_last:
  "map_of (rev (map (\<lambda>k. (32 + k, k)) [0..<16])) k = (if 32 \<le> k \<and> k < 48 then Some (k - 32) else None)"
proof (cases "32 \<le> k \<and> k < 48")
  case True
  then have "(k, k - 32) \<in> set (rev (map (\<lambda>k. (32 + k, k)) [0..<16]))" by (auto simp: image_iff)
  moreover have "distinct (map fst (rev (map (\<lambda>k. (32 + k, k :: nat)) [0..<16])))"
    by (simp add: rev_map [symmetric] comp_def distinct_map inj_on_def)
  ultimately show ?thesis using True by (simp add: map_of_eq_Some_iff del: set_rev)
next
  case False
  then have "k \<notin> fst ` set (rev (map (\<lambda>k. (32 + k, k :: nat)) [0..<16]))" by auto
  then show ?thesis using False by (auto simp: map_of_eq_None_iff)
qed

lemma idt_install_zero:
  assumes "length (idt d) = 256"
  shows "length (idt (idt_install d a)) = 256 \<and> (\<forall>k < 256. idt (idt_install d a) ! k = gate 0 0 0) \<and>
    KERNEL_CODE_SEGMENT (idt_install d a) = KERNEL_CODE_SEGMENT d"
proof -
  let ?d0 = "d\<lparr>idt_limit := 8 * 256 - 1, idt_base := a\<rparr>"
  have "n \<le> 256 \<Longrightarrow> let d' = foldl (\<lambda>d i. idt_set_gate d (of_nat i) 0 0 0) ?d0 [0..<n] in
      length (idt d') = 256 \<and> (\<forall>k<n. idt d' ! k = gate 0 0 0) \<and> KERNEL_CODE_SEGMENT d' = KERNEL_CODE_SEGMENT d" for n
  proof (induction n)
    case (Suc n)
    then have "unat (of_nat n :: u8) = n" by (simp add: unat_of_nat)
    then show ?case using Suc
      by (auto simp: Let_def idt_set_gate_idt nth_list_update idt_set_gate_def [of _ "of_nat n"] gate_def less_Suc_eq)
  qed (use assms in simp)
  from this [of 256] show ?thesis by (simp add: idt_install_def Let_def)
qed

subsection \<open>Properties\<close>

text \<open>C33: After the installation of the interrupt table the gates 0 to 31 lead to the exception stubs of the same
  number, 32 to 47 to those of the sixteen interrupt requests, all in the kernel's code segment, and
  the others to address 0; but gate 21 leads to the stub of exception 22, and gate 22 was never set.\<close>
theorem interrupt_gates_installed:
  assumes "length (idt d) = 256" "k < 256"
  shows "gate_address (idt (irq_install (isrs_install (idt_install d a) isr) irq) ! k) =
      (if k = 21 then isr 22 else if k = 22 then 0 else if k < 32 then isr k
       else if k < 48 then irq (k - 32) else 0)
    \<and> (k < 48 \<and> k \<noteq> 22 \<longrightarrow>
        selector (idt (irq_install (isrs_install (idt_install d a) isr) irq) ! k) = ucast (KERNEL_CODE_SEGMENT d))"
proof -
  define d1 where "d1 = idt_install d a"
  define d2 where "d2 = isrs_install d1 isr"
  define gs :: "(nat \<times> nat) list" where "gs = map (\<lambda>k. (32 + k, k)) [0..<16]"
  have 1: "length (idt d1) = 256" "idt d1 ! k = gate 0 0 0" "KERNEL_CODE_SEGMENT d1 = KERNEL_CODE_SEGMENT d"
    unfolding d1_def using idt_install_zero [OF assms(1)] assms(2) by auto
  have "\<forall>(n, st) \<in> set isr_gates. n < 256" by (simp add: isr_gates_def)
  note 2 = set_gates [OF this 1(1) assms(2), of isr, folded isrs_install_def d2_def]
  have remap: "idt (irq_remap d2) = idt d2" "KERNEL_CODE_SEGMENT (irq_remap d2) = KERNEL_CODE_SEGMENT d2"
    by (simp_all add: irq_remap_def outb_def)
  have gs: "\<forall>(n, st) \<in> set gs. n < 256" by (auto simp: gs_def)
  have len: "length (idt (irq_remap d2)) = 256" using 2 remap by simp
  have inst: "irq_install d2 irq = foldl (\<lambda>d (n, st). idt_set_gate d (of_nat n) (irq st) (ucast (KERNEL_CODE_SEGMENT d)) 0) (irq_remap d2) gs"
    unfolding irq_install_def gs_def foldl_map by simp
  note 3 = set_gates [OF gs len assms(2), of irq, folded inst]
  have "map_of (rev isr_gates) k = (if k = 21 then Some 22 else if k = 22 \<or> 32 \<le> k then None else Some k)"
    using isr_gates_last assms(2) unfolding list_all_iff set_upt by auto
  then have "idt (irq_install d2 irq) ! k =
      (if 32 \<le> k \<and> k < 48 then gate (irq (k - 32)) (ucast (KERNEL_CODE_SEGMENT d)) 0
       else if k = 21 then gate (isr 22) (ucast (KERNEL_CODE_SEGMENT d)) 0
       else if k = 22 \<or> 32 \<le> k then gate 0 0 0 else gate (isr k) (ucast (KERNEL_CODE_SEGMENT d)) 0)"
    using 3 2 1 remap irq_gates_last [of k] unfolding gs_def by (simp split: if_splits) auto
  moreover have "selector (gate x sel p) = sel" for x sel p by (simp add: gate_def)
  ultimately show ?thesis unfolding d2_def d1_def by auto
qed

theorem interrupt_gates_installed_witness:
  "gate_address (idt (irq_install (isrs_install (idt_install boot_descriptors 0x5000) (\<lambda>k. 0x1000 + of_nat k))
     (\<lambda>k. 0x2000 + of_nat k)) ! 21) = 0x1016"
proof -
  have "length (idt boot_descriptors) = 256" by (simp add: boot_descriptors_def)
  from interrupt_gates_installed [OF this, of 21 "0x5000" "\<lambda>k. 0x1000 + of_nat k" "\<lambda>k. 0x2000 + of_nat k"]
  show ?thesis by simp
qed

text \<open>Installing the segments succeeds once: the selectors are the offsets of the descriptors with their privilege
  level, every descriptor but the first is present, all code and data segments start at 0 with the 20-bit
  limit \<open>0xFFFFF\<close> in pages, the last one is the task state segment; a second installation throws.\<close>
theorem gdt_install_flat:
  assumes "current_entry d = 0" "length (gdt d) = 8"
  shows "\<exists>d'. gdt_install d a tss stack = Inr d' \<and>
    NULL_SEGMENT d' = 0 \<and> KERNEL_CODE_SEGMENT d' = 0x08 \<and> KERNEL_DATA_SEGMENT d' = 0x10 \<and>
    KERNEL_STACK_SEGMENT d' = 0x18 \<and> USER_CODE_SEGMENT d' = 0x23 \<and> USER_DATA_SEGMENT d' = 0x2B \<and>
    USER_STACK_SEGMENT d' = 0x33 \<and> TSS_SEGMENT d' = 0x38 \<and> ss0 d' = 0x18 \<and> esp0 d' = stack \<and>
    map g_present (gdt d') = False # replicate 7 True \<and>
    map segment_base (gdt d') = replicate 7 0 @ [tss] \<and>
    map segment_limit (gdt d') = 0 # replicate 6 0xFFFFF @ [104] \<and>
    map privilege (gdt d') = [0, 0, 0, 0, 3, 3, 3, 0] \<and>
    map executable (gdt d') = [False, True, False, False, True, False, False, True] \<and>
    gdt_install d' a tss stack = Inl (Throw ''Too many segments!'')"
proof -
  obtain e0 e1 e2 e3 e4 e5 e6 e7 where g: "gdt d = [e0, e1, e2, e3, e4, e5, e6, e7]"
    using assms(2) by (auto simp: length_Suc_conv numeral_eq_Suc)
  show ?thesis
    by (simp add: gdt_install_def add_segment_def write_tss_def g assms(1) Let_def segment_base_def
        segment_limit_def join_base) (simp add: numeral_eq_Suc)
qed

theorem gdt_install_flat_witness:
  "\<exists>d'. gdt_install boot_descriptors 0x6000 0x7000 0x9000 = Inr d' \<and> USER_CODE_SEGMENT d' = 0x23 \<and>
    map segment_base (gdt d') = replicate 7 0 @ [0x7000]"
proof -
  have "current_entry boot_descriptors = 0" "length (gdt boot_descriptors) = 8" by (simp_all add: boot_descriptors_def)
  from gdt_install_flat [OF this, of "0x6000" "0x7000" "0x9000"] show ?thesis by blast
qed

end
