(* ===== verification/Kernel.thy ===== *)
theory Kernel
  imports Paging Printer Descriptors
begin

text \<open>
  The state that the scheduler, the system calls, the shell and the keyboard share, as an
  extension of the paging state: the process table and the runqueues (\<^verbatim>\<open>scheduler.h\<close>,
  \<^verbatim>\<open>process.h\<close>), the globals of \<^verbatim>\<open>scheduler.c\<close>, the screen, the line editor and history of
  \<^verbatim>\<open>shell.c\<close> and the modifier keys of \<^verbatim>\<open>keyboard.c\<close>.

  A runqueue is the list of its process identifiers from front to back and \<^verbatim>\<open>run_pid\<close> the list of
  its elements: \<^verbatim>\<open>queue.c\<close> and \<^verbatim>\<open>list.c\<close> keep exactly these in linked cells.  The register structures
  that \<^verbatim>\<open>context_t\<close> and the interrupt handlers point to are in memory.
\<close>

subsection \<open>Processes\<close>

datatype process_state = Free | Waiting | Runnable | Zombie

record proc_context =
  regs_at :: u32
  ctx_first_free_block :: u32
  ctx_unallocated_mem :: u32
  page_dir :: u32

record process =
  proc_state :: process_state
  parent_id :: u32
  prio :: int
  ctx :: proc_context

abbreviation (input) NUM_PROCESSES :: nat where "NUM_PROCESSES \<equiv> 128"
abbreviation (input) MAX_PRIORITY :: nat where "MAX_PRIORITY \<equiv> 15"

text \<open>The fields of \<^verbatim>\<open>struct regs\<close>, in the order of the structure.\<close>

datatype reg = Gs | Fs | Es | Ds | Edi | Esi | Ebp | Esp | Ebx | Edx | Ecx | Eax
  | Int_no | Err_code | Eip | Cs | Eflags | Useresp | Ss

primrec reg_offset :: "reg \<Rightarrow> u32" where
  "reg_offset Gs = 0" | "reg_offset Fs = 4" | "reg_offset Es = 8" | "reg_offset Ds = 12"
| "reg_offset Edi = 16" | "reg_offset Esi = 20" | "reg_offset Ebp = 24" | "reg_offset Esp = 28"
| "reg_offset Ebx = 32" | "reg_offset Edx = 36" | "reg_offset Ecx = 40" | "reg_offset Eax = 44"
| "reg_offset Int_no = 48" | "reg_offset Err_code = 52" | "reg_offset Eip = 56" | "reg_offset Cs = 60"
| "reg_offset Eflags = 64" | "reg_offset Useresp = 68" | "reg_offset Ss = 72"

subsection \<open>Shell and keyboard\<close>

datatype handler = Help | Echo | Ls | Cd | Pwd | Splash | Ascii | Run | Mkdir | Rm

record command =
  cmd_name :: bytes
  cmd_help :: bytes
  cmd_handler :: handler

text \<open>An entry of \<open>history\<close> is the buffer that the pointer points to, the empty list for \<^verbatim>\<open>NULL\<close>.\<close>

record shell =
  blank_command :: bytes
  pos :: nat
  line_length :: nat
  max_length :: nat
  start_of_command :: u16
  history :: "bytes list"
  history_length :: nat
  history_pos :: nat
  curr_dir :: u32
  path :: bytes
  commands :: "command list"

record keyboard =
  k_shift_count :: u8
  k_shift :: u8
  k_meta :: u8
  k_ctrl :: u8
  k_lights :: u8
  k_dead_hat :: bool
  k_dead_trema :: bool

subsection \<open>The kernel's state\<close>

record kernel = paged +
  curr_pid :: u32
  processes :: "process list"
  runqueues :: "u32 list list"
  run_pid :: "u32 list"
  in_kernel :: bool
  should_cycle :: bool
  run_executed :: bool
  scr :: screen
  sh :: shell
  kbd :: keyboard
  desc :: descriptors

definition get_proc :: "'z kernel_scheme \<Rightarrow> u32 \<Rightarrow> process result" where
  "get_proc s i = (if unat i < length (processes s) then Inr (processes s ! unat i) else Inl OutOfBounds)"

definition set_proc :: "'z kernel_scheme \<Rightarrow> u32 \<Rightarrow> process \<Rightarrow> 'z kernel_scheme" where
  "set_proc s i p = s\<lparr>processes := (processes s)[unat i := p]\<rparr>"

definition get_reg :: "'z machine_scheme \<Rightarrow> u32 \<Rightarrow> reg \<Rightarrow> u32" where
  "get_reg s regs r = load32 (mem s) (regs + reg_offset r)"

definition set_reg :: "'z machine_scheme \<Rightarrow> u32 \<Rightarrow> reg \<Rightarrow> u32 \<Rightarrow> 'z machine_scheme" where
  "set_reg s regs r v = write32 s (regs + reg_offset r) v"

text \<open>Assignment of whole register structures, of 19 words.\<close>

definition copy_regs :: "'z machine_scheme \<Rightarrow> u32 \<Rightarrow> u32 \<Rightarrow> 'z machine_scheme" where
  "copy_regs s dest src = set_mem s (mem_copy (mem s) dest src 76)"

definition ascii :: "string \<Rightarrow> bytes" where
  "ascii cs = map of_char cs"

definition print :: "'z kernel_scheme \<Rightarrow> bytes \<Rightarrow> arg list \<Rightarrow> 'z kernel_scheme result" where
  "print s fmt args = bindE (writef (scr s) fmt args) (\<lambda>c. Inr (s\<lparr>scr := c\<rparr>))"

abbreviation (input) "Black \<equiv> (0 :: u32)"
abbreviation (input) "Green \<equiv> (2 :: u32)"
abbreviation (input) "Red \<equiv> (4 :: u32)"
abbreviation (input) "LightBlue \<equiv> (9 :: u32)"
abbreviation (input) "LightRed \<equiv> (12 :: u32)"
abbreviation (input) "White \<equiv> (15 :: u32)"

text \<open>The state before anything is installed, with all globals as the C code initialises them.\<close>

definition boot_screen :: screen where
  "boot_screen = \<lparr>framebuffer = (\<lambda>_. 0), address_reg = 0, crt_regs = (\<lambda>_. 0), foreground = White,
     background = Black\<rparr>"

definition boot_shell :: shell where
  "boot_shell = \<lparr>blank_command = 32 # replicate 127 0, pos = 0, line_length = 0, max_length = 0,
     start_of_command = 0, history = replicate 100 [], history_length = 0, history_pos = 0,
     curr_dir = 2, path = [], commands = []\<rparr>"

definition boot_keyboard :: keyboard where
  "boot_keyboard = \<lparr>k_shift_count = 0, k_shift = 0, k_meta = 0, k_ctrl = 0, k_lights = 0,
     k_dead_hat = False, k_dead_trema = False\<rparr>"

definition free_process :: process where
  "free_process = \<lparr>proc_state = Free, parent_id = 0, prio = 0,
     ctx = \<lparr>regs_at = 0, ctx_first_free_block = 0, ctx_unallocated_mem = 0, page_dir = 0\<rparr>\<rparr>"

definition boot_state :: kernel where
  "boot_state = \<lparr>kmem = (\<lambda>_. 0), umem = (\<lambda>_ _. 0), first_free_block = 0, unallocated_mem = 0,
     kernel_first_free_block = 0, kernel_unallocated_mem = 0, paging_enabled = False,
     current_directory = 0, kernel_directory = 0, base_directory = 0, ld_end = 0, UPPER_MEMORY = 0,
     START_OF_USER_HEAP = 0, cr0 = 0, cr3 = 0,
     frames = \<lparr>bits_length = 0, bits_addr = 0\<rparr>, START_OF_USER_STACK = 0, START_OF_USER_CODE = 0,
     isr_routines = (\<lambda>_. None),
     curr_pid = 0, processes = replicate NUM_PROCESSES free_process,
     runqueues = replicate (MAX_PRIORITY + 1) [], run_pid = [], in_kernel = False,
     should_cycle = False, run_executed = False, scr = boot_screen, sh = boot_shell,
     kbd = boot_keyboard, desc = boot_descriptors\<rparr>"

subsection \<open>Updates of memory leave the kernel's own fields alone\<close>

lemma kernel_fields_more:
  fixes s t :: "'z kernel_scheme"
  assumes "machine.more s = machine.more t"
  shows "curr_pid s = curr_pid t" "processes s = processes t" "runqueues s = runqueues t"
    "run_pid s = run_pid t" "in_kernel s = in_kernel t" "should_cycle s = should_cycle t"
    "run_executed s = run_executed t" "scr s = scr t" "sh s = sh t" "kbd s = kbd t" "desc s = desc t"
  using assms by (cases s; cases t; simp)+

end
