(* ===== verification/Shell.thy ===== *)
theory Shell
  imports Kernel
begin

text \<open>
  \<^verbatim>\<open>shell.c\<close>: the line editor, the history, the prompt and the commands that only print.  A
  command line is edited in place in a buffer of 128 bytes of the history.  The handlers are
  looked up through the function pointers of the registered commands; \<open>H\<close> below runs the
  handler with a given name on its arguments.
\<close>

abbreviation (input) buffer_size :: nat where "buffer_size \<equiv> 128"
abbreviation (input) history_size :: nat where "history_size \<equiv> 100"

subsection \<open>Cursor and prompt\<close>

definition set_pos :: "'z kernel_scheme \<Rightarrow> 'z kernel_scheme" where
  "set_pos s = s\<lparr>scr := set_cursor_pos (scr s) (start_of_command (sh s) + of_nat (pos (sh s)))\<rparr>"

definition update_max_length :: "shell \<Rightarrow> shell" where
  "update_max_length h = (if line_length h > max_length h then h\<lparr>max_length := line_length h\<rparr> else h)"

definition echo_thingy :: "'z kernel_scheme \<Rightarrow> 'z kernel_scheme result" where
  "echo_thingy s = print s (ascii ''%f%s@%s:%f%s%f$ '')
     [Word_Arg Green, Str_Arg (ascii ''TimPouzet''), Str_Arg (ascii ''MarioBrOS''),
      Word_Arg LightBlue, Str_Arg (path (sh s)), Word_Arg White]"

subsection \<open>Buffers of the history\<close>

definition get_line :: "shell \<Rightarrow> nat \<Rightarrow> bytes result" where
  "get_line h i = (if i < length (history h) \<and> history h ! i \<noteq> [] then Inr (history h ! i) else Inl OutOfBounds)"

definition set_line :: "shell \<Rightarrow> nat \<Rightarrow> bytes \<Rightarrow> shell" where
  "set_line h i b = h\<lparr>history := (history h)[i := b]\<rparr>"

text \<open>The text in a buffer; reading on behind a buffer without a terminator is a fault.\<close>

definition line_text :: "bytes \<Rightarrow> bytes result" where
  "line_text b = (if 0 \<in> set b then Inr (text_of b) else Inl OutOfBounds)"

text \<open>\<^verbatim>\<open>str_copy\<close> between two buffers: the text and its terminator are written over the target.\<close>

definition copy_line :: "bytes \<Rightarrow> bytes \<Rightarrow> bytes result" where
  "copy_line src dest = bindE (line_text src) (\<lambda>t.
     if length t < length dest then Inr (t @ 0 # drop (length t + 1) dest) else Inl OutOfBounds)"

subsection \<open>Echo\<close>

text \<open>Colours of the command line: 0 is before the first word, 1 inside it, 2 after it.\<close>

fun echo_loop :: "screen \<Rightarrow> nat \<Rightarrow> bytes \<Rightarrow> screen" where
  "echo_loop c state [] = c"
| "echo_loop c state (x # xs) =
     (if state = 0 \<and> x \<noteq> 32 then echo_loop (write_char (c\<lparr>foreground := LightRed\<rparr>) x) 1 xs
      else if state = 1 \<and> x = 32 then echo_loop (write_char (c\<lparr>foreground := White\<rparr>) x) 2 xs
      else echo_loop (write_char c x) state xs)"

definition echo_command :: "'z kernel_scheme \<Rightarrow> 'z kernel_scheme result" where
  "echo_command s =
     (let h = sh s; c = set_cursor_pos (scr s) (start_of_command h)
      in if max_length h \<ge> length (blank_command h) then Inl OutOfBounds
         else bindE (write_string c ((blank_command h)[max_length h := 0])) (\<lambda>c.
           let h = h\<lparr>blank_command := (blank_command h)[max_length h := 32]\<rparr>;
               c = set_cursor_pos c (start_of_command h)
           in bindE (get_line h (history_pos h)) (\<lambda>b.
              bindE (line_text b) (\<lambda>t.
              let c = (echo_loop c 0 t)\<lparr>foreground := White\<rparr>
              in Inr (set_pos (s\<lparr>scr := c, sh := h\<rparr>))))))"

subsection \<open>Running a command\<close>

definition register_command :: "'z kernel_scheme \<Rightarrow> command \<Rightarrow> 'z kernel_scheme" where
  "register_command s c = s\<lparr>sh := (sh s)\<lparr>commands := c # commands (sh s)\<rparr>\<rparr>"

definition find_command :: "'z kernel_scheme \<Rightarrow> bytes \<Rightarrow> command option" where
  "find_command s name = List.find (\<lambda>c. cmd_name c = name) (commands (sh s))"

definition send_command ::
  "(handler \<Rightarrow> bytes list \<Rightarrow> 'z kernel_scheme \<Rightarrow> 'z kernel_scheme result) \<Rightarrow> 'z kernel_scheme
     \<Rightarrow> 'z kernel_scheme result"
where
  "send_command H s =
     bindE (get_line (sh s) (history_pos (sh s))) (\<lambda>b.
     bindE (line_text b) (\<lambda>t.
     bindE (str_split t 32 False) (\<lambda>words.
       case words of [] \<Rightarrow> Inr s
       | command_name # args \<Rightarrow>
           (case find_command s command_name of
              Some cmd \<Rightarrow> H (cmd_handler cmd) args s
            | None \<Rightarrow> print s (ascii ''Unknown command: %f%s%f\<newline>'')
                [Word_Arg LightRed, Str_Arg command_name, Word_Arg White]))))"

text \<open>
  With a full history the oldest line is dropped; otherwise the line that was run, which may
  be an older one, is copied into the newest entry.
\<close>

definition save_line :: "shell \<Rightarrow> shell result" where
  "save_line h =
     (if history_length h = history_size - 1 then
        Inr (h\<lparr>history := tl (history h) @ [last (history h)], history_pos := history_length h\<rparr>)
      else bindE (get_line h (history_pos h)) (\<lambda>src.
           bindE (get_line h (history_length h)) (\<lambda>dest.
           bindE (copy_line src dest) (\<lambda>b.
             let h = set_line h (history_length h) b
             in Inr (h\<lparr>history_length := history_length h + 1, history_pos := history_length h + 1\<rparr>)))))"

definition finalize_command :: "'z kernel_scheme \<Rightarrow> 'z kernel_scheme result" where
  "finalize_command s =
     (if run_pid s \<noteq> [] then Inr s
      else bindE (echo_thingy s) (\<lambda>s.
        bindE (save_line (sh s)) (\<lambda>h.
        if history_pos h \<ge> length (history h) then Inl OutOfBounds
        else let h = set_line h (history_pos h) (replicate buffer_size 0)
             in Inr (s\<lparr>sh := h\<lparr>pos := 0, start_of_command := fst (get_cursor_pos (scr s)),
                               line_length := 0, max_length := 0\<rparr>\<rparr>))))"

subsection \<open>Keys\<close>

text \<open>The loops that move the text behind the cursor by one position, for \<open>n\<close> bytes.\<close>

fun shift_left :: "bytes \<Rightarrow> nat \<Rightarrow> nat \<Rightarrow> bytes result" where
  "shift_left b i 0 = Inr b"
| "shift_left b i (Suc n) =
     (if i + 1 < length b then shift_left (b[i := b ! (i + 1)]) (i + 1) n else Inl OutOfBounds)"

fun shift_right :: "bytes \<Rightarrow> nat \<Rightarrow> nat \<Rightarrow> bytes result" where
  "shift_right b i 0 = Inr b"
| "shift_right b i (Suc n) =
     (if 0 < i \<and> i < length b then shift_right (b[i := b ! (i - 1)]) (i - 1) n else Inl OutOfBounds)"

definition delete_char :: "shell \<Rightarrow> shell result" where
  "delete_char h =
     bindE (get_line h (history_pos h)) (\<lambda>b.
     bindE (shift_left b (pos h) (line_length h - pos h)) (\<lambda>b.
       let h = set_line h (history_pos h) b
       in Inr (if pos h < line_length h then h\<lparr>line_length := line_length h - 1\<rparr> else h)))"

definition insert_char :: "shell \<Rightarrow> u8 \<Rightarrow> shell result" where
  "insert_char h c =
     bindE (get_line h (history_pos h)) (\<lambda>b.
     bindE (shift_right b (line_length h) (line_length h - pos h)) (\<lambda>b.
       if pos h \<ge> length b then Inl OutOfBounds
       else let h = set_line h (history_pos h) (b[pos h := c])
            in Inr (update_max_length (h\<lparr>pos := pos h + 1, line_length := line_length h + 1\<rparr>))))"

definition scroll_command :: "'z kernel_scheme \<Rightarrow> 'z kernel_scheme" where
  "scroll_command s =
     (if unat (start_of_command (sh s)) + line_length (sh s) \<ge> 2000
      then s\<lparr>scr := scroll (scr s), sh := (sh s)\<lparr>start_of_command := start_of_command (sh s) - 80\<rparr>\<rparr>
      else s)"

definition shell_write_char ::
  "(handler \<Rightarrow> bytes list \<Rightarrow> 'z kernel_scheme \<Rightarrow> 'z kernel_scheme result) \<Rightarrow> 'z kernel_scheme \<Rightarrow> u8
     \<Rightarrow> 'z kernel_scheme result"
where
  "shell_write_char H s c =
     (if c = 0 then Inr s
      else if c = 10 then
        let scr' = set_cursor_pos (scr s) (start_of_command (sh s) + of_nat (line_length (sh s)));
            s = s\<lparr>scr := write_char scr' 10\<rparr>
        in bindE (send_command H s) finalize_command
      else if c = 9 then Inr s
      else if c = 8 then
        if pos (sh s) > 0
        then bindE (delete_char ((sh s)\<lparr>pos := pos (sh s) - 1\<rparr>)) (\<lambda>h. echo_command (s\<lparr>sh := h\<rparr>))
        else Inr s
      else if c = 127 then
        bindE (delete_char (sh s)) (\<lambda>h. echo_command (s\<lparr>sh := h\<rparr>))
      else if line_length (sh s) < buffer_size - 1 then
        bindE (insert_char (sh s) c) (\<lambda>h. echo_command (scroll_command (s\<lparr>sh := h\<rparr>)))
      else echo_command s)"

fun shell_write_string ::
  "(handler \<Rightarrow> bytes list \<Rightarrow> 'z kernel_scheme \<Rightarrow> 'z kernel_scheme result) \<Rightarrow> 'z kernel_scheme \<Rightarrow> bytes
     \<Rightarrow> 'z kernel_scheme result"
where
  "shell_write_string H s [] = Inr s"
| "shell_write_string H s (c # cs) =
     (if c = 0 then Inr s
      else bindE (shell_write_char H s c) (\<lambda>s. shell_write_string H s cs))"

definition shell_home :: "'z kernel_scheme \<Rightarrow> 'z kernel_scheme" where
  "shell_home s = set_pos (s\<lparr>sh := (sh s)\<lparr>pos := 0\<rparr>\<rparr>)"

definition shell_end :: "'z kernel_scheme \<Rightarrow> 'z kernel_scheme" where
  "shell_end s = set_pos (s\<lparr>sh := (sh s)\<lparr>pos := line_length (sh s)\<rparr>\<rparr>)"

text \<open>The common part of \<^verbatim>\<open>shell_up\<close> and \<^verbatim>\<open>shell_down\<close>: showing entry \<open>i\<close> of the history.\<close>

definition show_line :: "'z kernel_scheme \<Rightarrow> nat \<Rightarrow> 'z kernel_scheme result" where
  "show_line s i =
     bindE (get_line (sh s) i) (\<lambda>b.
     bindE (line_text b) (\<lambda>t.
       let h = update_max_length ((sh s)\<lparr>history_pos := i, pos := length t, line_length := length t\<rparr>)
       in echo_command (scroll_command (s\<lparr>sh := h\<rparr>))))"

definition shell_up :: "'z kernel_scheme \<Rightarrow> 'z kernel_scheme result" where
  "shell_up s = (if history_pos (sh s) > 0 then show_line s (history_pos (sh s) - 1) else Inr s)"

definition shell_down :: "'z kernel_scheme \<Rightarrow> 'z kernel_scheme result" where
  "shell_down s =
     (if history_pos (sh s) < history_length (sh s) then show_line s (history_pos (sh s) + 1) else Inr s)"

definition shell_left :: "'z kernel_scheme \<Rightarrow> 'z kernel_scheme" where
  "shell_left s = set_pos (if pos (sh s) > 0 then s\<lparr>sh := (sh s)\<lparr>pos := pos (sh s) - 1\<rparr>\<rparr> else s)"

definition shell_right :: "'z kernel_scheme \<Rightarrow> 'z kernel_scheme result" where
  "shell_right s =
     bindE (get_line (sh s) (history_pos (sh s))) (\<lambda>b.
       if pos (sh s) < buffer_size - 1 \<and> pos (sh s) < length b \<and> b ! pos (sh s) \<noteq> 0
       then Inr (set_pos (s\<lparr>sh := (sh s)\<lparr>pos := pos (sh s) + 1\<rparr>\<rparr>))
       else Inr (set_pos s))"

subsection \<open>Commands that only print\<close>

fun print_all :: "'z kernel_scheme \<Rightarrow> (bytes \<times> arg list) list \<Rightarrow> 'z kernel_scheme result" where
  "print_all s [] = Inr s"
| "print_all s (p # ps) = bindE (print s (fst p) (snd p)) (\<lambda>s. print_all s ps)"

definition print_command :: "command \<Rightarrow> bytes \<times> arg list" where
  "print_command c = (ascii ''%f%s%f'' @ [9] @ ascii ''%s\<newline>'',
     [Word_Arg LightRed, Str_Arg (cmd_name c), Word_Arg White, Str_Arg (cmd_help c)])"

definition help_handler :: "bytes list \<Rightarrow> 'z kernel_scheme \<Rightarrow> 'z kernel_scheme result" where
  "help_handler args s =
     print_all s (if args \<noteq> [] then
        map (\<lambda>func. case find_command s func of
               Some cmd \<Rightarrow> print_command cmd
             | None \<Rightarrow> (ascii ''%f%s%f'' @ [9] @ ascii ''%s\<newline>'',
                 [Word_Arg LightRed, Str_Arg func, Word_Arg White, Str_Arg (ascii ''Unknown command'')])) args
      else map print_command (commands (sh s)))"

definition echo_handler :: "bytes list \<Rightarrow> 'z kernel_scheme \<Rightarrow> 'z kernel_scheme result" where
  "echo_handler args s = print_all s (map (\<lambda>word. (ascii ''%s '', [Str_Arg word])) args @ [([8, 10], [])])"

definition splash_text :: bytes where
  "splash_text =
    [37,102,37,98,10,32,32,32,95,95,95,95,32,32,32,32,95,95,95,95,32,32,32,32,32,32,32,32,32,32,
     32,32,32,32,32,32,32,32,95,32,32,32,32,32,32,32,32,32,95,95,95,95,95,95,32,32,32,32,32,32,
     32,32,32,32,32,32,32,95,95,95,32,32,32,32,32,95,95,95,95,95,95,32,32,32,32,32,32,124,95,32,
     32,32,92,32,32,47,32,32,32,95,124,32,32,32,32,32,32,32,32,32,32,32,32,32,32,32,32,40,95,41,
     32,32,32,32,32,32,32,124,95,32,32,32,95,32,92,32,32,32,32,32,32,32,32,32,32,46,39,32,32,32,
     96,46,32,46,39,32,95,95,95,95,32,92,32,32,32,32,32,32,32,124,32,32,32,92,47,32,32,32,124,
     32,32,32,44,45,45,46,32,32,32,95,32,46,45,45,46,32,32,95,95,32,32,32,46,45,45,46,32,32,32,
     124,32,124,95,41,32,124,32,95,32,46,45,45,46,32,47,32,32,46,45,46,32,32,92,124,32,40,95,95,
     95,32,92,95,124,32,32,32,32,32,32,124,32,124,92,32,32,47,124,32,124,32,32,96,39,95,92,32,
     58,32,91,32,96,47,39,96,92,93,91,32,32,124,47,32,46,39,96,92,32,92,32,124,32,32,95,95,39,
     46,91,32,96,47,39,96,92,93,124,32,124,32,32,32,124,32,124,32,95,46,95,95,95,95,96,46,32,32,
     32,32,32,32,95,124,32,124,95,92,47,95,124,32,124,95,32,47,47,32,124,32,124,44,32,124,32,
     124,32,32,32,32,32,124,32,124,124,32,92,95,95,46,32,124,95,124,32,124,95,95,41,32,124,124,
     32,124,32,32,32,32,92,32,32,96,45,39,32,32,47,124,32,92,95,95,95,95,41,32,124,32,32,32,32,
     124,95,95,95,95,95,124,124,95,95,95,95,95,124,92,39,45,59,95,95,47,91,95,95,95,93,32,32,32,
     91,95,95,95,93,39,46,95,95,46,39,124,95,95,95,95,95,95,95,47,91,95,95,95,93,32,32,32,32,96,
     46,95,95,95,46,39,32,32,92,95,95,95,95,95,95,46,39,32,32,10,10]"

definition splash_screen :: "bytes list \<Rightarrow> 'z kernel_scheme \<Rightarrow> 'z kernel_scheme result" where
  "splash_screen args s =
     bindE (print (s\<lparr>scr := clear_screen (scr s)\<rparr>) splash_text [Word_Arg White, Word_Arg Red]) (\<lambda>s.
     bindE (write_box (scr s) 0 (8 * 80 + 79)) (\<lambda>c.
       print_all (s\<lparr>scr := c\<rparr>)
         ([(ascii ''%f%b'', [Word_Arg Red, Word_Arg Black])] @
          concat (map (\<lambda>c. replicate 80 (ascii ''%c'', [Word_Arg c])) [178, 177, 176]) @
          [(ascii ''%f%b\<newline>'', [Word_Arg White, Word_Arg Black])])))"

definition display_ascii :: "bytes list \<Rightarrow> 'z kernel_scheme \<Rightarrow> 'z kernel_scheme result" where
  "display_ascii args s =
     print_all s
       ([(ascii ''0: 1:%c'' @ [9], [Word_Arg 1])] @
        map (\<lambda>c. if c = 10 then (ascii ''10:\<newline>'', [])
                 else if c < 10 then (ascii ''%d:%c'' @ [9, 9], [Word_Arg (of_nat c), Word_Arg (of_nat c)])
                 else (ascii ''%d:%c'' @ [9], [Word_Arg (of_nat c), Word_Arg (of_nat c)])) [2..<128] @
        [([10], [])] @
        map (\<lambda>c. (ascii ''%d:%c '', [Word_Arg (of_nat c), Word_Arg (of_nat c)])) [128..<256] @
        [([10], [])])"

definition splash_cmd :: command where
  "splash_cmd = \<lparr>cmd_name = ascii ''splash'',
     cmd_help = ascii ''Clears the screen and displays the splash screen (ignores its arguments)'',
     cmd_handler = Splash\<rparr>"
definition run_cmd :: command where
  "run_cmd = \<lparr>cmd_name = ascii ''run'',
     cmd_help = ascii ''Runs the given program (the argument is the name without extension)'',
     cmd_handler = Run\<rparr>"
definition ls_cmd :: command where
  "ls_cmd = \<lparr>cmd_name = ascii ''ls'',
     cmd_help = ascii ''Prints the contents of the current directory, or its arguments'', cmd_handler = Ls\<rparr>"
definition help_cmd :: command where
  "help_cmd = \<lparr>cmd_name = ascii ''help'',
     cmd_help = ascii ''Prints help of available functions, or of its arguments'', cmd_handler = Help\<rparr>"
definition echo_cmd :: command where
  "echo_cmd = \<lparr>cmd_name = ascii ''echo'',
     cmd_help = ascii ''Prints its arguments, separated by spaces'', cmd_handler = Echo\<rparr>"
definition cd_cmd :: command where
  "cd_cmd = \<lparr>cmd_name = ascii ''cd'',
     cmd_help = ascii ''Go to the given absolute or relative path'', cmd_handler = Cd\<rparr>"
definition pwd_cmd :: command where
  "pwd_cmd = \<lparr>cmd_name = ascii ''pwd'',
     cmd_help = ascii ''Prints the path to the current directory'', cmd_handler = Pwd\<rparr>"
definition ascii_cmd :: command where
  "ascii_cmd = \<lparr>cmd_name = ascii ''ascii'',
     cmd_help = ascii ''Displays the ascii table (ignores its arguments)'', cmd_handler = Ascii\<rparr>"
definition mkdir_cmd :: command where
  "mkdir_cmd = \<lparr>cmd_name = ascii ''mkdir'',
     cmd_help = ascii ''Creates a subdirectory of the current directory'', cmd_handler = Mkdir\<rparr>"
definition rm_cmd :: command where
  "rm_cmd = \<lparr>cmd_name = ascii ''rm'',
     cmd_help = ascii ''Deletes a file (option -r to delete a directory)'', cmd_handler = Rm\<rparr>"

definition shell_install :: "'z kernel_scheme \<Rightarrow> 'z kernel_scheme result" where
  "shell_install s =
     (let s = s\<lparr>sh := (sh s)\<lparr>path := [47]\<rparr>\<rparr>;
          s = foldl register_command s [splash_cmd, run_cmd, ls_cmd, help_cmd, echo_cmd, cd_cmd,
                pwd_cmd, ascii_cmd, mkdir_cmd, rm_cmd]
      in bindE (splash_screen [] s) (\<lambda>s.
         bindE (echo_thingy s) (\<lambda>s.
           Inr (s\<lparr>sh := (set_line (sh s) 0 (replicate buffer_size 0))
                   \<lparr>start_of_command := fst (get_cursor_pos (scr s))\<rparr>\<rparr>))))"

end
