(* ===== verification/Shell_Props.thy ===== *)
theory Shell_Props
  imports Shell Printer_Props
begin

text \<open>
  The line editor of the shell implements editing of a text with a cursor, \<open>edit_key\<close>, as long as
  the bytes behind the text are zero; the history keeps the lines that were run.
\<close>

subsection \<open>The abstract editor\<close>

text \<open>The text before and after the cursor.\<close>

definition editor :: "shell \<Rightarrow> bytes \<times> bytes" where
  "editor h = (let t = take (line_length h) (history h ! history_pos h) in (take (pos h) t, drop (pos h) t))"

definition edit_key :: "u8 \<Rightarrow> bytes \<times> bytes \<Rightarrow> bytes \<times> bytes" where
  "edit_key c e =
     (if c = 8 then if fst e = [] then e else (butlast (fst e), snd e)
      else if c = 127 then (fst e, tl (snd e))
      else if length (fst e) + length (snd e) < 127 then (fst e @ [c], snd e)
      else e)"

definition clean_line :: "bytes \<Rightarrow> nat \<Rightarrow> bool" where
  "clean_line b n \<longleftrightarrow> length b = 128 \<and> n \<le> 127 \<and> (\<forall>i<n. b ! i \<noteq> 0) \<and> (\<forall>i<128. n \<le> i \<longrightarrow> b ! i = 0)"

definition line_inv :: "shell \<Rightarrow> bool" where
  "line_inv h \<longleftrightarrow> history_pos h < length (history h) \<and> clean_line (history h ! history_pos h) (line_length h)
     \<and> pos h \<le> line_length h"

definition blank_inv :: "shell \<Rightarrow> bool" where
  "blank_inv h \<longleftrightarrow> length (blank_command h) = 128 \<and> max_length h \<le> 127 \<and> set (blank_command h) \<subseteq> {0, 32}"

subsection \<open>The loops\<close>

lemma shift_right_nth:
  "n \<le> i \<Longrightarrow> i < length b \<Longrightarrow> \<exists>b'. shift_right b i n = Inr b' \<and> length b' = length b \<and>
     (\<forall>j < length b. b' ! j = (if i - n < j \<and> j \<le> i then b ! (j - 1) else b ! j))"
proof (induction n arbitrary: b i)
  case (Suc n)
  let ?c = "b[i := b ! (i - 1)]"
  obtain b' where b': "shift_right ?c (i - 1) n = Inr b'" "length b' = length b"
    "\<forall>j < length b. b' ! j = (if i - 1 - n < j \<and> j \<le> i - 1 then ?c ! (j - 1) else ?c ! j)"
  proof -
    have "n \<le> i - 1" "i - 1 < length ?c" using Suc.prems by auto
    from Suc.IH [OF this] show ?thesis using that by auto
  qed
  have "b' ! j = (if i - Suc n < j \<and> j \<le> i then b ! (j - 1) else b ! j)" if "j < length b" for j
  proof -
    have "i \<noteq> j - 1" if "j \<le> i - 1" using that Suc.prems by linarith
    then show ?thesis
      using b'(3) [rule_format, OF that] that Suc.prems by (auto simp: nth_list_update)
  qed
  then show ?case using b'(1,2) Suc.prems by auto
qed auto

lemma shift_left_nth:
  "i + n < length b \<Longrightarrow> \<exists>b'. shift_left b i n = Inr b' \<and> length b' = length b \<and>
     (\<forall>j < length b. b' ! j = (if i \<le> j \<and> j < i + n then b ! (j + 1) else b ! j))"
proof (induction n arbitrary: b i)
  case (Suc n)
  let ?c = "b[i := b ! (i + 1)]"
  obtain b' where b': "shift_left ?c (i + 1) n = Inr b'" "length b' = length b"
    "\<forall>j < length b. b' ! j = (if i + 1 \<le> j \<and> j < i + 1 + n then ?c ! (j + 1) else ?c ! j)"
    using Suc.IH [of "i + 1" ?c] Suc.prems by auto
  have "b' ! j = (if i \<le> j \<and> j < i + Suc n then b ! (j + 1) else b ! j)" if "j < length b" for j
    using b'(3) [rule_format, OF that] that Suc.prems by (auto simp: nth_list_update)
  then show ?case using b'(1,2) Suc.prems by auto
qed auto

lemma get_line_ok:
  "i < length (history h) \<Longrightarrow> history h ! i \<noteq> [] \<Longrightarrow> get_line h i = Inr (history h ! i)"
  by (simp add: get_line_def)

lemma clean_line_nonempty: "clean_line b n \<Longrightarrow> b \<noteq> []"
  by (auto simp: clean_line_def)

lemma line_inv_get: "line_inv h \<Longrightarrow> get_line h (history_pos h) = Inr (history h ! history_pos h)"
  by (auto simp: line_inv_def get_line_ok clean_line_nonempty)

subsection \<open>Editing operations\<close>

lemma nth_inserted:
  assumes "p \<le> n" "n \<le> length b" "j \<le> n"
  shows "(take p b @ [c] @ drop p (take n b)) ! j = (if j = p then c else if p < j then b ! (j - 1) else b ! j)"
proof (cases "p < j")
  case True
  then obtain k where "j = p + Suc k" using less_imp_Suc_add by auto
  then show ?thesis using assms by (simp add: nth_append)
next
  case False
  then show ?thesis using assms by (auto simp: nth_append)
qed

lemma insert_char_edits:
  assumes "line_inv h" "line_length h < 127" "c \<noteq> 0"
  shows "\<exists>h'. insert_char h c = Inr h' \<and> line_inv h' \<and>
    editor h' = (fst (editor h) @ [c], snd (editor h)) \<and>
    blank_command h' = blank_command h \<and> max_length h' \<le> max (max_length h) 127"
proof -
  let ?b = "history h ! history_pos h" and ?n = "line_length h" and ?p = "pos h"
  have b: "length ?b = 128" "?p \<le> ?n" "\<forall>i<?n. ?b ! i \<noteq> 0" "\<forall>i<128. ?n \<le> i \<longrightarrow> ?b ! i = 0"
    and hp: "history_pos h < length (history h)"
    using assms(1) by (auto simp: line_inv_def clean_line_def)
  obtain b' where b': "shift_right ?b ?n (?n - ?p) = Inr b'" "length b' = 128"
    "\<forall>j < 128. b' ! j = (if ?p < j \<and> j \<le> ?n then ?b ! (j - 1) else ?b ! j)"
    using shift_right_nth [of "?n - ?p" ?n ?b] b assms(2) by auto
  let ?b'' = "b'[?p := c]"
  define h' where "h' = update_max_length ((set_line h (history_pos h) ?b'')\<lparr>pos := ?p + 1, line_length := ?n + 1\<rparr>)"
  have ins: "insert_char h c = Inr h'"
    using line_inv_get [OF assms(1)] b' b assms(2)
    by (simp add: insert_char_def h'_def set_line_def Let_def)
  have fields: "history h' = (history h)[history_pos h := ?b'']" "pos h' = ?p + 1" "line_length h' = ?n + 1"
    "history_pos h' = history_pos h" "blank_command h' = blank_command h" "max_length h' \<le> max (max_length h) 127"
    using assms(2) by (simp_all add: h'_def set_line_def update_max_length_def)
  have nth: "?b'' ! j = (if j = ?p then c else if ?p < j \<and> j \<le> ?n then ?b ! (j - 1) else ?b ! j)" if "j < 128" for j
    using b'(2,3) that by (auto simp: nth_list_update)
  have "clean_line ?b'' (?n + 1)"
    unfolding clean_line_def using b b' assms(2,3) by (auto simp: nth_list_update)
  have tk: "take (?n + 1) ?b'' = take ?p ?b @ [c] @ drop ?p (take ?n ?b)"
  proof (rule nth_equalityI)
    fix j assume "j < length (take (?n + 1) ?b'')"
    then have "j \<le> ?n" "j < 128" using b'(2) assms(2) by auto
    then show "take (?n + 1) ?b'' ! j = (take ?p ?b @ [c] @ drop ?p (take ?n ?b)) ! j"
      using nth [of j] nth_inserted [of ?p ?n ?b j c] b assms(2) by auto
  qed (use b b'(2) assms(2) in auto)
  have "editor h' = (take (?p + 1) (take (?n + 1) ?b''), drop (?p + 1) (take (?n + 1) ?b''))"
    using fields hp by (simp add: editor_def Let_def del: take_take)
  also have "\<dots> = (take ?p ?b @ [c], drop ?p (take ?n ?b))" unfolding tk using b assms(2) by simp
  also have "\<dots> = (fst (editor h) @ [c], snd (editor h))" using b by (simp add: editor_def Let_def min_def)
  finally have "editor h' = (fst (editor h) @ [c], snd (editor h))" .
  moreover have "line_inv h'" using \<open>clean_line ?b'' (?n + 1)\<close> fields hp b by (simp add: line_inv_def)
  ultimately show ?thesis using ins fields by blast
qed


lemma delete_char_edits:
  assumes "line_inv h"
  shows "\<exists>h'. delete_char h = Inr h' \<and> line_inv h' \<and> editor h' = (fst (editor h), tl (snd (editor h))) \<and>
    blank_command h' = blank_command h \<and> max_length h' = max_length h"
proof -
  let ?b = "history h ! history_pos h" and ?n = "line_length h" and ?p = "pos h"
  have b: "length ?b = 128" "?p \<le> ?n" "?n \<le> 127" "\<forall>i<?n. ?b ! i \<noteq> 0" "\<forall>i<128. ?n \<le> i \<longrightarrow> ?b ! i = 0"
    and hp: "history_pos h < length (history h)"
    using assms by (auto simp: line_inv_def clean_line_def)
  obtain b' where b': "shift_left ?b ?p (?n - ?p) = Inr b'" "length b' = 128"
    "\<forall>j < 128. b' ! j = (if ?p \<le> j \<and> j < ?n then ?b ! (j + 1) else ?b ! j)"
    using shift_left_nth [of ?p "?n - ?p" ?b] b by auto
  define m where "m = (if ?p < ?n then ?n - 1 else ?n)"
  define h' where "h' = (set_line h (history_pos h) b')\<lparr>line_length := m\<rparr>"
  have del: "delete_char h = Inr h'"
    using line_inv_get [OF assms] b' by (simp add: delete_char_def h'_def m_def set_line_def Let_def)
  have fields: "history h' = (history h)[history_pos h := b']" "pos h' = ?p" "line_length h' = m"
    "history_pos h' = history_pos h" "blank_command h' = blank_command h" "max_length h' = max_length h"
    by (simp_all add: h'_def set_line_def)
  have m: "m \<le> ?n" "?p \<le> m" using b by (auto simp: m_def)
  have "clean_line b' m"
    unfolding clean_line_def using b b' m by (auto simp: m_def)
  moreover have "take ?p (take m b') = take ?p (take ?n ?b)"
    by (rule nth_equalityI) (use b b' m in auto)
  moreover have "drop ?p (take m b') = tl (drop ?p (take ?n ?b))"
  proof (rule nth_equalityI)
    fix j assume "j < length (drop ?p (take m b'))"
    then have "?p + j < m" by auto
    then show "drop ?p (take m b') ! j = tl (drop ?p (take ?n ?b)) ! j"
      using b b' m by (auto simp: nth_tl m_def split: if_splits)
  qed (use b b' m in \<open>auto simp: m_def\<close>)
  ultimately show ?thesis
    using del fields hp m by (auto simp: line_inv_def editor_def Let_def)
qed

subsection \<open>Echoing the line\<close>

lemma write_string_total:
  "set cs \<inter> {0xC2, 0xC3} = {} \<Longrightarrow> \<exists>c'. write_string c cs = Inr c'"
  by (induction cs arbitrary: c) auto

lemma line_text_ok: "0 \<in> set b \<Longrightarrow> line_text b = Inr (text_of b)"
  by (simp add: line_text_def)

lemma clean_line_text:
  assumes "clean_line b n"
  shows "0 \<in> set b" "text_of b = take n b"
proof -
  have b: "length b = 128" "n \<le> 127" "\<forall>i<n. b ! i \<noteq> 0" "b ! n = 0"
    using assms by (auto simp: clean_line_def)
  show "0 \<in> set b" using b nth_mem [of n b] by auto
  have "b = take n b @ 0 # drop (n + 1) b"
    using b id_take_nth_drop [of n b] by simp
  moreover have "0 \<notin> set (take n b)" using b by (auto simp: in_set_conv_nth)
  ultimately show "text_of b = take n b" by (metis text_of_string)
qed

lemma set_update_subset: "set (xs[i := x]) \<subseteq> insert x (set xs)"
  by (rule set_update_subset_insert)

lemma echo_command_keeps:
  assumes "blank_inv (sh s)" "history_pos (sh s) < length (history (sh s))"
    "0 \<in> set (history (sh s) ! history_pos (sh s))"
  shows "\<exists>s'. echo_command s = Inr s' \<and> blank_inv (sh s') \<and>
    (\<exists>b. sh s' = (sh s)\<lparr>blank_command := b\<rparr>) \<and> run_pid s' = run_pid s"
proof -
  let ?h = "sh s" and ?m = "max_length (sh s)"
  have blank: "length (blank_command ?h) = 128" "?m \<le> 127" "set (blank_command ?h) \<subseteq> {0, 32}"
    using assms(1) by (auto simp: blank_inv_def)
  have "set ((blank_command ?h)[?m := 0]) \<subseteq> {0, 32}"
    using set_update_subset [of "blank_command ?h" ?m 0] blank(3) by auto
  then have "set ((blank_command ?h)[?m := 0]) \<inter> {0xC2, 0xC3} = {}" by auto
  from write_string_total [OF this]
  obtain c where c: "write_string (set_cursor_pos (scr s) (start_of_command ?h)) ((blank_command ?h)[?m := 0]) = Inr c"
    by blast
  have "set ((blank_command ?h)[?m := 32]) \<subseteq> {0, 32}"
    using set_update_subset [of "blank_command ?h" ?m 32] blank(3) by auto
  then have inv: "blank_inv (?h\<lparr>blank_command := (blank_command ?h)[?m := 32]\<rparr>)"
    using blank by (simp add: blank_inv_def)
  have line: "get_line (?h\<lparr>blank_command := (blank_command ?h)[?m := 32]\<rparr>) (history_pos ?h) = Inr (history ?h ! history_pos ?h)"
    using assms(2,3) by (auto simp: get_line_def)
  show ?thesis
    using c blank(1,2) line assms(3) inv
    by (auto simp: echo_command_def Let_def line_text_ok set_pos_def)
qed


definition shell_inv :: "'z kernel_scheme \<Rightarrow> bool" where
  "shell_inv s \<longleftrightarrow> line_inv (sh s) \<and> blank_inv (sh s)"

lemma line_inv_blank [simp]: "line_inv (h\<lparr>blank_command := b\<rparr>) = line_inv h"
  by (simp add: line_inv_def)

lemma editor_blank [simp]: "editor (h\<lparr>blank_command := b\<rparr>) = editor h"
  by (simp add: editor_def)

lemma echo_edited:
  assumes "line_inv (sh s)" "blank_inv (sh s)"
  shows "\<exists>s'. echo_command s = Inr s' \<and> shell_inv s' \<and> editor (sh s') = editor (sh s)"
proof -
  have "history_pos (sh s) < length (history (sh s))" "0 \<in> set (history (sh s) ! history_pos (sh s))"
    using assms(1) clean_line_text by (auto simp: line_inv_def)
  from echo_command_keeps [OF assms(2) this] show ?thesis
    using assms(1) by (auto simp: shell_inv_def)
qed

lemma scroll_command_keeps:
  "line_inv (sh (scroll_command s)) = line_inv (sh s)" "blank_inv (sh (scroll_command s)) = blank_inv (sh s)"
  "editor (sh (scroll_command s)) = editor (sh s)"
  by (simp_all add: scroll_command_def line_inv_def blank_inv_def editor_def)

lemma length_editor:
  "line_inv h \<Longrightarrow> length (fst (editor h)) = pos h \<and> length (fst (editor h)) + length (snd (editor h)) = line_length h"
  by (auto simp: editor_def line_inv_def clean_line_def Let_def)

lemma editor_back:
  "line_inv h \<Longrightarrow> 0 < pos h \<Longrightarrow> line_inv (h\<lparr>pos := pos h - 1\<rparr>) \<and>
     fst (editor (h\<lparr>pos := pos h - 1\<rparr>)) = butlast (fst (editor h)) \<and>
     tl (snd (editor (h\<lparr>pos := pos h - 1\<rparr>))) = snd (editor h)"
  by (auto simp: line_inv_def clean_line_def editor_def Let_def butlast_take tl_drop Suc_diff_le
      simp flip: drop_Suc)


lemma edit_type:
  assumes "shell_inv s" "c \<notin> {0, 8, 9, 10, 127}"
  shows "\<exists>s'. shell_write_char H s c = Inr s' \<and> shell_inv s' \<and> editor (sh s') = edit_key c (editor (sh s))"
proof -
  let ?h = "sh s"
  have inv: "line_inv ?h" "blank_inv ?h" using assms(1) by (simp_all add: shell_inv_def)
  note len = length_editor [OF inv(1)]
  show ?thesis
  proof (cases "line_length ?h < 127")
    case True
    then obtain h' where h': "insert_char ?h c = Inr h'" "line_inv h'"
      "editor h' = (fst (editor ?h) @ [c], snd (editor ?h))"
      "blank_command h' = blank_command ?h" "max_length h' \<le> max (max_length ?h) 127"
      using insert_char_edits [OF inv(1), of c] assms(2) by blast
    have "blank_inv h'" using h' inv(2) by (auto simp: blank_inv_def)
    then obtain s' where "echo_command (scroll_command (s\<lparr>sh := h'\<rparr>)) = Inr s'" "shell_inv s'" "editor (sh s') = editor h'"
      using echo_edited [of "scroll_command (s\<lparr>sh := h'\<rparr>)"] h'(2) by (auto simp: scroll_command_keeps)
    then show ?thesis using assms(2) True h' len by (auto simp: shell_write_char_def edit_key_def)
  next
    case False
    then show ?thesis using assms(2) len echo_edited [OF inv] by (auto simp: shell_write_char_def edit_key_def)
  qed
qed

lemma edit_delete:
  assumes "line_inv h" "blank_inv h"
  shows "\<exists>s'. bindE (delete_char h) (\<lambda>h. echo_command (s\<lparr>sh := h\<rparr>)) = Inr s' \<and> shell_inv s' \<and>
    editor (sh s') = (fst (editor h), tl (snd (editor h)))"
proof -
  obtain h' where h': "delete_char h = Inr h'" "line_inv h'" "editor h' = (fst (editor h), tl (snd (editor h)))"
    "blank_command h' = blank_command h" "max_length h' = max_length h"
    using delete_char_edits [OF assms(1)] by blast
  then have "blank_inv h'" using assms(2) by (simp add: blank_inv_def)
  then show ?thesis using echo_edited [of "s\<lparr>sh := h'\<rparr>"] h' by auto
qed

subsection \<open>Properties\<close>

text \<open>C30: In the shell, every key but newline and tabulator edits the line as \<open>edit_key\<close> says: backspace
  removes the character before the cursor, delete the one after it, any other character is
  inserted there while there is room for 127; the key is always handled without a fault, and
  the line stays well formed.\<close>
theorem shell_keys_edit_line:
  assumes "shell_inv s" "c \<notin> {0, 9, 10}"
  shows "\<exists>s'. shell_write_char H s c = Inr s' \<and> shell_inv s' \<and> editor (sh s') = edit_key c (editor (sh s))"
proof -
  let ?h = "sh s"
  have inv: "line_inv ?h" "blank_inv ?h" using assms(1) by (simp_all add: shell_inv_def)
  consider "c = 8" "pos ?h = 0" | "c = 8" "0 < pos ?h" | "c = 127" | "c \<notin> {0, 8, 9, 10, 127}"
    using assms(2) by auto
  then show ?thesis
  proof cases
    case 1
    then show ?thesis using assms(1) length_editor [OF inv(1)] by (auto simp: shell_write_char_def edit_key_def)
  next
    case 2
    have "blank_inv (?h\<lparr>pos := pos ?h - 1\<rparr>)" using inv(2) by (simp add: blank_inv_def)
    then show ?thesis
      using 2 editor_back [OF inv(1) 2(2)] edit_delete [of "?h\<lparr>pos := pos ?h - 1\<rparr>" s] length_editor [OF inv(1)]
      by (auto simp: shell_write_char_def edit_key_def)
  next
    case 3
    then show ?thesis using edit_delete [OF inv, of s] by (simp add: shell_write_char_def edit_key_def)
  next
    case 4
    then show ?thesis using edit_type [OF assms(1)] by blast
  qed
qed

definition empty_shell :: shell where
  "empty_shell = boot_shell\<lparr>history := replicate 128 0 # replicate 99 []\<rparr>"

lemma empty_shell_inv: "line_inv empty_shell" "blank_inv empty_shell"
  by (simp_all add: empty_shell_def boot_shell_def line_inv_def clean_line_def blank_inv_def)

theorem shell_keys_edit_line_witness:
  "\<exists>s'. shell_write_char (\<lambda>_ _. Inr) (boot_state\<lparr>sh := empty_shell\<rparr>) 97 = Inr s' \<and> editor (sh s') = ([97], [])"
proof -
  have "shell_inv (boot_state\<lparr>sh := empty_shell\<rparr>)" by (simp add: shell_inv_def empty_shell_inv)
  from shell_keys_edit_line [OF this, of 97 "\<lambda>_ _. Inr"]
  show ?thesis by (auto simp: edit_key_def editor_def empty_shell_def boot_shell_def)
qed

subsection \<open>History\<close>

text \<open>
  The entries up to \<open>history_length\<close> are buffers with a terminator; the one selected is among
  them.  Entries beyond have not been allocated yet.
\<close>

definition history_inv :: "shell \<Rightarrow> bool" where
  "history_inv h \<longleftrightarrow> length (history h) = 100 \<and> history_length h \<le> 99 \<and> history_pos h \<le> history_length h \<and>
     (\<forall>i \<le> history_length h. length (history h ! i) = 128 \<and> 0 \<in> set (history h ! i))"

lemma history_inv_get: "history_inv h \<Longrightarrow> i \<le> history_length h \<Longrightarrow> get_line h i = Inr (history h ! i)"
  by (auto simp: history_inv_def get_line_def)

lemma text_of_short: "0 \<in> set b \<Longrightarrow> length (text_of b) < length b"
  by (drule split_list_first) (auto simp: text_of_string)

lemma zero_notin_text_of: "0 \<notin> set (text_of b)"
  unfolding text_of_def by (auto dest: set_takeWhileD)

lemma copy_line_text:
  assumes "0 \<in> set src" "length src = 128" "length dest = 128"
  shows "copy_line src dest = Inr (text_of src @ 0 # drop (length (text_of src) + 1) dest)"
    and "length (text_of src @ 0 # drop (length (text_of src) + 1) dest) = 128"
  using assms text_of_short [OF assms(1)] by (simp_all add: copy_line_def line_text_ok)

text \<open>The lines that can be recalled: the texts of the entries before the newest one.\<close>

definition recalled :: "shell \<Rightarrow> bytes list" where
  "recalled h = map text_of (take (history_length h) (history h))"

lemma save_line_saves:
  assumes "history_inv h" "history_length h < 99"
  shows "\<exists>h'. save_line h = Inr h' \<and> history_length h' = history_length h + 1 \<and> history_pos h' = history_length h + 1 \<and>
    length (history h') = 100 \<and> (\<forall>i \<le> history_length h. length (history h' ! i) = 128 \<and> 0 \<in> set (history h' ! i)) \<and>
    recalled h' = recalled h @ [text_of (history h ! history_pos h)]"
proof -
  let ?n = "history_length h" and ?src = "history h ! history_pos h" and ?dest = "history h ! history_length h"
  define b where "b = text_of ?src @ 0 # drop (length (text_of ?src) + 1) ?dest"
  have inv: "length (history h) = 100" "history_pos h \<le> ?n" "\<forall>i \<le> ?n. length (history h ! i) = 128 \<and> 0 \<in> set (history h ! i)"
    using assms(1) by (simp_all add: history_inv_def)
  have b: "copy_line ?src ?dest = Inr b" "length b = 128" "text_of b = text_of ?src" "0 \<in> set b"
    unfolding b_def using copy_line_text [of ?src ?dest] inv by (auto simp: text_of_string zero_notin_text_of)
  define h' where "h' = h\<lparr>history := (history h)[?n := b], history_length := ?n + 1, history_pos := ?n + 1\<rparr>"
  have "save_line h = Inr h'"
    using assms(2) b history_inv_get [OF assms(1)] inv(2) by (simp add: save_line_def h'_def set_line_def Let_def)
  moreover have "recalled h' = recalled h @ [text_of ?src]"
    using assms(2) inv(1) b(3) by (simp add: recalled_def h'_def take_Suc_conv_app_nth)
  ultimately show ?thesis using assms(2) inv b by (auto simp: h'_def nth_list_update)
qed

lemma save_line_full:
  assumes "history_inv h" "history_length h = 99"
  shows "\<exists>h'. save_line h = Inr h' \<and> history_length h' = 99 \<and> history_pos h' = 99 \<and> length (history h') = 100 \<and>
    (\<forall>i \<le> 99. length (history h' ! i) = 128 \<and> 0 \<in> set (history h' ! i)) \<and>
    recalled h' = tl (recalled h) @ [text_of (history h ! 99)]"
proof -
  have inv: "length (history h) = 100" "\<forall>i \<le> 99. length (history h ! i) = 128 \<and> 0 \<in> set (history h ! i)"
    using assms by (simp_all add: history_inv_def)
  define h' where "h' = h\<lparr>history := tl (history h) @ [last (history h)], history_pos := 99\<rparr>"
  have "save_line h = Inr h'" using assms(2) by (simp add: save_line_def h'_def)
  moreover have nth: "history h' ! i = history h ! (if i < 99 then i + 1 else 99)" if "i \<le> 99" for i
  proof -
    have "history h \<noteq> []" using inv(1) by auto
    then show ?thesis using that inv(1) by (auto simp: h'_def nth_append nth_tl last_conv_nth)
  qed
  moreover have "recalled h' = tl (recalled h) @ [text_of (history h ! 99)]"
  proof (rule nth_equalityI)
    fix i assume "i < length (recalled h')"
    then have "i < 99" using inv(1) by (simp add: recalled_def h'_def assms(2))
    then show "recalled h' ! i = (tl (recalled h) @ [text_of (history h ! 99)]) ! i"
      using nth [of i] inv(1) assms(2)
      by (cases "i = 98") (auto simp: recalled_def h'_def nth_append nth_tl)
  qed (use inv(1) assms(2) in \<open>simp add: recalled_def h'_def\<close>)
  ultimately show ?thesis using inv assms(2) by (auto simp: h'_def)
qed


lemma echo_thingy_keeps: "echo_thingy s = Inr s' \<Longrightarrow> \<exists>c. s' = s\<lparr>scr := c\<rparr>"
  by (auto simp: echo_thingy_def print_def bindE_eq_Inr)

lemma finish_history:
  fixes h :: shell and w :: u16
  assumes "length (history h) = 100" "history_length h \<le> 99" "history_pos h = history_length h"
    "\<forall>i < history_length h. length (history h ! i) = 128 \<and> 0 \<in> set (history h ! i)"
  defines "h' \<equiv> (set_line h (history_pos h) (replicate 128 0))\<lparr>pos := 0, start_of_command := w, line_length := 0, max_length := 0\<rparr>"
  shows "history_inv h' \<and> recalled h' = recalled h \<and> line_inv h' \<and> editor h' = ([], [])"
  using assms by (auto simp: history_inv_def recalled_def line_inv_def clean_line_def editor_def set_line_def nth_list_update)

text \<open>C31: Ending a command, when no program started from the shell is running and the prompt can be
  printed, appends the line that was run to the lines that can be recalled, drops the
  oldest one when there are 99 (and then keeps the newest line instead of the one that was run),
  and starts a new empty line; it never faults on a well-formed history and keeps it well
  formed.\<close>
theorem finalize_command_history:
  assumes "history_inv (sh s)" "run_pid s = []" "echo_thingy s = Inr s1"
  shows "\<exists>s'. finalize_command s = Inr s' \<and> history_inv (sh s') \<and> line_inv (sh s') \<and> editor (sh s') = ([], []) \<and>
    recalled (sh s') =
      (if history_length (sh s) < 99 then recalled (sh s) @ [text_of (history (sh s) ! history_pos (sh s))]
       else tl (recalled (sh s)) @ [text_of (history (sh s) ! 99)])"
proof -
  obtain c where s1: "s1 = s\<lparr>scr := c\<rparr>" using echo_thingy_keeps [OF assms(3)] by blast
  obtain h where h: "save_line (sh s) = Inr h" "history_length h \<le> 99" "history_pos h = history_length h" "length (history h) = 100"
    "\<forall>i < history_length h. length (history h ! i) = 128 \<and> 0 \<in> set (history h ! i)"
    "recalled h = (if history_length (sh s) < 99 then recalled (sh s) @ [text_of (history (sh s) ! history_pos (sh s))]
       else tl (recalled (sh s)) @ [text_of (history (sh s) ! 99)])"
  proof (cases "history_length (sh s) < 99")
    case True
    from save_line_saves [OF assms(1) True] show ?thesis using True that by auto
  next
    case False
    then have "history_length (sh s) = 99" using assms(1) by (simp add: history_inv_def)
    from save_line_full [OF assms(1) this] show ?thesis using False that by auto
  qed
  let ?h' = "(set_line h (history_pos h) (replicate 128 0))\<lparr>pos := 0,
    start_of_command := fst (get_cursor_pos c), line_length := 0, max_length := 0\<rparr>"
  have "finalize_command s = Inr (s1\<lparr>sh := ?h'\<rparr>)"
    using assms h by (simp add: finalize_command_def s1 Let_def)
  then show ?thesis using finish_history [OF h(4,2,3,5)] h(6) by (intro exI [of _ "s1\<lparr>sh := ?h'\<rparr>"]) simp
qed

lemma empty_shell_history: "history_inv empty_shell"
  by (simp add: history_inv_def empty_shell_def boot_shell_def)

theorem finalize_command_history_witness:
  "\<exists>s'. finalize_command (boot_state\<lparr>sh := empty_shell\<rparr>) = Inr s' \<and> recalled (sh s') = [[]]"
proof -
  have "run_pid (boot_state\<lparr>sh := empty_shell\<rparr>) = []" by (simp add: boot_state_def)
  moreover obtain s1 where "echo_thingy (boot_state\<lparr>sh := empty_shell\<rparr>) = Inr s1"
    by (auto simp: echo_thingy_def print_def ascii_def write_conversion_def pop_word_def pop_str_def
        boot_state_def boot_shell_def empty_shell_def of_char_def)
  ultimately show ?thesis
    using finalize_command_history [of "boot_state\<lparr>sh := empty_shell\<rparr>" s1] empty_shell_history
    by (auto simp: empty_shell_def boot_shell_def recalled_def text_of_def)
qed

text \<open>C32: Copying a line over a longer one leaves the end of the longer one behind the terminator, and
  a character typed at the end of the recalled line then overwrites the terminator: the old
  bytes become part of the command.\<close>
theorem recalled_line_grows_tail:
  assumes "copy_line src dest = Inr b" "dest = u @ 0 # v" "0 \<notin> set u" "length dest = 128"
    "length (text_of src) + 1 < length u" "history_pos h < length (history h)" "history h ! history_pos h = b"
    "line_length h = length (text_of src)" "pos h = line_length h"
  shows "\<exists>h'. insert_char h c = Inr h' \<and> (c \<noteq> 0 \<longrightarrow>
    text_of (history h' ! history_pos h') = text_of src @ c # drop (length (text_of src) + 1) u)"
proof -
  let ?t = "text_of src"
  have b: "b = ?t @ 0 # drop (length ?t + 1) u @ 0 # v"
    using assms(1,2,5) by (auto simp: copy_line_def line_text_def split: if_splits)
  have line: "get_line h (history_pos h) = Inr b" using assms(6,7) b by (auto simp: get_line_def)
  have upd: "b[length ?t := c] = (?t @ c # drop (length ?t + 1) u) @ 0 # v" unfolding b by simp
  have "0 \<notin> set (drop (length ?t + 1) u)" using assms(3) by (meson in_set_dropD)
  then have "text_of (b[length ?t := c]) = ?t @ c # drop (length ?t + 1) u" if "c \<noteq> 0"
    unfolding upd using that zero_notin_text_of by (intro text_of_string) auto
  then show ?thesis
    using line assms(6,8,9) b
    by (auto simp: insert_char_def set_line_def update_max_length_def Let_def)
qed

theorem recalled_line_grows_tail_witness:
  defines "h \<equiv> boot_shell\<lparr>history := [[108, 115] @ 0 # [100, 101, 102] @ 0 # replicate 121 0],
    line_length := 2, pos := 2\<rparr>"
  shows "\<exists>h'. insert_char h 120 = Inr h' \<and>
    text_of (history h' ! history_pos h') = [108, 115, 120, 100, 101, 102]"
proof -
  let ?src = "[108, 115, 0] :: bytes" and ?u = "[97, 98, 99, 100, 101, 102] :: bytes" and ?v = "replicate 121 0 :: bytes"
  let ?b = "[108, 115] @ 0 # [100, 101, 102] @ 0 # replicate 121 0 :: bytes"
  have "copy_line ?src (?u @ 0 # ?v) = Inr ?b"
    by (simp add: copy_line_def line_text_def text_of_def)
  from recalled_line_grows_tail [OF this refl, of h 120] show ?thesis
    by (auto simp: text_of_def h_def boot_shell_def)
qed

end
