(* ===== verification/Scheduler.thy ===== *)
theory Scheduler
  imports Shell
begin

text \<open>
  \<^verbatim>\<open>process.c\<close> and \<^verbatim>\<open>scheduler.c\<close>: creation of processes, the choice of the next one, the switch
  between the contexts of kernel and process, and the timer interrupt.  \<open>A\<close> is the allocator,
  and \<open>load\<close> is \<^verbatim>\<open>load_code\<close>, which fills the code pages of a new process from a file.
\<close>

subsection \<open>Processes\<close>

text \<open>
  Without a new page directory the two allocator pointers are not initialised; the callers
  overwrite the whole context then.
\<close>

definition new_process ::
  "'z kernel_scheme allocator \<Rightarrow> 'z kernel_scheme \<Rightarrow> u32 \<Rightarrow> int \<Rightarrow> bool \<Rightarrow> (process \<times> 'z kernel_scheme) result"
where
  "new_process A s parent pr create_page_dir =
     bindE (if create_page_dir then new_page_dir A s else Inr ((0, 0, 0), s)) (\<lambda>((dir, ffb, um), s).
     bindE (alloc_aligned A s 76 1) (\<lambda>(regs, s).
     let data = USER_DATA_SEGMENT (desc s);
         s = foldl (\<lambda>s r. set_reg s regs r data) s [Gs, Fs, Es, Ds];
         s = foldl (\<lambda>s r. set_reg s regs r 0) s [Ebp, Esp, Edi, Esi, Edx, Ecx, Ebx, Eax];
         s = foldl (\<lambda>s r. set_reg s regs r 0) s [Err_code, Int_no, Eip];
         s = set_reg s regs Cs (USER_CODE_SEGMENT (desc s));
         s = set_reg s regs Eflags 0x200;
         s = set_reg s regs Useresp (START_OF_USER_STACK s);
         s = set_reg s regs Ss (USER_STACK_SEGMENT (desc s))
     in Inr (\<lparr>proc_state = Runnable, parent_id = parent, prio = pr,
              ctx = \<lparr>regs_at = regs, ctx_first_free_block = ffb, ctx_unallocated_mem = um, page_dir = dir\<rparr>\<rparr>, s)))"

subsection \<open>Choosing a process\<close>

text \<open>
  One runqueue: processes are moved from the queue to a temporary queue until a runnable one
  is found, then all of the temporary queue is appended to what is left.
\<close>

fun scan_runqueue :: "process list \<Rightarrow> u32 list \<Rightarrow> u32 list \<Rightarrow> (u32 option \<times> u32 list \<times> u32 list) result" where
  "scan_runqueue procs [] temp = Inr (None, [], temp)"
| "scan_runqueue procs (pid # q) temp =
     (if unat pid < length procs then
        if proc_state (procs ! unat pid) = Runnable then Inr (Some pid, q, temp @ [pid])
        else scan_runqueue procs q (temp @ [pid])
      else Inl OutOfBounds)"

fun restore_runqueue :: "u32 list \<Rightarrow> u32 list \<Rightarrow> u32 list" where
  "restore_runqueue q [] = q"
| "restore_runqueue q (pid # temp) = restore_runqueue (q @ [pid]) temp"

text \<open>The runqueues below priority \<open>pr\<close>, from the highest priority down.\<close>

fun select_loop :: "process list \<Rightarrow> u32 list list \<Rightarrow> nat \<Rightarrow> (u32 option \<times> u32 list list) result" where
  "select_loop procs rqs 0 = Inr (None, rqs)"
| "select_loop procs rqs (Suc pr) =
     (if pr < length rqs then
        bindE (scan_runqueue procs (rqs ! pr) []) (\<lambda>(found, q, temp).
          let rqs = rqs[pr := restore_runqueue q temp]
          in case found of Some pid \<Rightarrow> Inr (Some pid, rqs) | None \<Rightarrow> select_loop procs rqs pr)
      else Inl OutOfBounds)"

definition select_new_process :: "'z kernel_scheme \<Rightarrow> 'z kernel_scheme result" where
  "select_new_process s =
     bindE (select_loop (processes s) (runqueues s) (MAX_PRIORITY + 1)) (\<lambda>(found, rqs).
       Inr (case found of Some pid \<Rightarrow> s\<lparr>runqueues := rqs, curr_pid := pid\<rparr> | None \<Rightarrow> s\<lparr>runqueues := rqs\<rparr>))"

subsection \<open>Switching contexts\<close>

text \<open>The two macros of \<^verbatim>\<open>scheduler.c\<close>; \<open>regs\<close> is the interrupt frame on the kernel stack.\<close>

definition SWITCH_BEFORE :: "'z kernel_scheme \<Rightarrow> u32 \<Rightarrow> 'z kernel_scheme result" where
  "SWITCH_BEFORE s regs =
     (let s = s\<lparr>in_kernel := True\<rparr>;
          s = switch_page_directory s (kernel_directory s)
      in bindE (get_proc s (curr_pid s)) (\<lambda>p.
         let s = copy_regs s (regs_at (ctx p)) regs;
             c = (ctx p)\<lparr>ctx_first_free_block := first_free_block s, ctx_unallocated_mem := unallocated_mem s\<rparr>;
             s = set_proc s (curr_pid s) (p\<lparr>ctx := c\<rparr>)
         in Inr (s\<lparr>unallocated_mem := kernel_unallocated_mem s, first_free_block := kernel_first_free_block s\<rparr>)))"

definition SWITCH_AFTER :: "'z kernel_scheme \<Rightarrow> u32 \<Rightarrow> 'z kernel_scheme result" where
  "SWITCH_AFTER s regs =
     (let s = s\<lparr>kernel_unallocated_mem := unallocated_mem s, kernel_first_free_block := first_free_block s\<rparr>
      in bindE (get_proc s (curr_pid s)) (\<lambda>p.
         let s = s\<lparr>first_free_block := ctx_first_free_block (ctx p), unallocated_mem := ctx_unallocated_mem (ctx p)\<rparr>;
             s = copy_regs s regs (regs_at (ctx p));
             s = switch_page_directory s (page_dir (ctx p))
         in Inr (s\<lparr>in_kernel := False\<rparr>)))"

definition timer_handler :: "'z kernel_scheme \<Rightarrow> u32 \<Rightarrow> 'z kernel_scheme result" where
  "timer_handler s regs =
     (if in_kernel s then Inr (s\<lparr>should_cycle := True\<rparr>)
      else bindE (SWITCH_BEFORE s regs) (\<lambda>s.
           bindE (select_new_process s) (\<lambda>s. SWITCH_AFTER s regs)))"

text \<open>
  \<^verbatim>\<open>switch_to_process\<close> up to the return to user mode: the frame it builds has the five words that
  \<^verbatim>\<open>iret\<close> takes, with the interrupt flag set in the current flags, and the four segment registers
  that are popped before it.
\<close>

record iret_frame =
  f_eip :: u32
  f_cs :: u32
  f_eflags :: u32
  f_useresp :: u32
  f_ss :: u32
  f_ds :: u32
  f_es :: u32
  f_fs :: u32
  f_gs :: u32

definition switch_to_process :: "'z kernel_scheme \<Rightarrow> u32 \<Rightarrow> u32 \<Rightarrow> (iret_frame \<times> 'z kernel_scheme) result" where
  "switch_to_process s eflags pid =
     (let s = s\<lparr>in_kernel := False, should_cycle := False\<rparr>
      in bindE (get_proc s pid) (\<lambda>p.
         let c = ctx p;
             s = s\<lparr>kernel_unallocated_mem := unallocated_mem s, kernel_first_free_block := first_free_block s\<rparr>;
             s = s\<lparr>first_free_block := ctx_first_free_block c, unallocated_mem := ctx_unallocated_mem c\<rparr>;
             f = \<lparr>f_eip = get_reg s (regs_at c) Eip, f_cs = get_reg s (regs_at c) Cs, f_eflags = eflags OR 0x200,
                  f_useresp = get_reg s (regs_at c) Useresp, f_ss = get_reg s (regs_at c) Ss,
                  f_ds = get_reg s (regs_at c) Ds, f_es = get_reg s (regs_at c) Es, f_fs = get_reg s (regs_at c) Fs,
                  f_gs = get_reg s (regs_at c) Gs\<rparr>
         in Inr (f, switch_page_directory s (page_dir c))))"

subsection \<open>Starting programs\<close>

text \<open>The first free entry of the process table from \<open>i\<close> on, or 128.\<close>

fun find_free :: "process list \<Rightarrow> nat \<Rightarrow> nat \<Rightarrow> nat" where
  "find_free procs i 0 = i"
| "find_free procs i (Suc n) =
     (if i < length procs \<and> proc_state (procs ! i) = Free then i else find_free procs (i + 1) n)"

definition enqueue_at :: "'z kernel_scheme \<Rightarrow> int \<Rightarrow> u32 \<Rightarrow> 'z kernel_scheme result" where
  "enqueue_at s pr pid =
     (if 0 \<le> pr \<and> nat pr < length (runqueues s)
      then Inr (s\<lparr>runqueues := (runqueues s)[nat pr := runqueues s ! nat pr @ [pid]]\<rparr>)
      else Inl OutOfBounds)"

definition run_program ::
  "'z kernel_scheme allocator \<Rightarrow> (bytes \<Rightarrow> proc_context \<Rightarrow> 'z kernel_scheme \<Rightarrow> (bool \<times> 'z kernel_scheme) result)
     \<Rightarrow> bytes \<Rightarrow> 'z kernel_scheme \<Rightarrow> 'z kernel_scheme result"
where
  "run_program A load name s =
     (let pid = find_free (processes s) 0 NUM_PROCESSES
      in if pid = NUM_PROCESSES then
           print s (ascii ''%frun:%f'' @ [9] @ ascii ''Unable to create a new process\<newline>'')
             [Word_Arg LightRed, Word_Arg White]
         else bindE (new_process A s 1 1 True) (\<lambda>(p, s).
           let s = set_proc s (of_nat pid) p
           in bindE (load name (ctx p) s) (\<lambda>(ok, s).
              if ok then
                bindE (enqueue_at (s\<lparr>run_pid := of_nat pid # run_pid s\<rparr>) 1 (of_nat pid)) (\<lambda>s.
                  Inr (s\<lparr>run_executed := True\<rparr>))
              else
                bindE (print s (ascii ''%frun:%f'' @ [9] @ ascii ''Unknown file: progs/%s.elf\<newline>'')
                  [Word_Arg LightRed, Word_Arg White, Str_Arg name]) (\<lambda>s.
                bindE (release A s (regs_at (ctx p))) (\<lambda>s.
                bindE (free_page_dir A s (page_dir (ctx p))) (\<lambda>s.
                bindE (get_proc s (of_nat pid)) (\<lambda>p.
                  Inr (set_proc s (of_nat pid) (p\<lparr>proc_state := Free\<rparr>)))))))))"

fun run_handler ::
  "'z kernel_scheme allocator \<Rightarrow> (bytes \<Rightarrow> proc_context \<Rightarrow> 'z kernel_scheme \<Rightarrow> (bool \<times> 'z kernel_scheme) result)
     \<Rightarrow> bytes list \<Rightarrow> 'z kernel_scheme \<Rightarrow> 'z kernel_scheme result"
where
  "run_handler A load args s =
     (if args = [] then
        print s (ascii ''%frun:%f'' @ [9] @ ascii ''No arguments given\<newline>'') [Word_Arg LightRed, Word_Arg White]
      else foldl (\<lambda>r prog. bindE r (run_program A load prog)) (Inr s) args)"

text \<open>
  Installation: the idle process with the weakest priority and the init process with the
  strongest one.  The results of \<^verbatim>\<open>load_code\<close> are ignored.  The system call table is set by
  \<^verbatim>\<open>syscall_install\<close>, a parameter here.
\<close>

definition scheduler_install ::
  "'z kernel_scheme allocator \<Rightarrow> (bytes \<Rightarrow> proc_context \<Rightarrow> 'z kernel_scheme \<Rightarrow> (bool \<times> 'z kernel_scheme) result)
     \<Rightarrow> ('z kernel_scheme \<Rightarrow> 'z kernel_scheme) \<Rightarrow> u32 \<Rightarrow> 'z kernel_scheme \<Rightarrow> (iret_frame \<times> 'z kernel_scheme) result"
where
  "scheduler_install A load syscall_install eflags s =
     (let s = s\<lparr>curr_pid := 0, processes := replicate NUM_PROCESSES free_process,
                runqueues := replicate (MAX_PRIORITY + 1) []\<rparr>
      in bindE (new_process A s 0 0 True) (\<lambda>(idle, s).
         let s = set_proc s 0 idle
         in bindE (load (ascii ''idle'') (ctx idle) s) (\<lambda>(_, s).
            bindE (enqueue_at s 0 0) (\<lambda>s.
            bindE (new_process A s 1 (int MAX_PRIORITY) True) (\<lambda>(init, s).
            let s = set_proc s 1 init
            in bindE (load (ascii ''init'') (ctx init) s) (\<lambda>(_, s).
               bindE (enqueue_at s (int MAX_PRIORITY) 1) (\<lambda>s.
               let s = s\<lparr>run_pid := []\<rparr>
               in bindE (timer_phase (desc s) 1000) (\<lambda>d.
                  bindE (irq_install_handler d 0 Timer_handler) (\<lambda>d.
                  let s = syscall_install (s\<lparr>desc := d\<rparr>)
                  in switch_to_process (s\<lparr>curr_pid := 1\<rparr>) eflags 1)))))))))"

end
