(* ===== verification/Syscall.thy ===== *)
theory Syscall
  imports Scheduler
begin

text \<open>
  \<^verbatim>\<open>syscall.c\<close>: fork, exit, wait, printf, hlt and the memory calls, and the decoding of system
  calls.  The six calls on files are a parameter of the decoder, as are the interrupts that
  arrive while the processor is halted.
\<close>

subsection \<open>Calls in the address space of the process\<close>

definition curr_regs :: "'z kernel_scheme \<Rightarrow> u32 result" where
  "curr_regs s = bindE (get_proc s (curr_pid s)) (\<lambda>p. Inr (regs_at (ctx p)))"

text \<open>The two macros \<^verbatim>\<open>SWITCH_AFTER\<close> and \<^verbatim>\<open>SWITCH_BEFORE\<close> of \<^verbatim>\<open>syscall.c\<close>, around accesses to the user's memory.\<close>

definition user_enter :: "'z kernel_scheme \<Rightarrow> 'z kernel_scheme result" where
  "user_enter s =
     (let s = s\<lparr>kernel_unallocated_mem := unallocated_mem s, kernel_first_free_block := first_free_block s\<rparr>
      in bindE (get_proc s (curr_pid s)) (\<lambda>p.
         let s = s\<lparr>first_free_block := ctx_first_free_block (ctx p), unallocated_mem := ctx_unallocated_mem (ctx p)\<rparr>
         in Inr (switch_page_directory s (page_dir (ctx p)))))"

definition user_leave :: "'z kernel_scheme \<Rightarrow> 'z kernel_scheme result" where
  "user_leave s =
     (let s = switch_page_directory s (kernel_directory s)
      in bindE (get_proc s (curr_pid s)) (\<lambda>p.
         let c = (ctx p)\<lparr>ctx_first_free_block := first_free_block s, ctx_unallocated_mem := unallocated_mem s\<rparr>;
             s = set_proc s (curr_pid s) (p\<lparr>ctx := c\<rparr>)
         in Inr (s\<lparr>unallocated_mem := kernel_unallocated_mem s, first_free_block := kernel_first_free_block s\<rparr>)))"

definition syscall_malloc :: "'z kernel_scheme allocator \<Rightarrow> 'z kernel_scheme \<Rightarrow> 'z kernel_scheme result" where
  "syscall_malloc A s =
     bindE (curr_regs s) (\<lambda>regs.
     let sz = get_reg s regs Ebx
     in bindE (user_enter s) (\<lambda>s.
        bindE (alloc_aligned A s sz 1) (\<lambda>(ret, s).
        bindE (user_leave s) (\<lambda>s.
        bindE (curr_regs s) (\<lambda>regs. Inr (set_reg s regs Eax ret))))))"

definition syscall_free :: "'z kernel_scheme allocator \<Rightarrow> 'z kernel_scheme \<Rightarrow> 'z kernel_scheme result" where
  "syscall_free A s =
     bindE (curr_regs s) (\<lambda>regs.
     let ptr = get_reg s regs Ebx
     in bindE (user_enter s) (\<lambda>s.
        bindE (release A s ptr) user_leave))"

subsection \<open>Fork\<close>

definition syscall_fork :: "'z kernel_scheme allocator \<Rightarrow> 'z kernel_scheme \<Rightarrow> 'z kernel_scheme result" where
  "syscall_fork A s =
     bindE (get_proc s (curr_pid s)) (\<lambda>p.
     let child_prio = sint (get_reg s (regs_at (ctx p)) Ebx);
         id = find_free (processes s) 0 NUM_PROCESSES
     in if id = NUM_PROCESSES \<or> child_prio > prio p then Inr (set_reg s (regs_at (ctx p)) Eax 0)
        else bindE (new_process A s (curr_pid s) child_prio False) (\<lambda>(proc, s).
          let s = set_proc s (of_nat id) proc
          in bindE (get_proc s (curr_pid s)) (\<lambda>parent.
             bindE (alloc_aligned A s 76 1) (\<lambda>(regs, s).
             let s = copy_regs s regs (regs_at (ctx parent));
                 s = set_reg s regs Eax 2;
                 s = set_reg s regs Ebx (curr_pid s)
             in bindE (fork_page_dir A s (page_dir (ctx parent))) (\<lambda>(dir, s).
                let s = set_proc s (of_nat id) (proc\<lparr>ctx := (ctx parent)\<lparr>regs_at := regs, page_dir := dir\<rparr>\<rparr>)
                in bindE (enqueue_at s child_prio (of_nat id)) (\<lambda>s.
                   bindE (curr_regs s) (\<lambda>regs.
                     let s = set_reg s regs Eax 1 in Inr (set_reg s regs Ebx (of_nat id)))))))))"

subsection \<open>Exit and wait\<close>

fun remove_pid :: "u32 \<Rightarrow> u32 list \<Rightarrow> u32 list \<Rightarrow> u32 list" where
  "remove_pid child [] temp = temp"
| "remove_pid child (pid # q) temp = remove_pid child q (if pid \<noteq> child then temp @ [pid] else temp)"

definition dequeue_child :: "'z kernel_scheme \<Rightarrow> int \<Rightarrow> u32 \<Rightarrow> 'z kernel_scheme result" where
  "dequeue_child s pr child =
     (if 0 \<le> pr \<and> nat pr < length (runqueues s)
      then Inr (s\<lparr>runqueues := (runqueues s)[nat pr := remove_pid child (runqueues s ! nat pr) []]\<rparr>)
      else Inl OutOfBounds)"

text \<open>The return value is read from the register structure of the child after that was freed.\<close>

definition resolve_exit_wait ::
  "'z kernel_scheme allocator \<Rightarrow> 'z kernel_scheme \<Rightarrow> u32 \<Rightarrow> u32 \<Rightarrow> 'z kernel_scheme result"
where
  "resolve_exit_wait A s parent child =
     bindE (get_proc s child) (\<lambda>c.
     let s = set_proc s child (c\<lparr>proc_state := Free\<rparr>)
     in bindE (dequeue_child s (prio c) child) (\<lambda>s.
        bindE (release A s (regs_at (ctx c))) (\<lambda>s.
        bindE (free_page_dir A s (page_dir (ctx c))) (\<lambda>s.
        bindE (get_proc s parent) (\<lambda>p.
        let s = set_proc s parent (p\<lparr>proc_state := Runnable\<rparr>);
            s = set_reg s (regs_at (ctx p)) Eax 1;
            s = set_reg s (regs_at (ctx p)) Ebx child;
            s = set_reg s (regs_at (ctx p)) Ecx (get_reg s (regs_at (ctx c)) Ebx);
            s = s\<lparr>run_pid := remove1 child (run_pid s)\<rparr>
        in if run_pid s = [] then finalize_command s else Inr s)))))"

fun exit_loop ::
  "'z kernel_scheme allocator \<Rightarrow> 'z kernel_scheme \<Rightarrow> u32 \<Rightarrow> u32 \<Rightarrow> nat \<Rightarrow> 'z kernel_scheme result"
where
  "exit_loop A s pid i 0 = Inr s"
| "exit_loop A s pid i (Suc n) =
     bindE (get_proc s i) (\<lambda>p.
     bindE (if parent_id p = pid then
              let s = set_proc s i (p\<lparr>parent_id := 1\<rparr>)
              in bindE (get_proc s 1) (\<lambda>init.
                 if proc_state p = Zombie \<and> proc_state init = Waiting then resolve_exit_wait A s 1 i else Inr s)
            else Inr s)
       (\<lambda>s. exit_loop A s pid (i + 1) n))"

definition syscall_exit :: "'z kernel_scheme allocator \<Rightarrow> 'z kernel_scheme \<Rightarrow> 'z kernel_scheme result" where
  "syscall_exit A s =
     (let id = curr_pid s
      in bindE (get_proc s id) (\<lambda>p.
         bindE (exit_loop A (set_proc s id (p\<lparr>proc_state := Zombie\<rparr>)) id 0 NUM_PROCESSES) (\<lambda>s.
         bindE (get_proc s id) (\<lambda>p.
         bindE (get_proc s (parent_id p)) (\<lambda>parent.
           if proc_state parent = Waiting then resolve_exit_wait A s (parent_id p) id else Inr s)))))"

text \<open>The search of \<^verbatim>\<open>syscall_wait\<close>: the first zombie child, and whether any entry names this parent.\<close>

fun find_zombie :: "process list \<Rightarrow> u32 \<Rightarrow> nat \<Rightarrow> nat \<Rightarrow> bool \<Rightarrow> nat option \<times> bool" where
  "find_zombie procs parent pid 0 has_children = (None, has_children)"
| "find_zombie procs parent pid (Suc n) has_children =
     (if parent_id (procs ! pid) = parent then
        if proc_state (procs ! pid) = Zombie then (Some pid, True)
        else find_zombie procs parent (pid + 1) n True
      else find_zombie procs parent (pid + 1) n has_children)"

definition syscall_wait :: "'z kernel_scheme allocator \<Rightarrow> 'z kernel_scheme \<Rightarrow> 'z kernel_scheme result" where
  "syscall_wait A s =
     bindE (get_proc s (curr_pid s)) (\<lambda>p.
     let s = set_proc s (curr_pid s) (p\<lparr>proc_state := Waiting\<rparr>)
     in if length (processes s) < NUM_PROCESSES then Inl OutOfBounds
        else case find_zombie (processes s) (curr_pid s) 0 NUM_PROCESSES False of
          (Some child, _) \<Rightarrow> resolve_exit_wait A s (curr_pid s) (of_nat child)
        | (None, has_children) \<Rightarrow>
            if has_children then Inr s
            else let s = set_reg s (regs_at (ctx p)) Eax 0 in Inr (set_proc s (curr_pid s) (p\<lparr>proc_state := Runnable\<rparr>)))"

subsection \<open>Printf\<close>

partial_function (option) mem_string :: "memory \<Rightarrow> u32 \<Rightarrow> bytes option" where
  "mem_string m a = (if m a = 0 then Some [] else Option.bind (mem_string m (a + 1)) (\<lambda>cs. Some (m a # cs)))"

definition printf_conversion :: "memory \<Rightarrow> u32 \<Rightarrow> screen \<Rightarrow> u8 \<Rightarrow> nat \<Rightarrow> (screen \<times> nat) result" where
  "printf_conversion m esp s c nb_args =
     (let buffer = replicate 17 0;
          param = load32 m (esp + 16 + 4 * of_nat nb_args);
          number = (\<lambda>r s. bindE r (\<lambda>(_, buffer). bindE (write_string s (text_of buffer)) (\<lambda>s. Inr (s, nb_args + 1))))
      in if c = 100 then number (int_to_string buffer param 10) s
         else if c = 117 then number (u_int_to_string buffer param 10) s
         else if c = 120 then
           bindE (u_int_to_string buffer param 16) (\<lambda>(_, buffer).
           bindE (write_string s [48, 120]) (\<lambda>s.
           bindE (write_string s (text_of buffer)) (\<lambda>s. Inr (s, nb_args + 1))))
         else if c = 104 then number (u_int_to_string buffer param 16) s
         else if c = 99 then Inr (write_char s (ucast param), nb_args + 1)
         else if c = 115 then
           bindE (of_option Hang (mem_string m param)) (\<lambda>b.
           bindE (write_string s b) (\<lambda>s. Inr (s, nb_args + 1)))
         else if c = 102 then Inr (s\<lparr>foreground := param\<rparr>, nb_args + 1)
         else if c = 98 then Inr (s\<lparr>background := param\<rparr>, nb_args + 1)
         else if c = 37 then Inr (write_char s 37, nb_args)
         else Inl (Throw ''Invalid format string''))"

fun printf_loop :: "memory \<Rightarrow> u32 \<Rightarrow> screen \<Rightarrow> bytes \<Rightarrow> nat \<Rightarrow> screen result" where
  "printf_loop m esp s [] nb_args = Inr s"
| "printf_loop m esp s [c] nb_args =
     (if c = 37 then Inl (Throw ''Invalid format string'')
      else if c = 0xC2 \<or> c = 0xC3 then Inl OutOfBounds
      else Inr (write_char s c))"
| "printf_loop m esp s (c # d # cs) nb_args =
     (if c = 37 then
        bindE (printf_conversion m esp s d nb_args) (\<lambda>(s, nb_args). printf_loop m esp s cs nb_args)
      else if c = 0xC2 then
        bindE (utf8_char utf8_c2 0xA1 d) (\<lambda>e. printf_loop m esp (write_char s e) cs nb_args)
      else if c = 0xC3 then
        bindE (utf8_char utf8_c3 0x80 d) (\<lambda>e. printf_loop m esp (write_char s e) cs nb_args)
      else printf_loop m esp (write_char s c) (d # cs) nb_args)"

definition syscall_printf :: "'z kernel_scheme \<Rightarrow> 'z kernel_scheme result" where
  "syscall_printf s =
     bindE (get_proc s (curr_pid s)) (\<lambda>p.
     let c = ctx p;
         esp = get_reg s (regs_at c) Useresp;
         fmt = get_reg s (regs_at c) Ebx;
         s = switch_page_directory s (page_dir c)
     in bindE (of_option Hang (mem_string (mem s) fmt)) (\<lambda>b.
        bindE (printf_loop (mem s) esp (scr s) b 0) (\<lambda>screen.
          let s = s\<lparr>scr := screen\<rparr> in Inr (switch_page_directory s (kernel_directory s)))))"

subsection \<open>Hlt\<close>

text \<open>
  Each element of the list is an interrupt that wakes the processor up, with what its handler
  does; the call waits for ever when the interrupts run out.
\<close>

fun hlt_loop :: "'z kernel_scheme \<Rightarrow> ('z kernel_scheme \<Rightarrow> 'z kernel_scheme result) list \<Rightarrow> 'z kernel_scheme result" where
  "hlt_loop s [] = Inl Hang"
| "hlt_loop s (irq # irqs) =
     bindE (irq s) (\<lambda>s.
       if \<not> should_cycle s \<or> run_executed s then Inr (s\<lparr>should_cycle := True, run_executed := False\<rparr>)
       else hlt_loop (s\<lparr>should_cycle := False\<rparr>) irqs)"

definition syscall_hlt :: "'z kernel_scheme \<Rightarrow> ('z kernel_scheme \<Rightarrow> 'z kernel_scheme result) list \<Rightarrow> 'z kernel_scheme result" where
  "syscall_hlt s irqs = hlt_loop (s\<lparr>should_cycle := False\<rparr>) irqs"

subsection \<open>Killing a family\<close>

text \<open>\<open>fuel\<close> bounds the nesting of the calls; without a bound the kernel's stack overflows.\<close>

fun kill_family :: "nat \<Rightarrow> 'z kernel_scheme allocator \<Rightarrow> 'z kernel_scheme \<Rightarrow> u32 \<Rightarrow> 'z kernel_scheme result"
  and kill_children ::
    "nat \<Rightarrow> 'z kernel_scheme allocator \<Rightarrow> 'z kernel_scheme \<Rightarrow> u32 \<Rightarrow> u32 \<Rightarrow> nat \<Rightarrow> 'z kernel_scheme result"
where
  "kill_family 0 A s parent = Inl Hang"
| "kill_family (Suc fuel) A s parent =
     bindE (kill_children fuel A s parent 0 NUM_PROCESSES) (\<lambda>s.
     bindE (get_proc s parent) (\<lambda>p. resolve_exit_wait A s (parent_id p) parent))"
| "kill_children fuel A s parent child 0 = Inr s"
| "kill_children fuel A s parent child (Suc n) =
     bindE (get_proc s child) (\<lambda>c.
     bindE (if parent_id c = parent then kill_family fuel A s child else Inr s) (\<lambda>s.
       kill_children fuel A s parent (child + 1) n))"

subsection \<open>Decoding\<close>

datatype syscall_routine = Sys_exit | Sys_fork | Sys_wait | Sys_printf | Sys_malloc | Sys_free | Sys_hlt
  | Sys_open | Sys_close | Sys_read | Sys_write | Sys_lseek | Sys_fstat

text \<open>The table as \<^verbatim>\<open>syscall_install\<close> fills it; the entries it does not set are null pointers.\<close>

definition syscall_table :: "syscall_routine option list" where
  "syscall_table = [Some Sys_exit, Some Sys_fork, Some Sys_wait, Some Sys_printf, Some Sys_malloc, Some Sys_free,
     None, None, None, None, None, Some Sys_hlt, None, None, None,
     Some Sys_open, Some Sys_close, Some Sys_read, Some Sys_write, Some Sys_lseek, Some Sys_fstat]"

definition syscall_install :: "u32 \<Rightarrow> 'z kernel_scheme \<Rightarrow> 'z kernel_scheme" where
  "syscall_install common_interrupt_handler s =
     s\<lparr>desc := idt_set_gate (desc s) 0x80 common_interrupt_handler (ucast (KERNEL_CODE_SEGMENT (desc s))) 3\<rparr>"

record 's environment =
  file_call :: "syscall_routine \<Rightarrow> 's \<Rightarrow> 's result"
  interrupts :: "('s \<Rightarrow> 's result) list"

definition syscall ::
  "'z kernel_scheme environment \<Rightarrow> 'z kernel_scheme allocator \<Rightarrow> 'z kernel_scheme \<Rightarrow> u32 \<Rightarrow> 'z kernel_scheme result"
where
  "syscall env A s sc =
     (if sc \<ge> 21 then Inl (Throw ''Invalid syscall!'')
      else case syscall_table ! unat sc of None \<Rightarrow> Inl NullCall
        | Some r \<Rightarrow>
           (case r of Sys_exit \<Rightarrow> syscall_exit A s | Sys_fork \<Rightarrow> syscall_fork A s | Sys_wait \<Rightarrow> syscall_wait A s
            | Sys_printf \<Rightarrow> syscall_printf s | Sys_malloc \<Rightarrow> syscall_malloc A s | Sys_free \<Rightarrow> syscall_free A s
            | Sys_hlt \<Rightarrow> syscall_hlt s (interrupts env) | _ \<Rightarrow> file_call env r s))"

definition syscall_handler ::
  "'z kernel_scheme environment \<Rightarrow> 'z kernel_scheme allocator \<Rightarrow> 'z kernel_scheme \<Rightarrow> u32 \<Rightarrow> 'z kernel_scheme result"
where
  "syscall_handler env A s regs =
     (if in_kernel s then Inl (Throw ''WTF'')
      else bindE (SWITCH_BEFORE s regs) (\<lambda>s.
           bindE (syscall env A s (get_reg s regs Eax)) (\<lambda>s.
           bindE (get_proc s (curr_pid s)) (\<lambda>p.
           bindE (if should_cycle s \<or> proc_state p \<noteq> Runnable
                  then bindE (select_new_process s) (\<lambda>s. Inr (s\<lparr>should_cycle := False\<rparr>)) else Inr s)
             (\<lambda>s. SWITCH_AFTER s regs)))))"

end
