(* ===== verification/Scheduler_Props.thy ===== *)
theory Scheduler_Props
  imports Scheduler "HOL-Library.Multiset"
begin

text \<open>
  The scheduler picks the first runnable process of the strongest priority that has one, and
  moves it to the end of its runqueue; repeating this goes round all of them.
\<close>

subsection \<open>One runqueue\<close>

definition runnable :: "process list \<Rightarrow> u32 \<Rightarrow> bool" where
  "runnable procs p \<longleftrightarrow> proc_state (procs ! unat p) = Runnable"

definition queues_ok :: "process list \<Rightarrow> u32 list list \<Rightarrow> bool" where
  "queues_ok procs rqs \<longleftrightarrow> length procs = 128 \<and> length rqs = 16 \<and> (\<forall>q \<in> set rqs. \<forall>p \<in> set q. unat p < 128)"

lemma restore_runqueue_append [simp]: "restore_runqueue q temp = q @ temp"
  by (induction q temp rule: restore_runqueue.induct) simp_all

lemma scan_none:
  "\<forall>p \<in> set q. unat p < length procs \<and> \<not> runnable procs p \<Longrightarrow> scan_runqueue procs q temp = Inr (None, [], temp @ q)"
  by (induction q arbitrary: temp) (auto simp: runnable_def)

lemma scan_some:
  "\<forall>x \<in> set xs. unat x < length procs \<and> \<not> runnable procs x \<Longrightarrow> unat p < length procs \<Longrightarrow> runnable procs p \<Longrightarrow>
     scan_runqueue procs (xs @ p # ys) temp = Inr (Some p, ys, temp @ xs @ [p])"
  by (induction xs arbitrary: temp) (auto simp: runnable_def)

subsection \<open>All runqueues\<close>

lemma select_loop_skip:
  assumes "queues_ok procs rqs" "n \<le> m" "m \<le> 16" "\<forall>k. n \<le> k \<and> k < m \<longrightarrow> (\<forall>p \<in> set (rqs ! k). \<not> runnable procs p)"
  shows "select_loop procs rqs m = select_loop procs rqs n"
  using assms(2-)
proof (induction m)
  case (Suc m)
  show ?case
  proof (cases "n = Suc m")
    case False
    then have n: "n \<le> m" using Suc.prems by simp
    have "m < length rqs" using assms(1) Suc.prems by (simp add: queues_ok_def)
    moreover have "\<forall>p \<in> set (rqs ! m). unat p < length procs \<and> \<not> runnable procs p"
      using assms(1) Suc.prems n calculation by (auto simp: queues_ok_def)
    ultimately have "select_loop procs rqs (Suc m) = select_loop procs rqs m"
      by (simp add: scan_none)
    also have "\<dots> = select_loop procs rqs n" using Suc.prems n by (intro Suc.IH) auto
    finally show ?thesis .
  qed simp
qed simp

lemma select_loop_found:
  assumes "queues_ok procs rqs" "n < 16" "rqs ! n = xs @ p # ys" "\<forall>x \<in> set xs. \<not> runnable procs x" "runnable procs p"
    "\<forall>k. n < k \<and> k < 16 \<longrightarrow> (\<forall>p \<in> set (rqs ! k). \<not> runnable procs p)"
  shows "select_loop procs rqs 16 = Inr (Some p, rqs[n := ys @ xs @ [p]])"
proof -
  have len: "n < length rqs" using assms(1,2) by (simp add: queues_ok_def)
  then have "rqs ! n \<in> set rqs" by simp
  then have pids: "\<forall>x \<in> set (xs @ p # ys). unat x < length procs"
    using assms(1) unfolding assms(3) by (auto simp: queues_ok_def)
  have "select_loop procs rqs 16 = select_loop procs rqs (Suc n)"
    using assms(2,6) by (intro select_loop_skip [OF assms(1)]) (auto simp: Suc_le_eq)
  also have "\<dots> = Inr (Some p, rqs[n := ys @ xs @ [p]])"
    using len assms(3-5) pids by (simp add: scan_some)
  finally show ?thesis .
qed

lemma select_loop_none:
  assumes "queues_ok procs rqs" "\<forall>q \<in> set rqs. \<forall>p \<in> set q. \<not> runnable procs p"
  shows "select_loop procs rqs 16 = Inr (None, rqs)"
proof -
  have "select_loop procs rqs 16 = select_loop procs rqs 0"
    using assms by (intro select_loop_skip [OF assms(1)]) (auto simp: queues_ok_def)
  then show ?thesis by simp
qed

text \<open>The strongest priority with a runnable process, and the first such process in its queue.\<close>

lemma top_runnable:
  assumes "queues_ok procs rqs" "\<exists>q \<in> set rqs. \<exists>p \<in> set q. runnable procs p"
  obtains n xs p ys where "n < 16" "rqs ! n = xs @ p # ys" "\<forall>x \<in> set xs. \<not> runnable procs x" "runnable procs p"
    "\<forall>k. n < k \<and> k < 16 \<longrightarrow> (\<forall>p \<in> set (rqs ! k). \<not> runnable procs p)"
proof -
  let ?has = "\<lambda>k. k < 16 \<and> (\<exists>p \<in> set (rqs ! k). runnable procs p)"
  obtain k where "?has k" using assms by (auto simp: queues_ok_def in_set_conv_nth) (metis nth_mem)
  then obtain n where n: "?has n" "\<forall>k. ?has k \<longrightarrow> k \<le> n"
    using ex_has_greatest_nat [of ?has k id 16] by auto
  then obtain xs p ys where "rqs ! n = xs @ p # ys" "runnable procs p" "\<forall>x \<in> set xs. \<not> runnable procs x"
    using split_list_first_prop [of "rqs ! n" "runnable procs"] by blast
  then show thesis using that n by (meson not_le)
qed


subsection \<open>Time slices\<close>

text \<open>\<open>n\<close> selections in a row, with the processes that were selected.\<close>

fun slices :: "nat \<Rightarrow> 'z kernel_scheme \<Rightarrow> (u32 list \<times> 'z kernel_scheme) result" where
  "slices 0 s = Inr ([], s)"
| "slices (Suc n) s = bindE (select_new_process s) (\<lambda>s'. bindE (slices n s') (\<lambda>(ps, s''). Inr (curr_pid s' # ps, s'')))"

text \<open>Priority \<open>n\<close> is the strongest with a runnable process.\<close>

definition top_priority :: "'z kernel_scheme \<Rightarrow> nat \<Rightarrow> bool" where
  "top_priority s n \<longleftrightarrow> n < 16 \<and> (\<exists>p \<in> set (runqueues s ! n). runnable (processes s) p) \<and>
     (\<forall>k. n < k \<and> k < 16 \<longrightarrow> (\<forall>p \<in> set (runqueues s ! k). \<not> runnable (processes s) p))"

lemma select_top:
  assumes "queues_ok (processes s) (runqueues s)" "n < 16" "runqueues s ! n = xs @ p # ys"
    "\<forall>x \<in> set xs. \<not> runnable (processes s) x" "runnable (processes s) p"
    "\<forall>k. n < k \<and> k < 16 \<longrightarrow> (\<forall>p \<in> set (runqueues s ! k). \<not> runnable (processes s) p)"
  shows "select_new_process s = Inr (s\<lparr>runqueues := (runqueues s)[n := ys @ xs @ [p]], curr_pid := p\<rparr>)"
  using select_loop_found [OF assms] by (simp add: select_new_process_def)

lemma queues_ok_update:
  assumes "queues_ok procs rqs" "n < 16" "set q \<subseteq> set (rqs ! n)"
  shows "queues_ok procs (rqs[n := q])"
proof -
  have "rqs ! n \<in> set rqs" using assms(1,2) by (simp add: queues_ok_def)
  then have "\<forall>p \<in> set q. unat p < 128" using assms(1,3) unfolding queues_ok_def by blast
  then show ?thesis
    using assms(1) set_update_subset_insert [of rqs n q] unfolding queues_ok_def by auto
qed

lemma slices_rotate:
  assumes "queues_ok (processes s) (runqueues s)" "top_priority s n"
    "filter (runnable (processes s)) (runqueues s ! n) = rs @ rs'"
  shows "\<exists>s'. slices (length rs) s = Inr (rs, s') \<and> processes s' = processes s \<and>
    queues_ok (processes s') (runqueues s') \<and> top_priority s' n \<and>
    filter (runnable (processes s)) (runqueues s' ! n) = rs' @ rs \<and>
    (\<forall>k. k \<noteq> n \<longrightarrow> runqueues s' ! k = runqueues s ! k) \<and> mset (runqueues s' ! n) = mset (runqueues s ! n)"
  using assms
proof (induction rs arbitrary: s rs')
  case (Cons p rs)
  have n: "n < 16" "\<forall>k. n < k \<and> k < 16 \<longrightarrow> (\<forall>p \<in> set (runqueues s ! k). \<not> runnable (processes s) p)"
    using Cons.prems(2) by (auto simp: top_priority_def)
  obtain xs ys where q: "runqueues s ! n = xs @ p # ys" "\<forall>x \<in> set xs. \<not> runnable (processes s) x" "runnable (processes s) p"
    "filter (runnable (processes s)) ys = rs @ rs'"
    using Cons.prems(3) by (auto simp: filter_eq_Cons_iff)
  let ?s = "s\<lparr>runqueues := (runqueues s)[n := ys @ xs @ [p]], curr_pid := p\<rparr>"
  have sel: "select_new_process s = Inr ?s" by (rule select_top [OF Cons.prems(1) n(1) q(1,2,3) n(2)])
  have len: "n < length (runqueues s)" using n(1) Cons.prems(1) by (simp add: queues_ok_def)
  have ok: "queues_ok (processes ?s) (runqueues ?s)"
    using q(1) by (auto intro!: queues_ok_update [OF Cons.prems(1) n(1)])
  have top: "top_priority ?s n" using n q len by (auto simp: top_priority_def)
  have "filter (runnable (processes s)) xs = []" using q(2) by (simp add: filter_empty_conv)
  then have "filter (runnable (processes ?s)) (runqueues ?s ! n) = rs @ (rs' @ [p])" using q len by simp
  from Cons.IH [OF ok top this] obtain s' where s': "slices (length rs) ?s = Inr (rs, s')" "processes s' = processes s"
    "queues_ok (processes s') (runqueues s')" "top_priority s' n"
    "filter (runnable (processes s)) (runqueues s' ! n) = (rs' @ [p]) @ rs"
    "\<forall>k. k \<noteq> n \<longrightarrow> runqueues s' ! k = runqueues ?s ! k" "mset (runqueues s' ! n) = mset (runqueues ?s ! n)"
    by auto
  then show ?case using sel q(1) len by auto
qed auto

subsection \<open>Properties\<close>

text \<open>C6: When some queued process is runnable, \<^verbatim>\<open>select_new_process\<close> makes current the first runnable process of the
  strongest priority that has one, moves it behind the others of its runqueue without
  changing their order, and leaves the other runqueues and everything else as they were.\<close>
theorem select_new_process_highest:
  assumes "queues_ok (processes s) (runqueues s)" "\<exists>q \<in> set (runqueues s). \<exists>p \<in> set q. runnable (processes s) p"
  shows "\<exists>n xs p ys. top_priority s n \<and> runqueues s ! n = xs @ p # ys \<and>
    (\<forall>x \<in> set xs. \<not> runnable (processes s) x) \<and> runnable (processes s) p \<and>
    select_new_process s = Inr (s\<lparr>runqueues := (runqueues s)[n := ys @ xs @ [p]], curr_pid := p\<rparr>)"
proof -
  obtain n xs p ys where *: "n < 16" "runqueues s ! n = xs @ p # ys" "\<forall>x \<in> set xs. \<not> runnable (processes s) x"
    "runnable (processes s) p" "\<forall>k. n < k \<and> k < 16 \<longrightarrow> (\<forall>p \<in> set (runqueues s ! k). \<not> runnable (processes s) p)"
    using top_runnable [OF assms] .
  then have "top_priority s n" by (auto simp: top_priority_def)
  with * select_top [OF assms(1) *] show ?thesis by blast
qed

definition demo_kernel :: kernel where
  "demo_kernel = boot_state\<lparr>
     processes := [free_process\<lparr>proc_state := Runnable\<rparr>, free_process\<lparr>proc_state := Waiting, parent_id := 1, prio := 15\<rparr>,
       free_process\<lparr>proc_state := Runnable, parent_id := 1, prio := 1\<rparr>, free_process\<lparr>proc_state := Runnable, parent_id := 1, prio := 1\<rparr>]
       @ replicate 124 free_process,
     runqueues := [0] # [2, 3] # replicate 13 [] @ [[1]]\<rparr>"

lemma demo_kernel_ok: "queues_ok (processes demo_kernel) (runqueues demo_kernel)"
  by (simp add: queues_ok_def demo_kernel_def)

lemma demo_kernel_runnable:
  "runqueues demo_kernel ! 1 = [2, 3]" "runnable (processes demo_kernel) 2" "runnable (processes demo_kernel) 3"
  by (simp_all add: demo_kernel_def runnable_def free_process_def)

theorem select_new_process_highest_witness:
  "\<exists>n p. top_priority demo_kernel n \<and> runnable (processes demo_kernel) p \<and>
     (\<exists>q. select_new_process demo_kernel = Inr (demo_kernel\<lparr>runqueues := (runqueues demo_kernel)[n := q], curr_pid := p\<rparr>))"
proof -
  have "\<exists>q \<in> set (runqueues demo_kernel). \<exists>p \<in> set q. runnable (processes demo_kernel) p"
    using demo_kernel_runnable by (intro bexI [of _ "[2, 3]"] bexI [of _ 2]) (simp_all add: demo_kernel_def)
  from select_new_process_highest [OF demo_kernel_ok this] show ?thesis by blast
qed

text \<open>C34: Round robin: while the states of the processes do not change, the next selections are the runnable
  processes of the strongest priority in the order of their queue, each of them once, and
  then the order is the same again; so none of them waits for more selections than there are
  runnable processes of this priority.\<close>
theorem select_round_robin:
  assumes "queues_ok (processes s) (runqueues s)" "top_priority s n"
  defines "rs \<equiv> filter (runnable (processes s)) (runqueues s ! n)"
  shows "\<exists>s'. slices (length rs) s = Inr (rs, s') \<and> processes s' = processes s \<and>
    filter (runnable (processes s)) (runqueues s' ! n) = rs \<and> top_priority s' n"
  using slices_rotate [OF assms(1,2), of rs "[]"] unfolding rs_def by auto

theorem select_round_robin_witness:
  "top_priority demo_kernel 1 \<and> (\<exists>s'. slices 2 demo_kernel = Inr ([2, 3], s') \<and> top_priority s' 1)"
proof -
  have top: "top_priority demo_kernel 1"
    unfolding top_priority_def
  proof (intro conjI allI impI)
    fix k :: nat assume "1 < k \<and> k < 16"
    then have "k = 15 \<or> 2 \<le> k \<and> k < 15" by linarith
    then have "runqueues demo_kernel ! k = (if k = 15 then [1] else [])"
      by (auto simp: demo_kernel_def nth_Cons nth_append split: nat.splits)
    moreover have "\<not> runnable (processes demo_kernel) 1" by (simp add: demo_kernel_def runnable_def free_process_def)
    ultimately show "\<forall>p \<in> set (runqueues demo_kernel ! k). \<not> runnable (processes demo_kernel) p" by simp
  qed (use demo_kernel_runnable in auto)
  have "filter (runnable (processes demo_kernel)) (runqueues demo_kernel ! 1) = [2, 3]"
    using demo_kernel_runnable by simp
  with select_round_robin [OF demo_kernel_ok top] top show ?thesis by (auto simp: numeral_2_eq_2)
qed

end
