(* ===== verification/Frame.thy ===== *)
theory Frame
  imports Paging
begin

text \<open>
  What memory management leaves alone.  The allocator and the paging code work on memory, on
  their own pointers and on the control registers; whatever a component adds to the state by
  extending \<open>machine\<close> is the same before and after.  The contract between the two is stated twice,
  for the pages that the allocator asks for and for the blocks that the paging code asks for,
  and each of them gives the other.
\<close>

named_theorems frame_simps
  \<open>operations that keep the extension of the machine state\<close>

subsection \<open>Operations on memory\<close>

lemma more_switch [frame_simps, simp]: "machine.more (switch_page_directory s dir) = machine.more s"
  by (simp add: switch_page_directory_def)

lemma more_write32 [frame_simps, simp]: "machine.more (write32 s a v) = machine.more s"
  by (simp add: write32_def)

lemma more_insert_after [frame_simps, simp]: "machine.more (insert_after s c b) = machine.more s"
  by (simp add: insert_after_def Let_def)

lemma more_remove [frame_simps, simp]: "machine.more (remove_c s b) = machine.more s"
  by (simp add: remove_c_def Let_def)

lemma more_merge_with_next [frame_simps, simp]: "machine.more (merge_with_next s b) = machine.more s"
  by (simp add: merge_with_next_def Let_def)

lemma more_carve [frame_simps, simp]: "machine.more (carve_block s b n) = machine.more s"
  by (simp add: carve_block_def Let_def)

lemma more_malloc_new_state [frame_simps]: "machine.more (snd (malloc_new_state s h)) = machine.more s"
  by (simp add: malloc_new_state_def Let_def)

lemma more_merge: "merge s b = Inr (p, s') \<Longrightarrow> machine.more s' = machine.more s"
  by (auto simp: merge_def Let_def bindE_eq_Inr split: if_splits)

lemma more_take_block: "take_block s b n al = Inr (p, s') \<Longrightarrow> machine.more s' = machine.more s"
  by (auto simp: take_block_def Let_def bindE_eq_Inr)

lemma more_mem_free: "mem_free s p = Inr s' \<Longrightarrow> machine.more s' = machine.more s"
  by (auto simp: mem_free_def Let_def bindE_eq_Inr dest!: more_merge)

subsection \<open>The allocator, on any provider of pages\<close>

locale pager_frame =
  fixes P :: "'z machine_scheme pager"
  assumes request_more: "request_virtual_space P s d v k w = Inr (ok, s') \<Longrightarrow> machine.more s' = machine.more s"
    and free_more: "free_virtual_space P s d v f = Inr s' \<Longrightarrow> machine.more s' = machine.more s"
begin

lemma release_pages_more: "release_pages P s d e i = Inr s' \<Longrightarrow> machine.more s' = machine.more s"
  by (induction i arbitrary: s e) (auto simp: Let_def bindE_eq_Inr dest!: free_more)

lemma request_pages_more: "request_pages P s d k e i n = Inr (ok, s') \<Longrightarrow> machine.more s' = machine.more s"
proof (induction n arbitrary: s e i)
  case (Suc n)
  then obtain ok1 s1 where r: "request_virtual_space P s d e k (\<not> k) = Inr (ok1, s1)"
    and s: "(if ok1 then request_pages P s1 d k (e + 0x1000) (Suc i) n
       else bindE (release_pages P s1 d e i) (\<lambda>s. Inr (False, s))) = Inr (ok, s')"
    by (auto simp: bindE_eq_Inr)
  have "machine.more s' = machine.more s1"
    using s Suc.IH release_pages_more by (auto simp: bindE_eq_Inr split: if_splits)
  then show ?case using request_more [OF r] by simp
qed simp

lemma extend_heap_more: "extend_heap P s n d u = Inr (ok, s') \<Longrightarrow> machine.more s' = machine.more s"
  by (auto simp: extend_heap_def Let_def dest: request_pages_more split: if_splits)

lemma alloc_pages_more: "alloc_pages P s n = Inr (p, s') \<Longrightarrow> machine.more s' = machine.more s"
  by (auto simp: alloc_pages_def Let_def bindE_eq_Inr dest!: extend_heap_more more_merge split: if_splits)

lemma mem_alloc_aligned_more: "mem_alloc_aligned P s n al = Inr (p, s') \<Longrightarrow> machine.more s' = machine.more s"
  by (auto simp: mem_alloc_aligned_def bindE_eq_Inr dest!: alloc_pages_more more_take_block split: if_splits)

end

subsection \<open>Paging, on any allocator\<close>

locale allocator_frame =
  fixes A :: "'z paged_scheme allocator"
  assumes alloc_more: "alloc_aligned A s n al = Inr (p, s') \<Longrightarrow> machine.more s' = machine.more s"
    and release_more: "release A s p = Inr s' \<Longrightarrow> machine.more s' = machine.more s"
begin

lemma map_page_to_frame_more:
  fixes s s' :: "'z paged_scheme"
  shows "map_page_to_frame s p f k w = Inr s' \<Longrightarrow> machine.more s' = machine.more s"
  by (auto simp: map_page_to_frame_def Let_def split: if_splits)

lemma map_page_more:
  fixes s s' :: "'z paged_scheme"
  shows "map_page s p k w = Inr (ok, s') \<Longrightarrow> machine.more s' = machine.more s"
  by (auto simp: map_page_def Let_def bindE_eq_Inr dest: map_page_to_frame_more split: if_splits)

lemma free_page_more:
  fixes s :: "'z paged_scheme"
  shows "machine.more (free_page s p f) = machine.more s"
  by (simp add: free_page_def Let_def)

lemma make_page_table_more: "make_page_table A s d i k w = Inr s' \<Longrightarrow> machine.more s' = machine.more s"
  by (auto simp: make_page_table_def Let_def bindE_eq_Inr dest!: alloc_more split: if_splits)

lemma get_page_more: "get_page A s d a k w = Inr (p, s') \<Longrightarrow> machine.more s' = machine.more s"
  by (auto simp: get_page_def Let_def bindE_eq_Inr dest!: make_page_table_more split: if_splits)

lemma request_virtual_space_more: "request_virtual_space_c A s d v k w = Inr (ok, s') \<Longrightarrow> machine.more s' = machine.more s"
  by (auto simp: request_virtual_space_c_def bindE_eq_Inr dest!: get_page_more map_page_more split: if_splits)

lemma request_physical_space_more: "request_physical_space A s d v k w = Inr (a, s') \<Longrightarrow> machine.more s' = machine.more s"
  by (auto simp: request_physical_space_def Let_def bindE_eq_Inr dest!: get_page_more map_page_to_frame_more split: if_splits)

lemma free_virtual_space_more: "free_virtual_space_c A s d v f = Inr s' \<Longrightarrow> machine.more s' = machine.more s"
  by (auto simp: free_virtual_space_c_def bindE_eq_Inr free_page_more dest!: get_page_more)

lemma clone_page_table_more: "clone_page_table A s t = Inr (c, s') \<Longrightarrow> machine.more s' = machine.more s"
  by (auto simp: clone_page_table_def bindE_eq_Inr dest!: alloc_more)

lemma clone_pass_more: "clone_pass A s d c e i n = Inr (e', s') \<Longrightarrow> machine.more s' = machine.more s"
  by (induction n arbitrary: s e i) (auto simp: Let_def bindE_eq_Inr dest!: clone_page_table_more split: if_splits)

lemma clone_passes_more: "clone_passes A s d c n = Inr s' \<Longrightarrow> machine.more s' = machine.more s"
  by (induction n arbitrary: s) (auto simp: bindE_eq_Inr dest!: clone_pass_more split: if_splits)

lemma clone_addresses_more:
  fixes s :: "'z paged_scheme"
  shows "machine.more (clone_addresses s d c i n) = machine.more s"
  by (induction n arbitrary: s i) (simp_all add: Let_def)

lemma clone_directory_more: "clone_directory A s d = Inr (c, s') \<Longrightarrow> machine.more s' = machine.more s"
  by (auto simp: clone_directory_def Let_def bindE_eq_Inr clone_addresses_more dest!: alloc_more clone_passes_more)

lemma request_code_pages_more: "request_code_pages A s d a n = Inr s' \<Longrightarrow> machine.more s' = machine.more s"
  by (induction n arbitrary: s a) (auto simp: bindE_eq_Inr dest!: request_virtual_space_more split: if_splits)

lemma new_page_dir_more: "new_page_dir A s = Inr (r, s') \<Longrightarrow> machine.more s' = machine.more s"
  by (auto simp: new_page_dir_def Let_def bindE_eq_Inr split_def more_malloc_new_state
      dest!: clone_directory_more request_code_pages_more request_virtual_space_more
        request_physical_space_more free_virtual_space_more split: if_splits)

lemma free_table_pages_more: "free_table_pages A s d t i n = Inr s' \<Longrightarrow> machine.more s' = machine.more s"
  by (induction n arbitrary: s i) (auto simp: Let_def bindE_eq_Inr dest!: free_virtual_space_more split: if_splits)

lemma free_tables_more: "free_tables A s d i n = Inr s' \<Longrightarrow> machine.more s' = machine.more s"
  by (induction n arbitrary: s i)
    (auto simp: bindE_eq_Inr dest!: free_table_pages_more release_more split: if_splits)

lemma free_page_dir_more: "free_page_dir A s d = Inr s' \<Longrightarrow> machine.more s' = machine.more s"
  by (auto simp: free_page_dir_def bindE_eq_Inr dest!: free_tables_more release_more)

lemma fork_page_more:
  assumes "fork_page A s d v e = Inr (ok, s')"
  shows "machine.more s' = machine.more s"
proof (cases "first_false_bit (mem s) (frames s) = - 1")
  case True
  then show ?thesis using assms by (simp add: fork_page_def)
next
  case False
  let ?p = "first_false_bit (mem s) (frames s)"
  define s1 where "s1 = set_mem s (set_bit_c (mem s) (frames s) ?p True)"
  obtain dest s2 where 2: "request_physical_space A s1 (current_directory s1) (?p * 0x1000) True False = Inr (dest, s2)"
    and "(if dest = 0 then Inr (False, s2)
       else bindE (request_physical_space A s2 (current_directory s2) (get_physical_address (mem s2) d v) True False) (\<lambda>(src, s).
         if src = 0 then bindE (free_virtual_space_c A s (current_directory s) dest False) (\<lambda>s. Inr (False, s))
         else let s = set_mem s (mem_copy (mem s) dest src 0x1000)
              in bindE (free_virtual_space_c A s (current_directory s) src False) (\<lambda>s.
                 bindE (free_virtual_space_c A s (current_directory s) dest False) (\<lambda>s.
                 Inr (True, write32 s e (set_entry_address (?p * 0x1000 div 0x1000) (load32 (mem s) e))))))) = Inr (ok, s')"
    using assms False by (simp add: fork_page_def Let_def s1_def [symmetric] bindE_eq_Inr) blast
  then have "machine.more s' = machine.more s2"
    by (auto simp: Let_def bindE_eq_Inr dest!: free_virtual_space_more request_physical_space_more split: if_splits)
  then show ?thesis using request_physical_space_more [OF 2] by (simp add: s1_def)
qed

lemma fork_pages_more: "fork_pages A s d t f ti i n = Inr (ok, s') \<Longrightarrow> machine.more s' = machine.more s"
  by (induction n arbitrary: s i) (auto simp: Let_def bindE_eq_Inr dest!: fork_page_more split: if_splits)

lemma fork_tables_more: "fork_tables A s d f i n = Inr (ok, s') \<Longrightarrow> machine.more s' = machine.more s"
  by (induction n arbitrary: s i)
    (auto simp: Let_def bindE_eq_Inr dest!: alloc_more fork_pages_more split: if_splits)

lemma fork_page_dir_more: "fork_page_dir A s d = Inr (f, s') \<Longrightarrow> machine.more s' = machine.more s"
  by (auto simp: fork_page_dir_def Let_def bindE_eq_Inr
      dest!: alloc_more fork_tables_more free_page_dir_more split: if_splits)

end

subsection \<open>The kernel's allocator\<close>

lemma malloc_frame: "pager_frame P \<Longrightarrow> allocator_frame (malloc_allocator P)"
  by (intro allocator_frame.intro)
    (auto simp: malloc_allocator_def dest: pager_frame.mem_alloc_aligned_more more_mem_free)

lemma paging_frame: "allocator_frame A \<Longrightarrow> pager_frame (paging_pager A)"
  by (intro pager_frame.intro)
    (auto simp: paging_pager_def dest: allocator_frame.request_virtual_space_more allocator_frame.free_virtual_space_more)

sublocale allocator_frame \<subseteq> pages: pager_frame "paging_pager A"
  by (rule paging_frame [OF allocator_frame_axioms])

lemma pager_at_frame: "pager_frame (pager_at n :: 'z paged_scheme pager)"
proof (induction n)
  case (Suc n)
  then show ?case using paging_frame [OF malloc_frame] by simp
qed (simp add: pager_frame_def)

interpretation kernel_allocator: allocator_frame "malloc_allocator (pager_at n) :: 'z paged_scheme allocator" for n
  by (rule malloc_frame [OF pager_at_frame])

end
