(* ===== verification/Process_Table.thy ===== *)
theory Process_Table
  imports Syscall Scheduler_Props Frame
begin

text \<open>
  The invariant of process table and runqueues: every process that is not free is queued exactly
  once, in the runqueue of its priority, and nothing else is queued.  It is kept by every
  system call and by the timer, whatever the user's code does to memory in between.
\<close>

subsection \<open>The invariant\<close>

definition queued :: "process list \<Rightarrow> u32 list list \<Rightarrow> bool" where
  "queued procs rqs \<longleftrightarrow> length procs = 128 \<and> length rqs = 16 \<and>
     (\<forall>k < 16. distinct (rqs ! k)) \<and>
     (\<forall>k < 16. \<forall>p. p \<in> set (rqs ! k) \<longleftrightarrow>
        unat p < 128 \<and> proc_state (procs ! unat p) \<noteq> Free \<and> prio (procs ! unat p) = int k) \<and>
     (\<forall>i < 128. proc_state (procs ! i) \<noteq> Free \<longrightarrow> 0 \<le> prio (procs ! i) \<and> prio (procs ! i) \<le> 15)"

abbreviation scheduled :: "'z kernel_scheme \<Rightarrow> bool" where
  "scheduled s \<equiv> queued (processes s) (runqueues s)"

text \<open>A table with a current process that exists, and what a call made by that process may do to it.\<close>

definition table_ok :: "'z kernel_scheme \<Rightarrow> bool" where
  "table_ok s \<longleftrightarrow> scheduled s \<and> unat (curr_pid s) < 128 \<and> proc_state (processes s ! unat (curr_pid s)) \<noteq> Free"

definition call_ok :: "'z kernel_scheme \<Rightarrow> 'z kernel_scheme \<Rightarrow> bool" where
  "call_ok s s' \<longleftrightarrow> scheduled s' \<and> curr_pid s' = curr_pid s \<and>
     (proc_state (processes s' ! unat (curr_pid s)) \<noteq> Free \<or> (\<exists>i < 128. proc_state (processes s' ! i) = Runnable))"

lemma queued_lengths: "queued procs rqs \<Longrightarrow> length procs = 128 \<and> length rqs = 16"
  by (simp add: queued_def)

lemma queued_mem:
  "queued procs rqs \<Longrightarrow> k < 16 \<Longrightarrow> p \<in> set (rqs ! k) \<longleftrightarrow>
     unat p < 128 \<and> proc_state (procs ! unat p) \<noteq> Free \<and> prio (procs ! unat p) = int k"
  by (simp add: queued_def)

lemma queued_queues_ok:
  assumes "queued procs rqs"
  shows "queues_ok procs rqs"
  unfolding queues_ok_def
proof (intro conjI ballI)
  fix q p assume "q \<in> set rqs" "p \<in> set q"
  then obtain k where "k < 16" "p \<in> set (rqs ! k)"
    using queued_lengths [OF assms] by (auto simp: in_set_conv_nth [of q rqs])
  then show "unat p < 128" using queued_mem [OF assms] by blast
qed (use queued_lengths [OF assms] in auto)

lemma queued_cong:
  assumes "queued procs rqs" "length procs' = 128"
    "\<And>i. i < 128 \<Longrightarrow> (proc_state (procs' ! i) = Free \<longleftrightarrow> proc_state (procs ! i) = Free) \<and> prio (procs' ! i) = prio (procs ! i)"
  shows "queued procs' rqs"
  using assms unfolding queued_def by (auto simp: unat_u32_less)

lemma queued_permute:
  assumes "queued procs rqs" "n < 16" "set q = set (rqs ! n)" "distinct q"
  shows "queued procs (rqs[n := q])"
  using assms by (auto simp: queued_def nth_list_update)

lemma queued_update_same:
  assumes "queued procs rqs" "i < 128" "proc_state p = Free \<longleftrightarrow> proc_state (procs ! i) = Free" "prio p = prio (procs ! i)"
  shows "queued (procs[i := p]) rqs"
  using assms by (intro queued_cong [OF assms(1)]) (auto simp: queued_def nth_list_update)

lemma queued_insert:
  assumes "queued procs rqs" "i < 128" "proc_state (procs ! i) = Free" "proc_state p \<noteq> Free" "prio p = int k" "k < 16"
  shows "queued (procs[i := p]) (rqs[k := rqs ! k @ [of_nat i]])"
proof -
  have len: "length procs = 128" "length rqs = 16" using queued_lengths [OF assms(1)] by simp_all
  have ui: "unat (of_nat i :: u32) = i" using assms(2) by simp
  have "of_nat i \<notin> set (rqs ! j)" if "j < 16" for j
    using queued_mem [OF assms(1) that, of "of_nat i"] ui assms(3) by simp
  moreover have "unat q = i \<longleftrightarrow> q = of_nat i" for q :: u32 using ui by (metis of_nat_unat ucast_id)
  ultimately show ?thesis
    using assms len ui unfolding queued_def by (auto simp: nth_list_update)
qed

lemma queued_remove:
  assumes "queued procs rqs" "i < 128" "proc_state p = Free" "prio (procs ! i) = int k" "k < 16"
  shows "queued (procs[i := p]) (rqs[k := filter (\<lambda>q. q \<noteq> of_nat i) (rqs ! k)])"
proof -
  have len: "length procs = 128" "length rqs = 16" using queued_lengths [OF assms(1)] by simp_all
  have ui: "unat (of_nat i :: u32) = i" using assms(2) by simp
  have "of_nat i \<notin> set (rqs ! j)" if "j < 16" "j \<noteq> k" for j
    using queued_mem [OF assms(1) that(1), of "of_nat i"] ui assms(4) that by simp
  moreover have "unat q = i \<longleftrightarrow> q = of_nat i" for q :: u32 using ui by (metis of_nat_unat ucast_id)
  ultimately show ?thesis
    using assms len ui unfolding queued_def by (auto simp: nth_list_update)
qed

lemma remove_pid_filter: "remove_pid c q temp = temp @ filter (\<lambda>p. p \<noteq> c) q"
  by (induction c q temp rule: remove_pid.induct) simp_all


subsection \<open>Fields that calls leave alone\<close>

lemma more_set_reg: "machine.more (set_reg s a r v) = machine.more s"
  by (simp add: set_reg_def)

lemma more_copy_regs: "machine.more (copy_regs s d c) = machine.more s"
  by (simp add: copy_regs_def)

lemmas set_reg_fields [simp] = kernel_fields_more [OF more_set_reg]
lemmas copy_regs_fields [simp] = kernel_fields_more [OF more_copy_regs]
lemmas switch_fields [simp] = kernel_fields_more [OF more_switch]

lemma get_proc_Inr: "get_proc s i = Inr p \<longleftrightarrow> unat i < length (processes s) \<and> p = processes s ! unat i"
  by (auto simp: get_proc_def)

lemma set_proc_fields [simp]:
  "processes (set_proc s i p) = (processes s)[unat i := p]" "runqueues (set_proc s i p) = runqueues s"
  "curr_pid (set_proc s i p) = curr_pid s" "run_pid (set_proc s i p) = run_pid s" "sh (set_proc s i p) = sh s"
  "should_cycle (set_proc s i p) = should_cycle s" "kbd (set_proc s i p) = kbd s"
  by (simp_all add: set_proc_def)

lemma finalize_command_fields:
  "finalize_command s = Inr s' \<Longrightarrow> processes s' = processes s \<and> runqueues s' = runqueues s \<and> curr_pid s' = curr_pid s
     \<and> machine.more (s'\<lparr>scr := scr s, sh := sh s\<rparr>) = machine.more s \<and> mem s' = mem s \<and> run_pid s' = run_pid s \<and> kbd s' = kbd s"
  by (auto simp: finalize_command_def echo_thingy_def print_def bindE_eq_Inr Let_def mem_def split: if_splits)

lemma select_keeps:
  assumes "scheduled s" "select_new_process s = Inr s'"
  shows "scheduled s' \<and> processes s' = processes s"
proof (cases "\<exists>q \<in> set (runqueues s). \<exists>p \<in> set q. runnable (processes s) p")
  case True
  obtain n xs p ys where n: "n < 16" "runqueues s ! n = xs @ p # ys" "\<forall>x \<in> set xs. \<not> runnable (processes s) x"
    "runnable (processes s) p" "\<forall>k. n < k \<and> k < 16 \<longrightarrow> (\<forall>p \<in> set (runqueues s ! k). \<not> runnable (processes s) p)"
    using top_runnable [OF queued_queues_ok [OF assms(1)] True] .
  have "distinct (runqueues s ! n)" using assms(1) n(1) by (simp add: queued_def)
  then have "queued (processes s) ((runqueues s)[n := ys @ xs @ [p]])"
    using n(2) by (intro queued_permute [OF assms(1) n(1)]) auto
  then show ?thesis using select_top [OF queued_queues_ok [OF assms(1)] n] assms(2) by auto
next
  case False
  then show ?thesis
    using select_loop_none [OF queued_queues_ok [OF assms(1)]] assms by (auto simp: select_new_process_def)
qed

lemma select_runnable:
  assumes "scheduled s" "select_new_process s = Inr s'" "\<exists>q \<in> set (runqueues s). \<exists>p \<in> set q. runnable (processes s) p"
  shows "runnable (processes s') (curr_pid s')"
proof -
  obtain n xs p ys where n: "n < 16" "runqueues s ! n = xs @ p # ys" "\<forall>x \<in> set xs. \<not> runnable (processes s) x"
    "runnable (processes s) p" "\<forall>k. n < k \<and> k < 16 \<longrightarrow> (\<forall>p \<in> set (runqueues s ! k). \<not> runnable (processes s) p)"
    using top_runnable [OF queued_queues_ok [OF assms(1)] assms(3)] .
  from select_top [OF queued_queues_ok [OF assms(1)] n] show ?thesis using assms(2) n(4) by auto
qed

lemma select_top_valid:
  assumes "scheduled s" "select_new_process s = Inr s'" "\<exists>q \<in> set (runqueues s). \<exists>p \<in> set q. runnable (processes s) p"
  shows "unat (curr_pid s') < 128"
proof -
  obtain n xs p ys where n: "n < 16" "runqueues s ! n = xs @ p # ys" "\<forall>x \<in> set xs. \<not> runnable (processes s) x"
    "runnable (processes s) p" "\<forall>k. n < k \<and> k < 16 \<longrightarrow> (\<forall>p \<in> set (runqueues s ! k). \<not> runnable (processes s) p)"
    using top_runnable [OF queued_queues_ok [OF assms(1)] assms(3)] .
  have "unat p < 128" using queued_mem [OF assms(1) n(1)] n(2) by auto
  with select_top [OF queued_queues_ok [OF assms(1)] n] show ?thesis using assms(2) by auto
qed

subsection \<open>Switching\<close>

text \<open>Replacing the saved context of a process.\<close>

lemma scheduled_set_ctx:
  "scheduled s \<Longrightarrow> unat i < 128 \<Longrightarrow> scheduled (set_proc s i ((processes s ! unat i)\<lparr>ctx := c\<rparr>))"
  by (auto intro!: queued_update_same)

lemma SWITCH_BEFORE_keeps:
  assumes "scheduled s" "SWITCH_BEFORE s regs = Inr s'"
  shows "scheduled s'"
  using assms queued_lengths [OF assms(1)]
  by (auto simp: SWITCH_BEFORE_def Let_def bindE_eq_Inr get_proc_Inr intro!: queued_update_same)

lemma SWITCH_AFTER_keeps:
  "SWITCH_AFTER s regs = Inr s' \<Longrightarrow> processes s' = processes s \<and> runqueues s' = runqueues s \<and> curr_pid s' = curr_pid s"
  by (auto simp: SWITCH_AFTER_def Let_def bindE_eq_Inr)

lemma user_enter_keeps:
  "user_enter s = Inr s' \<Longrightarrow> processes s' = processes s \<and> runqueues s' = runqueues s \<and> curr_pid s' = curr_pid s"
  by (auto simp: user_enter_def Let_def bindE_eq_Inr)

lemma user_leave_keeps:
  assumes "scheduled s" "user_leave s = Inr s'"
  shows "scheduled s'"
  using assms queued_lengths [OF assms(1)]
  by (auto simp: user_leave_def Let_def bindE_eq_Inr get_proc_Inr intro!: queued_update_same)

lemma user_leave_curr: "user_leave s = Inr s' \<Longrightarrow> curr_pid s' = curr_pid s"
  by (auto simp: user_leave_def Let_def bindE_eq_Inr)

lemma user_leave_state:
  "user_leave s = Inr s' \<Longrightarrow> proc_state (processes s' ! i) = proc_state (processes s ! i)"
  by (auto simp: user_leave_def Let_def bindE_eq_Inr get_proc_Inr nth_list_update)

lemma SWITCH_BEFORE_state:
  "SWITCH_BEFORE s regs = Inr s' \<Longrightarrow>
     proc_state (processes s' ! i) = proc_state (processes s ! i) \<and> curr_pid s' = curr_pid s \<and> runqueues s' = runqueues s"
  by (auto simp: SWITCH_BEFORE_def Let_def bindE_eq_Inr get_proc_Inr nth_list_update)

lemma queued_runnable:
  assumes "queued procs rqs" "i < 128" "proc_state (procs ! i) = Runnable"
  shows "\<exists>q \<in> set rqs. \<exists>p \<in> set q. runnable procs p"
proof -
  let ?k = "nat (prio (procs ! i))"
  have k: "?k < 16" "int ?k = prio (procs ! i)" using assms by (auto simp: queued_def)
  have "of_nat i \<in> set (rqs ! ?k)" using queued_mem [OF assms(1) k(1), of "of_nat i"] assms k by simp
  moreover have "rqs ! ?k \<in> set rqs" using k(1) queued_lengths [OF assms(1)] by simp
  ultimately show ?thesis using assms by (auto simp: runnable_def intro!: bexI)
qed

lemma find_zombie_some:
  "find_zombie procs parent i n b = (Some c, b') \<Longrightarrow> i \<le> c \<and> c < i + n \<and> proc_state (procs ! c) = Zombie \<and> parent_id (procs ! c) = parent"
  by (induction procs parent i n b rule: find_zombie.induct) (auto split: if_splits)

lemma find_free_result:
  "find_free procs i n < i + n \<Longrightarrow> find_free procs i n < length procs \<and> proc_state (procs ! find_free procs i n) = Free"
  by (induction procs i n rule: find_free.induct) auto

lemma find_free_bound: "find_free procs i n \<le> i + n"
  by (induction procs i n rule: find_free.induct) (auto intro: le_SucI)

lemma timer_keeps: "scheduled s \<Longrightarrow> timer_handler s regs = Inr s' \<Longrightarrow> scheduled s'"
  by (auto simp: timer_handler_def bindE_eq_Inr split: if_splits dest!: SWITCH_AFTER_keeps)
    (metis SWITCH_BEFORE_keeps select_keeps)


subsection \<open>System calls, on any allocator that keeps to memory\<close>

locale kernel_frame = allocator_frame A for A :: "'z kernel_scheme allocator"
begin

lemmas alloc_fields = kernel_fields_more [OF alloc_more]
lemmas release_fields = kernel_fields_more [OF release_more]
lemmas free_page_dir_fields = kernel_fields_more [OF free_page_dir_more]
lemmas fork_page_dir_fields = kernel_fields_more [OF fork_page_dir_more]
lemmas new_page_dir_fields = kernel_fields_more [OF new_page_dir_more]

lemma new_process_fields:
  assumes "new_process A s parent pr create = Inr (p, s')"
  shows "processes s' = processes s" "runqueues s' = runqueues s" "curr_pid s' = curr_pid s"
    "proc_state p = Runnable" "prio p = pr" "parent_id p = parent"
  using assms
  by (auto simp: new_process_def Let_def bindE_eq_Inr alloc_fields new_page_dir_fields split: if_splits)

text \<open>What a reaped child leaves: its entry is free, its runqueue does not have it any more, its parent can run.\<close>

lemma resolve_result:
  assumes "resolve_exit_wait A s parent child = Inr s'"
  shows "unat child < length (processes s) \<and> unat parent < length (processes s) \<and>
    (let c = processes s ! unat child; k = nat (prio c); procs = (processes s)[unat child := c\<lparr>proc_state := Free\<rparr>]
     in 0 \<le> prio c \<and> k < length (runqueues s) \<and>
        runqueues s' = (runqueues s)[k := filter (\<lambda>p. p \<noteq> child) (runqueues s ! k)] \<and>
        processes s' = procs[unat parent := (procs ! unat parent)\<lparr>proc_state := Runnable\<rparr>]) \<and>
    curr_pid s' = curr_pid s \<and> run_pid s' = remove1 child (run_pid s) \<and> kbd s' = kbd s"
proof -
  let ?c = "processes s ! unat child"
  let ?s0 = "set_proc s child (?c\<lparr>proc_state := Free\<rparr>)"
  have c: "unat child < length (processes s)" "get_proc s child = Inr ?c"
    using assms by (auto simp: resolve_exit_wait_def bindE_eq_Inr get_proc_Inr)
  obtain s1 s2 s3 p where s1: "dequeue_child ?s0 (prio ?c) child = Inr s1"
    and s2: "release A s1 (regs_at (ctx ?c)) = Inr s2" and s3: "free_page_dir A s2 (page_dir (ctx ?c)) = Inr s3"
    and p: "get_proc s3 parent = Inr p"
    and fin: "let s = set_proc s3 parent (p\<lparr>proc_state := Runnable\<rparr>);
            s = set_reg s (regs_at (ctx p)) Eax 1;
            s = set_reg s (regs_at (ctx p)) Ebx child;
            s = set_reg s (regs_at (ctx p)) Ecx (get_reg s (regs_at (ctx ?c)) Ebx);
            s = s\<lparr>run_pid := remove1 child (run_pid s)\<rparr>
        in (if run_pid s = [] then finalize_command s else Inr s) = Inr s'"
    using assms unfolding resolve_exit_wait_def Let_def c(2) bindE_Inr by (simp only: bindE_eq_Inr) blast
  have 1: "0 \<le> prio ?c" "nat (prio ?c) < length (runqueues s)" "processes s1 = processes ?s0" "curr_pid s1 = curr_pid s"
    "run_pid s1 = run_pid s" "kbd s1 = kbd s" "runqueues s1 = (runqueues s)[nat (prio ?c) := filter (\<lambda>p. p \<noteq> child) (runqueues s ! nat (prio ?c))]"
    using s1 by (auto simp: dequeue_child_def remove_pid_filter split: if_splits)
  note 2 = release_fields [OF s2] and 3 = free_page_dir_fields [OF s3]
  have p': "unat parent < length (processes s)" "p = processes ?s0 ! unat parent"
    using p 1 2 3 by (auto simp: get_proc_Inr)
  define s4 where "s4 = (let s = set_proc s3 parent (p\<lparr>proc_state := Runnable\<rparr>);
            s = set_reg s (regs_at (ctx p)) Eax 1;
            s = set_reg s (regs_at (ctx p)) Ebx child;
            s = set_reg s (regs_at (ctx p)) Ecx (get_reg s (regs_at (ctx ?c)) Ebx)
        in s\<lparr>run_pid := remove1 child (run_pid s)\<rparr>)"
  have "s' = s4 \<or> finalize_command s4 = Inr s'"
    using fin unfolding Let_def s4_def by (simp only: sum.inject split: if_splits) blast+
  then have s': "processes s' = processes s4 \<and> runqueues s' = runqueues s4 \<and> curr_pid s' = curr_pid s4 \<and> run_pid s' = run_pid s4
    \<and> kbd s' = kbd s4"
    using finalize_command_fields [of s4 s'] by blast
  have "processes s4 = (processes ?s0)[unat parent := p\<lparr>proc_state := Runnable\<rparr>]" "runqueues s4 = runqueues s1"
    "curr_pid s4 = curr_pid s" "run_pid s4 = remove1 child (run_pid s)" "kbd s4 = kbd s"
    using 1 2 3 by (simp_all add: s4_def Let_def)
  note fields = this
  show ?thesis using c p' fields 1 s' by (simp add: Let_def)
qed

lemma resolve_keeps:
  assumes "scheduled s" "resolve_exit_wait A s parent child = Inr s'" "parent \<noteq> child"
    "proc_state (processes s ! unat parent) \<noteq> Free"
  shows "scheduled s'"
    and "\<And>i. proc_state (processes s' ! i) = Waiting \<Longrightarrow> proc_state (processes s ! i) = Waiting"
proof -
  let ?c = "processes s ! unat child"
  let ?procs = "(processes s)[unat child := ?c\<lparr>proc_state := Free\<rparr>]"
  note r = resolve_result [OF assms(2), unfolded Let_def]
  have len: "length (processes s) = 128" "length (runqueues s) = 16" using queued_lengths [OF assms(1)] by simp_all
  have neq: "unat parent \<noteq> unat child" using assms(3) by (simp add: u32_eq_iff_unat)
  have "queued ?procs (runqueues s')"
    using queued_remove [OF assms(1), of "unat child" "?c\<lparr>proc_state := Free\<rparr>" "nat (prio ?c)"] r len by auto
  then show "scheduled s'"
    using r neq assms(4) len by (auto intro!: queued_update_same)
  fix i assume "proc_state (processes s' ! i) = Waiting"
  then show "proc_state (processes s ! i) = Waiting"
    using r len neq by (cases "i < 128") (auto simp: nth_list_update split: if_splits)
qed

lemma exit_step_keeps:
  assumes "scheduled s" "get_proc s i = Inr p"
    "(if parent_id p = pid then
        let s = set_proc s i (p\<lparr>parent_id := 1\<rparr>)
        in bindE (get_proc s 1) (\<lambda>init.
           if proc_state p = Zombie \<and> proc_state init = Waiting then resolve_exit_wait A s 1 i else Inr s)
      else Inr s) = Inr s'"
  shows "scheduled s' \<and> (\<forall>j. proc_state (processes s' ! j) = Waiting \<longrightarrow> proc_state (processes s ! j) = Waiting)
    \<and> curr_pid s' = curr_pid s
    \<and> (proc_state (processes s' ! 1) = Runnable \<or> (\<forall>j. proc_state (processes s' ! j) = proc_state (processes s ! j)))"
proof (cases "parent_id p = pid")
  case True
  let ?s = "set_proc s i (p\<lparr>parent_id := 1\<rparr>)"
  have len: "length (processes s) = 128" using queued_lengths [OF assms(1)] by simp
  have i: "unat i < 128" "p = processes s ! unat i" using assms(2) len by (auto simp: get_proc_Inr)
  have 1: "scheduled ?s" using assms(1) i by (auto intro!: queued_update_same)
  have same: "proc_state (processes ?s ! j) = proc_state (processes s ! j)" for j
    using i len by (cases "j < 128") (auto simp: nth_list_update)
  show ?thesis
  proof (cases "s' = ?s")
    case True
    then show ?thesis using 1 same by simp
  next
    case False
    then have res: "resolve_exit_wait A ?s 1 i = Inr s'" and st: "proc_state p = Zombie" "proc_state (processes ?s ! unat 1) = Waiting"
      using assms(3) True by (auto simp: Let_def bindE_eq_Inr get_proc_Inr split: if_splits)
    have ne: "1 \<noteq> i" using st i same by auto
    have nf: "proc_state (processes ?s ! unat 1) \<noteq> Free" using st(2) by simp
    show ?thesis
      using resolve_keeps [OF 1 res ne nf] resolve_result [OF res] same by (auto simp: Let_def)
  qed
next
  case False
  then show ?thesis using assms by simp
qed

lemma exit_loop_keeps:
  "scheduled s \<Longrightarrow> exit_loop A s pid i n = Inr s' \<Longrightarrow>
     scheduled s' \<and> (\<forall>j. proc_state (processes s' ! j) = Waiting \<longrightarrow> proc_state (processes s ! j) = Waiting)
     \<and> curr_pid s' = curr_pid s
     \<and> (proc_state (processes s' ! 1) = Runnable \<or> (\<forall>j. proc_state (processes s' ! j) = proc_state (processes s ! j)))"
proof (induction n arbitrary: s i)
  case (Suc n)
  from Suc.prems(2) obtain p s1 where p: "get_proc s i = Inr p" and s1:
    "(if parent_id p = pid then
        let s = set_proc s i (p\<lparr>parent_id := 1\<rparr>)
        in bindE (get_proc s 1) (\<lambda>init.
           if proc_state p = Zombie \<and> proc_state init = Waiting then resolve_exit_wait A s 1 i else Inr s)
      else Inr s) = Inr s1" and rest: "exit_loop A s1 pid (i + 1) n = Inr s'"
    by (simp only: exit_loop.simps bindE_eq_Inr) blast
  from exit_step_keeps [OF Suc.prems(1) p s1] Suc.IH [OF _ rest] show ?case by auto
qed simp

lemma exit_keeps:
  assumes "table_ok s" "syscall_exit A s = Inr s'"
  shows "call_ok s s'"
proof -
  let ?i = "curr_pid s"
  have len: "length (processes s) = 128" using assms(1) by (simp add: table_ok_def queued_def)
  obtain p s1 q r where p: "get_proc s ?i = Inr p" and s1: "exit_loop A (set_proc s ?i (p\<lparr>proc_state := Zombie\<rparr>)) ?i 0 128 = Inr s1"
    and q: "get_proc s1 ?i = Inr q" and r: "get_proc s1 (parent_id q) = Inr r"
    and s': "(if proc_state r = Waiting then resolve_exit_wait A s1 (parent_id q) ?i else Inr s1) = Inr s'"
    using assms(2) by (auto simp: syscall_exit_def Let_def bindE_eq_Inr)
  have i: "unat ?i < 128" "p = processes s ! unat ?i" using p len by (auto simp: get_proc_Inr)
  have "scheduled (set_proc s ?i (p\<lparr>proc_state := Zombie\<rparr>))"
    using assms(1) i by (auto simp: table_ok_def intro!: queued_update_same)
  from exit_loop_keeps [OF this s1] have 1: "scheduled s1" "curr_pid s1 = ?i" "proc_state (processes s1 ! unat ?i) \<noteq> Waiting"
    and alive: "proc_state (processes s1 ! unat ?i) \<noteq> Free \<or> proc_state (processes s1 ! 1) = Runnable"
    using i len by auto
  show ?thesis
  proof (cases "proc_state r = Waiting")
    case True
    then have ne: "parent_id q \<noteq> ?i" and nf: "proc_state (processes s1 ! unat (parent_id q)) \<noteq> Free"
      and res: "resolve_exit_wait A s1 (parent_id q) ?i = Inr s'"
      using 1(3) r s' by (auto simp: get_proc_Inr)
    note rr = resolve_result [OF res, unfolded Let_def]
    have "unat (parent_id q) < 128 \<and> proc_state (processes s' ! unat (parent_id q)) = Runnable"
      using rr queued_lengths [OF 1(1)] by simp
    then show ?thesis
      using resolve_keeps(1) [OF 1(1) res ne nf] rr 1(2) unfolding call_ok_def by auto
  qed (use s' 1 alive in \<open>auto simp: call_ok_def intro: exI [of _ 1]\<close>)
qed

lemma wait_keeps:
  assumes "table_ok s" "syscall_wait A s = Inr s'"
  shows "call_ok s s'"
proof -
  let ?i = "curr_pid s"
  have len: "length (processes s) = 128" using assms(1) by (simp add: table_ok_def queued_def)
  obtain p where p: "get_proc s ?i = Inr p" using assms(2) by (auto simp: syscall_wait_def bindE_eq_Inr)
  have i: "unat ?i < 128" "p = processes s ! unat ?i" using p len by (auto simp: get_proc_Inr)
  let ?s = "set_proc s ?i (p\<lparr>proc_state := Waiting\<rparr>)"
  have 1: "scheduled ?s" "scheduled (set_proc s ?i (p\<lparr>proc_state := Runnable\<rparr>))"
    using assms(1) i by (auto simp: table_ok_def intro!: queued_update_same)
  obtain z b where z: "find_zombie (processes ?s) ?i 0 128 False = (z, b)" by fastforce
  show ?thesis
  proof (cases z)
    case None
    then show ?thesis using assms(2) p z 1 len i by (auto simp: syscall_wait_def call_ok_def Let_def split: if_splits)
  next
    case (Some c)
    have c: "c < 128" "proc_state (processes ?s ! c) = Zombie" using find_zombie_some [OF z [unfolded Some]] by auto
    then have ne: "?i \<noteq> of_nat c" using i len by (auto simp: nth_list_update)
    have res: "resolve_exit_wait A ?s ?i (of_nat c) = Inr s'"
      using assms(2) p z Some len by (auto simp: syscall_wait_def Let_def split: if_splits)
    have nf: "proc_state (processes ?s ! unat ?i) \<noteq> Free" using i len by simp
    show ?thesis using resolve_keeps(1) [OF 1(1) res ne nf] resolve_result [OF res] i len unfolding call_ok_def by (simp add: Let_def)
  qed
qed

lemma fork_keeps:
  assumes "table_ok s" "syscall_fork A s = Inr s'"
  shows "call_ok s s'"
proof -
  have sched: "scheduled s" using assms(1) by (simp add: table_ok_def)
  let ?i = "find_free (processes s) 0 128" and ?p = "processes s ! unat (curr_pid s)"
  have len: "length (processes s) = 128" "length (runqueues s) = 16" using queued_lengths [OF sched] by simp_all
  have p: "get_proc s (curr_pid s) = Inr ?p" using assms(2) by (auto simp: syscall_fork_def bindE_eq_Inr get_proc_Inr)
  let ?k = "sint (get_reg s (regs_at (ctx ?p)) Ebx)"
  show ?thesis
  proof (cases "?i = 128 \<or> ?k > prio ?p")
    case True
    then show ?thesis using assms p by (auto simp: syscall_fork_def call_ok_def table_ok_def Let_def)
  next
    case False
    then have free: "?i < 128" "proc_state (processes s ! ?i) = Free"
      using find_free_result [of "processes s" 0 128] find_free_bound [of "processes s" 0 128] by auto
    obtain proc0 s1 where new: "new_process A s (curr_pid s) ?k False = Inr (proc0, s1)"
      using assms(2) False p by (auto simp: syscall_fork_def Let_def bindE_eq_Inr)
    note nf = new_process_fields [OF new]
    let ?s1 = "set_proc s1 (of_nat ?i) proc0"
    obtain parent :: process and regs s2 dir s3 s4 regs' where s2: "alloc_aligned A ?s1 76 1 = Inr (regs, s2)"
      and s3: "fork_page_dir A (set_reg (set_reg (copy_regs s2 regs (regs_at (ctx parent))) regs Eax 2) regs Ebx
          (curr_pid (set_reg (copy_regs s2 regs (regs_at (ctx parent))) regs Eax 2))) (page_dir (ctx parent)) = Inr (dir, s3)"
      and s4: "enqueue_at (set_proc s3 (of_nat ?i) (proc0\<lparr>ctx := (ctx parent)\<lparr>regs_at := regs, page_dir := dir\<rparr>\<rparr>)) ?k (of_nat ?i) = Inr s4"
      and s': "set_reg (set_reg s4 regs' Eax 1) regs' Ebx (of_nat ?i) = s'"
      using assms(2) False unfolding syscall_fork_def Let_def p bindE_Inr
      by (simp only: if_False new bindE_Inr case_prod_conv bindE_eq_Inr split_paired_Ex prod.inject sum.inject fst_conv snd_conv) blast
    have k: "0 \<le> ?k" "nat ?k < 16" "processes s' = (processes s)[?i := proc0\<lparr>ctx := (ctx parent)\<lparr>regs_at := regs, page_dir := dir\<rparr>\<rparr>]"
      "runqueues s' = (runqueues s)[nat ?k := runqueues s ! nat ?k @ [of_nat ?i]]" "curr_pid s' = curr_pid s"
      using s4 free(1) len alloc_fields [OF s2] fork_page_dir_fields [OF s3] nf
      by (auto simp: s' [symmetric] enqueue_at_def split: if_splits)
    show ?thesis
      using queued_insert [OF sched free, of "proc0\<lparr>ctx := (ctx parent)\<lparr>regs_at := regs, page_dir := dir\<rparr>\<rparr>" "nat ?k"] k nf len free assms(1)
      unfolding call_ok_def by (auto simp: table_ok_def nth_list_update)
  qed
qed

lemma malloc_keeps:
  assumes "table_ok s" "syscall_malloc A s = Inr s'"
  shows "call_ok s s'"
proof -
  obtain s1 ret s2 s3 regs where s1: "user_enter s = Inr s1" and s2: "alloc_aligned A s1 (get_reg s regs Ebx) 1 = Inr (ret, s2)"
    and s3: "user_leave s2 = Inr s3" and regs: "\<exists>regs. s' = set_reg s3 regs Eax ret"
    using assms(2) by (auto simp: syscall_malloc_def Let_def bindE_eq_Inr) blast
  note f = user_enter_keeps [OF s1] alloc_fields [OF s2]
  have "scheduled s3" using assms(1) f by (intro user_leave_keeps [OF _ s3]) (simp add: table_ok_def)
  then show ?thesis
    using regs f user_leave_curr [OF s3] user_leave_state [OF s3] assms(1) by (auto simp: call_ok_def table_ok_def)
qed

lemma free_keeps:
  assumes "table_ok s" "syscall_free A s = Inr s'"
  shows "call_ok s s'"
proof -
  obtain s1 ptr s2 where s1: "user_enter s = Inr s1" and s2: "release A s1 ptr = Inr s2" and s': "user_leave s2 = Inr s'"
    using assms(2) by (auto simp: syscall_free_def Let_def bindE_eq_Inr)
  note f = user_enter_keeps [OF s1] release_fields [OF s2]
  have "scheduled s'" using assms(1) f by (intro user_leave_keeps [OF _ s']) (simp add: table_ok_def)
  then show ?thesis
    using f user_leave_curr [OF s'] user_leave_state [OF s'] assms(1) by (auto simp: call_ok_def table_ok_def)
qed

end

end
