(* ===== verification/Switch_Props.thy ===== *)
theory Switch_Props
  imports Process_Table
begin

text \<open>
  What a timer interrupt does to memory and to the saved contexts, and that a process that is
  preempted and scheduled again later goes on where it was.
\<close>

subsection \<open>Register frames\<close>

definition frame_at :: "memory \<Rightarrow> u32 \<Rightarrow> bytes" where
  "frame_at m a = map (\<lambda>i. m (a + of_nat i)) [0..<76]"

definition apart :: "u32 \<Rightarrow> u32 \<Rightarrow> bool" where
  "apart a b \<longleftrightarrow> unat a + 76 \<le> unat b \<or> unat b + 76 \<le> unat a"

definition inside :: "u32 \<Rightarrow> bool" where
  "inside a \<longleftrightarrow> unat a + 76 \<le> 2 ^ 32"

lemma apart_sym: "apart a b \<longleftrightarrow> apart b a"
  by (auto simp: apart_def)

lemma unat_frame_byte: "inside a \<Longrightarrow> i < 76 \<Longrightarrow> unat (a + of_nat i) = unat a + i"
  by (simp add: inside_def unat_add_lem [THEN iffD1] unat_of_nat_len_u32)

lemma frame_copied:
  assumes "inside d" "inside r" "apart d r"
  shows "frame_at (mem_copy m d r 76) d = frame_at m r"
  using assms unat_frame_byte [OF assms(1)] unfolding frame_at_def
  by (intro map_cong) (auto simp: mem_copy_nth inside_def apart_def)

lemma frame_elsewhere:
  assumes "inside d" "inside r" "inside x" "apart d r" "apart d x"
  shows "frame_at (mem_copy m d r 76) x = frame_at m x"
  using assms unat_frame_byte [OF assms(3)] unfolding frame_at_def
  by (intro map_cong) (auto simp: mem_copy_nth inside_def apart_def)

subsection \<open>The two halves of a switch\<close>

abbreviation current :: "'z kernel_scheme \<Rightarrow> process" where
  "current s \<equiv> processes s ! unat (curr_pid s)"

abbreviation save_area :: "'z kernel_scheme \<Rightarrow> u32 \<Rightarrow> u32" where
  "save_area s p \<equiv> regs_at (ctx (processes s ! unat p))"

lemma kmem_copy_regs: "current_directory s = kernel_directory s \<Longrightarrow> kmem (copy_regs s d r) = mem_copy (kmem s) d r 76"
  by (simp add: copy_regs_def set_mem_def mem_def)

lemma copy_regs_machine [simp]:
  "first_free_block (copy_regs s d r) = first_free_block s" "unallocated_mem (copy_regs s d r) = unallocated_mem s"
  "kernel_first_free_block (copy_regs s d r) = kernel_first_free_block s"
  "kernel_unallocated_mem (copy_regs s d r) = kernel_unallocated_mem s"
  "current_directory (copy_regs s d r) = current_directory s" "kernel_directory (copy_regs s d r) = kernel_directory s"
  "START_OF_USER_HEAP (copy_regs s d r) = START_OF_USER_HEAP s"
  by (simp_all add: copy_regs_def)

lemma switch_machine [simp]:
  "kmem (switch_page_directory s d) = kmem s" "first_free_block (switch_page_directory s d) = first_free_block s"
  "unallocated_mem (switch_page_directory s d) = unallocated_mem s"
  "kernel_first_free_block (switch_page_directory s d) = kernel_first_free_block s"
  "kernel_unallocated_mem (switch_page_directory s d) = kernel_unallocated_mem s"
  "current_directory (switch_page_directory s d) = d" "kernel_directory (switch_page_directory s d) = kernel_directory s"
  "START_OF_USER_HEAP (switch_page_directory s d) = START_OF_USER_HEAP s"
  by (simp_all add: switch_page_directory_def)

lemma set_proc_machine [simp]:
  "kmem (set_proc s i p) = kmem s" "first_free_block (set_proc s i p) = first_free_block s"
  "unallocated_mem (set_proc s i p) = unallocated_mem s"
  "kernel_first_free_block (set_proc s i p) = kernel_first_free_block s"
  "kernel_unallocated_mem (set_proc s i p) = kernel_unallocated_mem s"
  "current_directory (set_proc s i p) = current_directory s" "kernel_directory (set_proc s i p) = kernel_directory s"
  "START_OF_USER_HEAP (set_proc s i p) = START_OF_USER_HEAP s"
  by (simp_all add: set_proc_def)

lemma SWITCH_BEFORE_saves:
  assumes "SWITCH_BEFORE s regs = Inr s'"
  shows "kmem s' = mem_copy (kmem s) (save_area s (curr_pid s)) regs 76"
    "processes s' = (processes s)[unat (curr_pid s) := (current s)\<lparr>ctx := (ctx (current s))
       \<lparr>ctx_first_free_block := first_free_block s, ctx_unallocated_mem := unallocated_mem s\<rparr>\<rparr>]"
    "current_directory s' = kernel_directory s'" "kernel_directory s' = kernel_directory s"
    "first_free_block s' = kernel_first_free_block s" "unallocated_mem s' = kernel_unallocated_mem s"
    "unat (curr_pid s) < length (processes s)" "curr_pid s' = curr_pid s"
    "START_OF_USER_HEAP s' = START_OF_USER_HEAP s"
  using assms by (auto simp: SWITCH_BEFORE_def Let_def bindE_eq_Inr get_proc_Inr kmem_copy_regs)

lemma SWITCH_AFTER_restores:
  assumes "SWITCH_AFTER s regs = Inr s'" "current_directory s = kernel_directory s"
  shows "kmem s' = mem_copy (kmem s) regs (save_area s (curr_pid s)) 76"
    "first_free_block s' = ctx_first_free_block (ctx (current s))"
    "unallocated_mem s' = ctx_unallocated_mem (ctx (current s))"
    "kernel_first_free_block s' = first_free_block s" "kernel_unallocated_mem s' = unallocated_mem s"
    "current_directory s' = page_dir (ctx (current s))" "kernel_directory s' = kernel_directory s" "\<not> in_kernel s'"
    "START_OF_USER_HEAP s' = START_OF_USER_HEAP s"
  using assms by (auto simp: SWITCH_AFTER_def Let_def bindE_eq_Inr get_proc_Inr kmem_copy_regs)

lemma select_new_process_shape:
  "select_new_process s = Inr s' \<Longrightarrow> \<exists>r. s' = s\<lparr>runqueues := r, curr_pid := curr_pid s'\<rparr>"
  by (auto simp: select_new_process_def bindE_eq_Inr split: option.splits) blast

lemma timer_switches:
  assumes "timer_handler s regs = Inr s'" "\<not> in_kernel s"
  shows "processes s' = (processes s)[unat (curr_pid s) := (current s)\<lparr>ctx := (ctx (current s))
       \<lparr>ctx_first_free_block := first_free_block s, ctx_unallocated_mem := unallocated_mem s\<rparr>\<rparr>]"
    "kmem s' = mem_copy (mem_copy (kmem s) (save_area s (curr_pid s)) regs 76) regs (save_area s' (curr_pid s')) 76"
    "first_free_block s' = ctx_first_free_block (ctx (current s'))"
    "unallocated_mem s' = ctx_unallocated_mem (ctx (current s'))"
    "kernel_first_free_block s' = kernel_first_free_block s" "kernel_unallocated_mem s' = kernel_unallocated_mem s"
    "current_directory s' = page_dir (ctx (current s'))" "\<not> in_kernel s'" "unat (curr_pid s) < length (processes s)"
proof -
  obtain s1 s2 where s1: "SWITCH_BEFORE s regs = Inr s1" and s2: "select_new_process s1 = Inr s2"
    and s': "SWITCH_AFTER s2 regs = Inr s'"
    using assms by (auto simp: timer_handler_def bindE_eq_Inr)
  note b = SWITCH_BEFORE_saves [OF s1]
  obtain r where r: "s2 = s1\<lparr>runqueues := r, curr_pid := curr_pid s2\<rparr>" using select_new_process_shape [OF s2] by blast
  have e: "kmem s2 = kmem s1" "processes s2 = processes s1" "current_directory s2 = current_directory s1"
    "kernel_directory s2 = kernel_directory s1" "first_free_block s2 = first_free_block s1" "unallocated_mem s2 = unallocated_mem s1"
    by (subst r, simp)+
  have d: "current_directory s2 = kernel_directory s2" using e b by simp
  note a = SWITCH_AFTER_restores [OF s' d] and k = SWITCH_AFTER_keeps [OF s']
  show "processes s' = (processes s)[unat (curr_pid s) := (current s)\<lparr>ctx := (ctx (current s))
       \<lparr>ctx_first_free_block := first_free_block s, ctx_unallocated_mem := unallocated_mem s\<rparr>\<rparr>]"
    using k e b(2) by simp
  show "kmem s' = mem_copy (mem_copy (kmem s) (save_area s (curr_pid s)) regs 76) regs (save_area s' (curr_pid s')) 76"
    using a(1) k e(1) b(1) by simp
  show "first_free_block s' = ctx_first_free_block (ctx (current s'))"
    "unallocated_mem s' = ctx_unallocated_mem (ctx (current s'))"
    "kernel_first_free_block s' = kernel_first_free_block s" "kernel_unallocated_mem s' = kernel_unallocated_mem s"
    "current_directory s' = page_dir (ctx (current s'))" "\<not> in_kernel s'" "unat (curr_pid s) < length (processes s)"
    using a(2-) k e b(5-) by simp_all
qed

subsection \<open>Preemption and resumption\<close>

text \<open>The register frame \<open>regs\<close> on the kernel's stack and the save areas of two processes are in different places.\<close>

definition switch_layout :: "u32 \<Rightarrow> u32 \<Rightarrow> u32 \<Rightarrow> bool" where
  "switch_layout area regs other \<longleftrightarrow> inside area \<and> inside regs \<and> inside other \<and>
     apart area regs \<and> apart area other \<and> apart regs other"

text \<open>C7: Suspension and resumption.  A timer interrupt takes the processor away from a process; later, after
  whatever the kernel and the other processes did that left the process's table entry and its
  save area alone, another timer interrupt gives it back.  Then the registers that the
  interrupt returns to are those of the moment of the first interrupt, byte by byte, the
  process's allocator pointers and its address space are in place again, and the kernel has
  been left.\<close>
theorem preempted_process_resumes:
  fixes s s1 t s2 :: "'z kernel_scheme"
  assumes "\<not> in_kernel s" "timer_handler s regs = Inr s1" "curr_pid s1 \<noteq> curr_pid s"
    "\<not> in_kernel t" "timer_handler t regs' = Inr s2" "curr_pid t \<noteq> curr_pid s" "curr_pid s2 = curr_pid s"
    "processes t ! unat (curr_pid s) = processes s1 ! unat (curr_pid s)"
    "frame_at (kmem t) (save_area s (curr_pid s)) = frame_at (kmem s1) (save_area s (curr_pid s))"
    "switch_layout (save_area s (curr_pid s)) regs (save_area s1 (curr_pid s1))"
    "switch_layout (save_area s (curr_pid s)) regs' (save_area t (curr_pid t))"
  shows "frame_at (kmem s2) regs' = frame_at (kmem s) regs \<and>
    first_free_block s2 = first_free_block s \<and> unallocated_mem s2 = unallocated_mem s \<and>
    current_directory s2 = page_dir (ctx (current s)) \<and> \<not> in_kernel s2"
proof -
  let ?p = "curr_pid s" and ?a = "save_area s (curr_pid s)"
  note 1 = timer_switches [OF assms(2,1)] and 2 = timer_switches [OF assms(5,4)]
  have entry: "ctx (processes s1 ! unat ?p) = (ctx (current s))\<lparr>ctx_first_free_block := first_free_block s, ctx_unallocated_mem := unallocated_mem s\<rparr>"
    using 1(1,9) by simp
  have "unat (curr_pid t) \<noteq> unat ?p" using assms(6) by (simp add: u32_eq_iff_unat)
  then have entry2: "processes s2 ! unat ?p = processes s1 ! unat ?p" using 2(1) assms(8) by simp
  have "frame_at (kmem s1) ?a = frame_at (kmem s) regs"
    using assms(10) unfolding 1(2) switch_layout_def by (simp add: frame_elsewhere frame_copied apart_sym)
  moreover have "frame_at (kmem s2) regs' = frame_at (kmem t) ?a"
    using assms(7,11) entry entry2 unfolding 2(2) switch_layout_def by (simp add: frame_elsewhere frame_copied apart_sym)
  ultimately show ?thesis using assms(7,9) 2 entry entry2 by simp
qed

definition preempt_demo :: kernel where
  "preempt_demo = demo_kernel\<lparr>curr_pid := 2, runqueues := [0] # [3, 2] # replicate 13 [] @ [[1]],
     processes := (processes demo_kernel)
       [2 := (processes demo_kernel ! 2)\<lparr>ctx := (ctx free_process)\<lparr>regs_at := 0x1000\<rparr>\<rparr>,
        3 := (processes demo_kernel ! 3)\<lparr>ctx := (ctx free_process)\<lparr>regs_at := 0x2000\<rparr>\<rparr>]\<rparr>"

text \<open>The interrupt returns, with the process that the scheduler chooses.\<close>

lemma timer_returns:
  assumes "\<not> in_kernel s" "unat (curr_pid s) < length (processes s)"
    "select_loop ((processes s)[unat (curr_pid s) := (current s)\<lparr>ctx := (ctx (current s))
       \<lparr>ctx_first_free_block := first_free_block s, ctx_unallocated_mem := unallocated_mem s\<rparr>\<rparr>]) (runqueues s) 16 = Inr (Some q, rqs)"
    "unat q < length (processes s)"
  shows "\<exists>s'. timer_handler s regs = Inr s' \<and> curr_pid s' = q \<and> runqueues s' = rqs"
  using assms by (simp add: timer_handler_def SWITCH_BEFORE_def SWITCH_AFTER_def select_new_process_def get_proc_def Let_def)

lemma preempt_demo_select:
  assumes "length procs = 128" "proc_state (procs ! Suc 0) = Waiting" "proc_state (procs ! unat p) = Runnable" "unat p < 128"
  shows "select_loop procs ([0] # [p, q] # replicate 13 [] @ [[1]]) 16 = Inr (Some p, [0] # [q, p] # replicate 13 [] @ [[1]])"
  using assms by (simp add: eval_nat_numeral)

lemma preempt_demo_fields:
  "\<not> in_kernel preempt_demo" "curr_pid preempt_demo = 2" "length (processes preempt_demo) = 128"
  "runqueues preempt_demo = [0] # [3, 2] # replicate 13 [] @ [[1]]"
  "proc_state (processes preempt_demo ! Suc 0) = Waiting"
  "proc_state (processes preempt_demo ! 2) = Runnable" "proc_state (processes preempt_demo ! 3) = Runnable"
  "regs_at (ctx (processes preempt_demo ! 2)) = 0x1000" "regs_at (ctx (processes preempt_demo ! 3)) = 0x2000"
  by (simp_all add: preempt_demo_def demo_kernel_def boot_state_def free_process_def)

theorem preempted_process_resumes_witness:
  "\<exists>s1 s2. timer_handler preempt_demo 0x3000 = Inr s1 \<and> curr_pid s1 = 3 \<and> timer_handler s1 0x3000 = Inr s2 \<and> curr_pid s2 = 2 \<and>
     frame_at (kmem s2) 0x3000 = frame_at (kmem preempt_demo) 0x3000 \<and> first_free_block s2 = first_free_block preempt_demo"
proof -
  obtain s1 where s1: "timer_handler preempt_demo 0x3000 = Inr s1" "curr_pid s1 = 3"
      "runqueues s1 = [0] # [2, 3] # replicate 13 [] @ [[1]]"
    using timer_returns [OF preempt_demo_fields(1) _ preempt_demo_select [of _ 3 2, folded preempt_demo_fields(4)], of "0x3000"]
    by (force simp: preempt_demo_fields)
  note nk = preempt_demo_fields(1) and t = timer_switches [OF s1(1) preempt_demo_fields(1)]
  have p1: "length (processes s1) = 128" "proc_state (processes s1 ! Suc 0) = Waiting"
      "proc_state (processes s1 ! 2) = Runnable" "regs_at (ctx (processes s1 ! 3)) = 0x2000"
    by (simp_all add: t(1) preempt_demo_fields)
  obtain s2 where s2: "timer_handler s1 0x3000 = Inr s2" "curr_pid s2 = 2"
    using timer_returns [OF t(8) _ preempt_demo_select [of _ 2 3, folded s1(3)], of "0x3000"] p1 s1(2)
    by force
  have "frame_at (kmem s2) 0x3000 = frame_at (kmem preempt_demo) 0x3000 \<and>
    first_free_block s2 = first_free_block preempt_demo \<and> unallocated_mem s2 = unallocated_mem preempt_demo \<and>
    current_directory s2 = page_dir (ctx (current preempt_demo)) \<and> \<not> in_kernel s2"
    by (rule preempted_process_resumes [OF nk s1(1) _ t(8) s2(1)])
      (simp_all add: s1(2) s2(2) p1 preempt_demo_fields switch_layout_def inside_def apart_def)
  with s1 s2 show ?thesis by blast
qed

end
