(* ===== verification/Syscall_Props.thy ===== *)
theory Syscall_Props
  imports Switch_Props
begin

text \<open>
  The system calls as a whole: what the kernel does between two instructions of a process is a
  step relation, and the invariant of the process table is kept along every sequence of steps.
\<close>

subsection \<open>The remaining calls\<close>

text \<open>
  What the calls on files and the interrupts that arrive in a halted processor must respect:
  they work for the current process and leave a correct table.
\<close>

definition env_keeps :: "'z kernel_scheme environment \<Rightarrow> bool" where
  "env_keeps env \<longleftrightarrow>
     (\<forall>r s s'. table_ok s \<and> file_call env r s = Inr s' \<longrightarrow> table_ok s' \<and> curr_pid s' = curr_pid s) \<and>
     (\<forall>irq \<in> set (interrupts env). \<forall>s s'. table_ok s \<and> irq s = Inr s' \<longrightarrow> table_ok s' \<and> curr_pid s' = curr_pid s)"

lemma table_ok_call: "table_ok s' \<Longrightarrow> curr_pid s' = curr_pid s \<Longrightarrow> call_ok s s'"
  by (simp add: table_ok_def call_ok_def)

lemma table_ok_cong:
  "processes s' = processes s \<Longrightarrow> runqueues s' = runqueues s \<Longrightarrow> curr_pid s' = curr_pid s \<Longrightarrow> table_ok s' \<longleftrightarrow> table_ok s"
  by (simp add: table_ok_def)

lemma printf_keeps: "table_ok s \<Longrightarrow> syscall_printf s = Inr s' \<Longrightarrow> call_ok s s'"
  by (auto simp: syscall_printf_def Let_def bindE_eq_Inr table_ok_def call_ok_def)

lemma hlt_loop_keeps:
  assumes "\<forall>irq \<in> set irqs. \<forall>s s'. table_ok s \<and> irq s = Inr s' \<longrightarrow> table_ok s' \<and> curr_pid s' = curr_pid s"
    "table_ok s" "hlt_loop s irqs = Inr s'"
  shows "table_ok s' \<and> curr_pid s' = curr_pid s"
  using assms
proof (induction irqs arbitrary: s)
  case (Cons irq irqs)
  from Cons.prems(3) obtain s1 where s1: "irq s = Inr s1" and s': "(if \<not> should_cycle s1 \<or> run_executed s1
      then Inr (s1\<lparr>should_cycle := True, run_executed := False\<rparr>) else hlt_loop (s1\<lparr>should_cycle := False\<rparr>) irqs) = Inr s'"
    by (auto simp: bindE_eq_Inr)
  have 1: "table_ok s1" "curr_pid s1 = curr_pid s" using Cons.prems(1,2) s1 by (meson list.set_intros(1))+
  have cong: "table_ok (s1\<lparr>should_cycle := b\<rparr>)" "table_ok (s1\<lparr>should_cycle := b, run_executed := c\<rparr>)" for b c
    using 1(1) by (simp_all add: table_ok_def)
  have "\<forall>irq \<in> set irqs. \<forall>s s'. table_ok s \<and> irq s = Inr s' \<longrightarrow> table_ok s' \<and> curr_pid s' = curr_pid s"
    using Cons.prems(1) by (meson list.set_intros(2))
  note IH = Cons.IH [OF this cong(1) [of False]]
  show ?case
  proof (cases "\<not> should_cycle s1 \<or> run_executed s1")
    case True
    then have "s' = s1\<lparr>should_cycle := True, run_executed := False\<rparr>" using s' by simp
    then show ?thesis using 1(2) cong(2) [of False True] by simp
  next
    case False
    then show ?thesis using IH s' 1(2) by simp
  qed
qed simp

context kernel_frame
begin

lemma syscall_keeps:
  assumes "table_ok s" "env_keeps env" "syscall env A s sc = Inr s'"
  shows "call_ok s s'"
proof -
  have hlt: "call_ok s s'" if "syscall_hlt s (interrupts env) = Inr s'"
  proof -
    have "table_ok (s\<lparr>should_cycle := False\<rparr>)" using assms(1) by (simp add: table_ok_def)
    from hlt_loop_keeps [OF assms(2) [unfolded env_keeps_def, THEN conjunct2] this] show ?thesis
      using that by (simp add: syscall_hlt_def table_ok_call)
  qed
  have files: "call_ok s s'" if "file_call env r s = Inr s'" for r
    using that assms(1) assms(2) [unfolded env_keeps_def, THEN conjunct1] table_ok_call by blast
  show ?thesis
    using assms(1,3) exit_keeps fork_keeps wait_keeps printf_keeps malloc_keeps free_keeps hlt files
    by (auto simp: syscall_def split: if_splits option.splits syscall_routine.splits)
qed

end

subsection \<open>Steps of the kernel\<close>

text \<open>
  A timer interrupt, a system call, or instructions of the current process that change memory.
\<close>

inductive kernel_step ::
  "'z kernel_scheme environment \<Rightarrow> 'z kernel_scheme allocator \<Rightarrow> 'z kernel_scheme \<Rightarrow> 'z kernel_scheme \<Rightarrow> bool"
  for env A
where
  timer: "timer_handler s regs = Inr s' \<Longrightarrow> kernel_step env A s s'"
| call: "syscall_handler env A s regs = Inr s' \<Longrightarrow> kernel_step env A s s'"
| user: "s' = set_mem s m \<Longrightarrow> kernel_step env A s s'"

inductive_cases kernel_stepE: "kernel_step env A s s'"

text \<open>Between steps the table is correct, and the process that runs is runnable unless none is.\<close>

definition kernel_inv :: "'z kernel_scheme \<Rightarrow> bool" where
  "kernel_inv s \<longleftrightarrow> table_ok s \<and>
     (runnable (processes s) (curr_pid s) \<or> (\<forall>q \<in> set (runqueues s). \<forall>p \<in> set q. \<not> runnable (processes s) p))"

lemma select_inv:
  assumes "scheduled s" "unat (curr_pid s) < 128"
    "proc_state (current s) \<noteq> Free \<or> (\<exists>i < 128. proc_state (processes s ! i) = Runnable)"
    "select_new_process s = Inr s'"
  shows "kernel_inv s'"
proof (cases "\<exists>q \<in> set (runqueues s). \<exists>p \<in> set q. runnable (processes s) p")
  case True
  have r: "runnable (processes s') (curr_pid s')" by (rule select_runnable [OF assms(1,4) True])
  have "unat (curr_pid s') < 128"
    using select_top_valid [OF assms(1,4) True] .
  with r show ?thesis
    using select_keeps [OF assms(1,4)] by (auto simp: kernel_inv_def table_ok_def runnable_def)
next
  case False
  then have "proc_state (current s) \<noteq> Free" using assms(3) queued_runnable [OF assms(1)] by blast
  moreover have "runqueues s' = runqueues s \<and> curr_pid s' = curr_pid s \<and> processes s' = processes s"
    using select_loop_none [OF queued_queues_ok [OF assms(1)]] False assms(4) by (auto simp: select_new_process_def)
  ultimately show ?thesis using False assms(1,2) by (auto simp: kernel_inv_def table_ok_def)
qed

lemma kernel_inv_cong:
  "processes s' = processes s \<Longrightarrow> runqueues s' = runqueues s \<Longrightarrow> curr_pid s' = curr_pid s \<Longrightarrow> kernel_inv s' \<longleftrightarrow> kernel_inv s"
  by (simp add: kernel_inv_def table_ok_def)

lemma SWITCH_BEFORE_table: "table_ok s \<Longrightarrow> SWITCH_BEFORE s regs = Inr s' \<Longrightarrow> table_ok s'"
  using SWITCH_BEFORE_keeps [of s regs s'] SWITCH_BEFORE_state [of s regs s'] by (simp add: table_ok_def)

lemma timer_inv:
  assumes "kernel_inv s" "timer_handler s regs = Inr s'"
  shows "kernel_inv s'"
proof (cases "in_kernel s")
  case True
  then show ?thesis using assms kernel_inv_cong [of s' s] by (auto simp: timer_handler_def)
next
  case False
  then obtain s1 s2 where s1: "SWITCH_BEFORE s regs = Inr s1" and s2: "select_new_process s1 = Inr s2"
    and s': "SWITCH_AFTER s2 regs = Inr s'"
    using assms(2) by (auto simp: timer_handler_def bindE_eq_Inr)
  have "table_ok s1" using SWITCH_BEFORE_table [OF _ s1] assms(1) by (simp add: kernel_inv_def)
  then have "kernel_inv s2" using select_inv [OF _ _ _ s2] by (auto simp: table_ok_def)
  then show ?thesis using kernel_inv_cong [of s' s2] SWITCH_AFTER_keeps [OF s'] by simp
qed

lemma user_inv: "kernel_inv s \<Longrightarrow> s' = set_mem s m \<Longrightarrow> kernel_inv s'"
  using kernel_inv_cong [of "set_mem s m" s] kernel_fields_more [OF set_mem_fields(14) [of s m]] by simp

context kernel_frame
begin

lemma call_inv:
  assumes "kernel_inv s" "env_keeps env" "syscall_handler env A s regs = Inr s'"
  shows "kernel_inv s'"
proof -
  obtain s1 s2 s3 p where s1: "SWITCH_BEFORE s regs = Inr s1" and s2: "syscall env A s1 (get_reg s1 regs Eax) = Inr s2"
    and p: "get_proc s2 (curr_pid s2) = Inr p" and s': "SWITCH_AFTER s3 regs = Inr s'"
    and s3: "(if should_cycle s2 \<or> proc_state p \<noteq> Runnable
        then bindE (select_new_process s2) (\<lambda>s. Inr (s\<lparr>should_cycle := False\<rparr>)) else Inr s2) = Inr s3"
    using assms(3) by (cases "in_kernel s") (simp_all only: syscall_handler_def if_True if_False bindE_eq_Inr sum.distinct, blast)
  have 1: "table_ok s1" using SWITCH_BEFORE_table [OF _ s1] assms(1) by (simp add: kernel_inv_def)
  have 2: "call_ok s1 s2" by (rule syscall_keeps [OF 1 assms(2) s2])
  have "kernel_inv s3"
  proof (cases "should_cycle s2 \<or> proc_state p \<noteq> Runnable")
    case True
    then obtain s4 where s4: "select_new_process s2 = Inr s4" "s3 = s4\<lparr>should_cycle := False\<rparr>"
      using s3 by (auto simp: bindE_eq_Inr)
    then show ?thesis
      using select_inv [OF _ _ _ s4(1)] 1 2 kernel_inv_cong [of s3 s4] by (auto simp: call_ok_def table_ok_def)
  next
    case False
    then show ?thesis
      using s3 p 1 2 by (auto simp: kernel_inv_def table_ok_def call_ok_def runnable_def get_proc_Inr)
  qed
  then show ?thesis using kernel_inv_cong [of s' s3] SWITCH_AFTER_keeps [OF s'] by simp
qed

lemma step_inv: "kernel_step env A s s' \<Longrightarrow> env_keeps env \<Longrightarrow> kernel_inv s \<Longrightarrow> kernel_inv s'"
  using timer_inv call_inv user_inv by (elim kernel_stepE) blast+

lemma steps_inv: "(kernel_step env A)\<^sup>*\<^sup>* s s' \<Longrightarrow> env_keeps env \<Longrightarrow> kernel_inv s \<Longrightarrow> kernel_inv s'"
  by (induction rule: rtranclp_induct) (blast intro: step_inv)+

end

interpretation kernel_calls: kernel_frame "malloc_allocator (pager_at n) :: 'z kernel_scheme allocator" for n
  by (rule kernel_frame.intro) (rule kernel_allocator.allocator_frame_axioms)

text \<open>Along every sequence of timer interrupts, system calls and user instructions, with the kernel's own
  allocator below, every process that is not free stays queued exactly once, in the runqueue of
  its priority, and nothing else is queued; the current process exists; and it is runnable
  unless no process at all is.  The calls on files and the interrupts that wake a halted
  processor are assumed to keep a correct table.\<close>
theorem kernel_steps_keep_table:
  assumes "env_keeps env" "kernel_inv s" "(kernel_step env (malloc_allocator (pager_at n)))\<^sup>*\<^sup>* s s'"
  shows "kernel_inv s'"
  by (rule kernel_calls.steps_inv [OF assms(3,1,2)])

lemma preempt_demo_states:
  assumes "i < 128"
  shows "proc_state (processes preempt_demo ! i) = (if i = 1 then Waiting else if i < 4 then Runnable else Free)"
    "prio (processes preempt_demo ! i) = (if i = 1 then 15 else if i = 2 \<or> i = 3 then 1 else 0)"
proof -
  have "i = 0 \<or> i = 1 \<or> i = 2 \<or> i = 3 \<or> 4 \<le> i" by auto
  then show "proc_state (processes preempt_demo ! i) = (if i = 1 then Waiting else if i < 4 then Runnable else Free)"
    "prio (processes preempt_demo ! i) = (if i = 1 then 15 else if i = 2 \<or> i = 3 then 1 else 0)"
    using assms by (auto simp: preempt_demo_def demo_kernel_def free_process_def nth_append nth_Cons nth_list_update split: nat.splits)
qed

lemma preempt_demo_queues:
  assumes "k < 16"
  shows "runqueues preempt_demo ! k = (if k = 0 then [0] else if k = 1 then [3, 2] else if k = 15 then [1] else [])"
  using assms unfolding preempt_demo_fields(4) by (auto simp: nth_append nth_Cons split: nat.splits)

lemma preempt_demo_inv: "kernel_inv preempt_demo"
proof -
  have "queued (processes preempt_demo) (runqueues preempt_demo)"
    unfolding queued_def
  proof (intro conjI allI impI)
    fix k :: nat and p assume k: "k < 16"
    show "(p \<in> set (runqueues preempt_demo ! k)) = (unat p < 128 \<and> proc_state (processes preempt_demo ! unat p) \<noteq> Free \<and>
        prio (processes preempt_demo ! unat p) = int k)"
      using k by (auto simp: preempt_demo_queues preempt_demo_states u32_eq_iff_unat split: if_splits)
  qed (auto simp: preempt_demo_queues preempt_demo_states preempt_demo_fields(3), simp add: preempt_demo_fields(4))
  then show ?thesis by (simp add: kernel_inv_def table_ok_def runnable_def preempt_demo_fields)
qed

definition quiet_environment :: "kernel environment" where
  "quiet_environment = \<lparr>file_call = (\<lambda>_ s. Inr s), interrupts = [\<lambda>s. timer_handler (s\<lparr>in_kernel := True\<rparr>) 0]\<rparr>"

lemma quiet_environment_keeps: "env_keeps quiet_environment"
  by (auto simp: env_keeps_def quiet_environment_def timer_handler_def table_ok_def)

theorem kernel_steps_keep_table_witness:
  "\<exists>s'. kernel_step quiet_environment (malloc_allocator (pager_at 3)) preempt_demo s' \<and> curr_pid s' = 3 \<and> kernel_inv s'"
proof -
  obtain s1 where s1: "timer_handler preempt_demo 0x3000 = Inr s1" "curr_pid s1 = 3"
    using timer_returns [OF preempt_demo_fields(1) _ preempt_demo_select [of _ 3 2, folded preempt_demo_fields(4)], of "0x3000"]
    by (force simp: preempt_demo_fields)
  have step: "kernel_step quiet_environment (malloc_allocator (pager_at 3)) preempt_demo s1" using s1(1) by (rule timer)
  from kernel_steps_keep_table [OF quiet_environment_keeps preempt_demo_inv r_into_rtranclp [of "kernel_step quiet_environment (malloc_allocator (pager_at 3))", OF step]]
  show ?thesis using step s1 by blast
qed

subsection \<open>Waiting\<close>

lemma find_zombie_none:
  assumes "\<forall>j. i \<le> j \<and> j < i + n \<and> parent_id (procs ! j) = parent \<longrightarrow> proc_state (procs ! j) \<noteq> Zombie"
  shows "find_zombie procs parent i n b = (None, b \<or> (\<exists>j. i \<le> j \<and> j < i + n \<and> parent_id (procs ! j) = parent))"
  using assms
proof (induction n arbitrary: i b)
  case (Suc n)
  have ex: "(\<exists>j. i \<le> j \<and> j < i + Suc n \<and> P j) \<longleftrightarrow> P i \<or> (\<exists>j. i + 1 \<le> j \<and> j < i + 1 + n \<and> P j)" for P
    by (metis Suc_eq_plus1 add_Suc_right add_Suc_shift le_eq_less_or_eq less_add_Suc1 less_eq_Suc_le)
  show ?case using Suc.IH [of "i + 1"] Suc.prems unfolding ex by (auto simp: less_eq_Suc_le)
qed auto

text \<open>C35: A process whose children have all been reaped still has their free entries in the table, with its own
  identifier as parent.  \<^verbatim>\<open>syscall_wait\<close> takes them for children: the process is put to sleep and
  nothing is returned to it, although it has no child that could ever wake it up.\<close>
theorem wait_for_reaped_child_sleeps:
  assumes "get_proc s (curr_pid s) = Inr p" "length (processes s) = 128"
    "i < 128" "parent_id (processes s ! i) = curr_pid s" "i \<noteq> unat (curr_pid s)"
    "\<forall>j < 128. parent_id (processes s ! j) = curr_pid s \<longrightarrow> proc_state (processes s ! j) = Free"
  shows "syscall_wait A s = Inr (set_proc s (curr_pid s) (p\<lparr>proc_state := Waiting\<rparr>))"
proof -
  let ?s = "set_proc s (curr_pid s) (p\<lparr>proc_state := Waiting\<rparr>)"
  have p: "unat (curr_pid s) < 128" "p = current s" using assms(1,2) by (auto simp: get_proc_Inr)
  have "\<forall>j. 0 \<le> j \<and> j < 0 + 128 \<and> parent_id (processes ?s ! j) = curr_pid s \<longrightarrow> proc_state (processes ?s ! j) \<noteq> Zombie"
    using assms(6) p assms(2) by (auto simp: nth_list_update)
  moreover have "parent_id (processes ?s ! i) = curr_pid s" using assms(4,5) by simp
  ultimately have "find_zombie (processes ?s) (curr_pid ?s) 0 128 False = (None, True)"
    using assms(3) by (subst find_zombie_none) auto
  then show ?thesis using assms(1,2) by (simp add: syscall_wait_def Let_def)
qed

definition childless_demo :: kernel where
  "childless_demo = demo_kernel\<lparr>curr_pid := 2, processes := (processes demo_kernel)[4 := free_process\<lparr>parent_id := 2\<rparr>]\<rparr>"

theorem wait_for_reaped_child_sleeps_witness:
  "syscall_wait (malloc_allocator (pager_at 3)) childless_demo =
     Inr (set_proc childless_demo 2 ((processes childless_demo ! 2)\<lparr>proc_state := Waiting\<rparr>))"
proof -
  have f: "curr_pid childless_demo = 2" "length (processes childless_demo) = 128"
    "parent_id (processes childless_demo ! 4) = 2"
    by (simp_all add: childless_demo_def demo_kernel_def)
  have "proc_state (processes childless_demo ! j) = Free" if "j < 128" "parent_id (processes childless_demo ! j) = 2" for j
  proof -
    have "j = 0 \<or> j = 1 \<or> j = 2 \<or> j = 3 \<or> j = 4 \<or> 5 \<le> j" by auto
    then show ?thesis
      using that by (auto simp: childless_demo_def demo_kernel_def free_process_def nth_append nth_Cons nth_list_update split: nat.splits)
  qed
  then show ?thesis
    using wait_for_reaped_child_sleeps [of childless_demo "processes childless_demo ! 2" 4] f by (simp add: get_proc_def)
qed

subsection \<open>Halting\<close>

text \<open>C36: \<^verbatim>\<open>syscall_hlt\<close> sleeps through any number of timer interrupts and returns after the first interrupt of
  another kind, or the first one that started a program, with a request to choose another
  process; with timer interrupts only it never returns.\<close>
theorem hlt_sleeps_through_timer:
  assumes "in_kernel s" "\<not> run_executed s" "irq (s\<lparr>should_cycle := False\<rparr>) = Inr s1" "\<not> should_cycle s1 \<or> run_executed s1"
  shows "syscall_hlt s (replicate k (\<lambda>s. timer_handler s regs) @ irq # irqs) = Inr (s1\<lparr>should_cycle := True, run_executed := False\<rparr>)
    \<and> syscall_hlt s (replicate k (\<lambda>s. timer_handler s regs)) = Inl Hang"
proof -
  let ?s = "s\<lparr>should_cycle := False\<rparr>"
  have "hlt_loop ?s (replicate k (\<lambda>s. timer_handler s regs) @ irqs') = hlt_loop ?s irqs'" for irqs'
    using assms(1,2) by (induction k) (simp_all add: timer_handler_def)
  from this [of "irq # irqs"] this [of "[]"] show ?thesis using assms(3,4) by (simp add: syscall_hlt_def)
qed

theorem hlt_sleeps_through_timer_witness:
  "syscall_hlt (boot_state\<lparr>in_kernel := True\<rparr>) (replicate 5 (\<lambda>s. timer_handler s 0) @ [Inr]) =
     Inr (boot_state\<lparr>in_kernel := True, should_cycle := True\<rparr>)"
  using hlt_sleeps_through_timer [of "boot_state\<lparr>in_kernel := True\<rparr>" Inr "boot_state\<lparr>in_kernel := True\<rparr>" 5 0 "[]"]
  by (simp add: boot_state_def)

subsection \<open>Numbers and priorities that are refused, or not\<close>

lemma syscall_numbers:
  "21 \<le> sc \<Longrightarrow> syscall env A s sc = Inl (Throw ''Invalid syscall!'')"
  "sc \<in> {6, 7, 8, 9, 10, 12, 13, 14} \<Longrightarrow> syscall env A s sc = Inl NullCall"
  by (auto simp: syscall_def syscall_table_def)

text \<open>A stronger priority is refused; a negative one is not, and indexes the array of runqueues.\<close>

lemma fork_stronger_refused:
  assumes "get_proc s (curr_pid s) = Inr p" "sint (get_reg s (regs_at (ctx p)) Ebx) > prio p"
  shows "syscall_fork A s = Inr (set_reg s (regs_at (ctx p)) Eax 0)"
  using assms by (simp add: syscall_fork_def Let_def)

lemma fork_negative_faults:
  assumes "get_proc s (curr_pid s) = Inr p" "sint (get_reg s (regs_at (ctx p)) Ebx) < 0" "0 \<le> prio p"
    "find_free (processes s) 0 128 < 128" "syscall_fork A s = r"
  shows "\<exists>e. r = Inl e"
  using assms by (cases r) (auto simp: syscall_fork_def enqueue_at_def Let_def bindE_eq_Inr)

end
