(* ===== verification/Keyboard.thy ===== *)
theory Keyboard
  imports Syscall
begin

text \<open>
  \<^verbatim>\<open>keyboard.c\<close>: the scancode table, the state of the modifier keys, and the two interrupt
  handlers, the plain one that writes to the screen and the one that feeds the shell.  The
  scancode is what port \<open>0x60\<close> returns and \<open>status\<close> are the successive values of port \<open>0x64\<close>.
\<close>

subsection \<open>Characters\<close>

definition kbdus :: "u8 list" where
  "kbdus =
    [0, 19, 38, 130, 34, 39, 40, 45, 138, 95, 135, 133, 41, 61, 8, 9,
     97, 122, 101, 114, 116, 121, 117, 105, 111, 112, 94, 36, 10, 0, 113, 115,
     100, 102, 103, 104, 106, 107, 108, 109, 151, 253, 0, 42, 119, 120, 99, 118,
     98, 110, 44, 59, 58, 33, 0, 42, 0, 32, 0, 70, 70, 70, 70, 70,
     70, 70, 70, 70, 70, 0, 0, 0, 0, 24, 45, 0, 234, 0, 43, 0,
     0, 25, 73, 127, 234, 234, 60, 70, 70, 234, 234, 5, 234, 219, 234, 234,
     234, 234, 234, 234, 234, 234, 234, 234, 234, 234, 234, 234, 234, 234, 234, 234,
     234, 234, 234, 234, 234, 234, 234, 234, 234, 234, 234, 234, 234, 234, 234, 234,
     0, 27, 49, 50, 51, 52, 53, 54, 55, 56, 57, 48, 0, 43, 8, 9,
     65, 90, 69, 82, 84, 89, 85, 73, 79, 80, 137, 156, 10, 0, 81, 83,
     68, 70, 71, 72, 74, 75, 76, 77, 37, 234, 0, 230, 87, 88, 67, 86,
     66, 78, 63, 46, 47, 21, 0, 234, 0, 32, 0, 70, 70, 70, 70, 70,
     70, 70, 70, 70, 72, 0, 0, 0, 0, 24, 45, 0, 63, 0, 43, 0,
     0, 25, 73, 127, 63, 63, 62, 70, 70, 234, 234, 5, 234, 219, 234, 234,
     234, 234, 234, 234, 234, 234, 234, 234, 234, 234, 234, 234, 234, 234, 234, 234,
     234, 234, 234, 234, 234, 234, 234, 234, 234, 234, 234, 234, 234, 234, 234, 234]"

definition kbd_char :: "keyboard \<Rightarrow> u8 \<Rightarrow> u8 result" where
  "kbd_char k scancode =
     (let i = unat scancode + unat (k_shift k) * 128
      in if i < length kbdus then Inr (kbdus ! i) else Inl OutOfBounds)"

text \<open>The accented characters, in UTF-8, that a dead key makes of the next character.\<close>

definition hat_table :: "(u8 \<times> bytes) list" where
  "hat_table = [(97, [0xC3, 0xA2]), (101, [0xC3, 0xAA]), (105, [0xC3, 0xAE]), (111, [0xC3, 0xB4]), (117, [0xC3, 0xBB])]"

definition trema_table :: "(u8 \<times> bytes) list" where
  "trema_table = [(97, [0xC3, 0xA4]), (101, [0xC3, 0xAB]), (105, [0xC3, 0xAF]), (111, [0xC3, 0xB6]),
     (117, [0xC3, 0xBC]), (121, [0xC3, 0xBF]), (65, [0xC3, 0x84]), (79, [0xC3, 0x96]), (85, [0xC3, 0x9C])]"

definition dead_key_text :: "keyboard \<Rightarrow> u8 \<Rightarrow> bytes option" where
  "dead_key_text k c =
     (if k_dead_hat k then map_of hat_table c else if k_dead_trema k then map_of trema_table c else None)"

definition clear_dead_keys :: "keyboard \<Rightarrow> keyboard" where
  "clear_dead_keys k = k\<lparr>k_dead_hat := False, k_dead_trema := False\<rparr>"

subsection \<open>Modifier keys\<close>

definition key_released :: "keyboard \<Rightarrow> u8 \<Rightarrow> keyboard" where
  "key_released k key =
     (if key = 29 then k\<lparr>k_ctrl := k_ctrl k - 1\<rparr>
      else if key = 42 \<or> key = 54 then
        let n = k_shift_count k - 1
        in k\<lparr>k_shift_count := n, k_shift := drop_bit 2 (k_lights k AND 0x04) XOR n\<rparr>
      else if key = 56 then k\<lparr>k_meta := k_meta k - 1\<rparr>
      else k)"

definition modifier_pressed :: "keyboard \<Rightarrow> u8 \<Rightarrow> keyboard" where
  "modifier_pressed k key =
     (if key = 29 then k\<lparr>k_ctrl := k_ctrl k + 1\<rparr>
      else if key = 42 \<or> key = 54 then
        k\<lparr>k_shift_count := k_shift_count k + 1, k_shift := drop_bit 2 ((k_lights k AND 0x04) XOR 0x04)\<rparr>
      else if key = 56 then k\<lparr>k_meta := k_meta k + 1\<rparr>
      else k)"

definition lock_pressed :: "keyboard \<Rightarrow> u8 \<Rightarrow> keyboard" where
  "lock_pressed k key =
     (if key = 58 then k\<lparr>k_lights := k_lights k XOR 0x04, k_shift := (if k_shift k = 0 then 1 else 0)\<rparr>
      else if key = 69 then k\<lparr>k_lights := k_lights k XOR 0x02\<rparr>
      else if key = 70 then k\<lparr>k_lights := k_lights k XOR 0x01\<rparr>
      else k)"

text \<open>The circumflex key; the flag says whether the character itself is to be written.\<close>

definition dead_key_pressed :: "keyboard \<Rightarrow> bool \<times> keyboard" where
  "dead_key_pressed k =
     (if k_shift k \<noteq> 0 then (False, k\<lparr>k_dead_hat := False, k_dead_trema := True\<rparr>)
      else if k_dead_hat k then (True, k\<lparr>k_dead_hat := False\<rparr>)
      else (False, k\<lparr>k_dead_hat := True\<rparr>))"

fun wait_idle :: "u8 list \<Rightarrow> unit result" where
  "wait_idle [] = Inl Hang"
| "wait_idle (v # status) = (if v AND 2 = 0 then Inr () else wait_idle status)"

definition keyboard_set_lights :: "u8 list \<Rightarrow> descriptors \<Rightarrow> u8 \<Rightarrow> descriptors result" where
  "keyboard_set_lights status d signal =
     bindE (wait_idle status) (\<lambda>_. Inr (outb (outb d 0x60 0xED) 0x60 signal))"

text \<open>Pressing a lock key, with the lights.\<close>

definition lock_key :: "u8 list \<Rightarrow> 'z kernel_scheme \<Rightarrow> u8 \<Rightarrow> 'z kernel_scheme result" where
  "lock_key status s key =
     (let k = lock_pressed (kbd s) key
      in bindE (keyboard_set_lights status (desc s) (k_lights k)) (\<lambda>d. Inr (s\<lparr>kbd := k, desc := d\<rparr>)))"

subsection \<open>The plain handler\<close>

text \<open>Cursor positions are computed with \<^verbatim>\<open>int\<close>s, where \<^verbatim>\<open>%\<close> rounds towards zero, and cut off to 16 bits.\<close>

definition screen_mod :: "int \<Rightarrow> u16" where
  "screen_mod n = word_of_int (if n < 0 then - ((- n) mod 2000) else n mod 2000)"

definition cursor_key :: "u8 \<Rightarrow> screen \<Rightarrow> screen" where
  "cursor_key key c =
     (let (p, c) = get_cursor_pos c
      in if key = 71 then set_cursor_pos c (80 * (p div 80))
         else if key = 72 then set_cursor_pos c (screen_mod (uint p - 80))
         else if key = 75 then set_cursor_pos c (screen_mod (uint p - 1))
         else if key = 77 then set_cursor_pos c (screen_mod (uint p + 1))
         else if key = 79 then set_cursor_pos c (80 * (p div 80 + 1) - 1)
         else set_cursor_pos c (screen_mod (uint p + 80)))"

definition keyboard_handler :: "u8 list \<Rightarrow> u8 \<Rightarrow> 'z kernel_scheme \<Rightarrow> 'z kernel_scheme result" where
  "keyboard_handler status scancode s =
     (let k = kbd s
      in if scancode AND 0x80 \<noteq> 0 then Inr (s\<lparr>kbd := key_released k (scancode XOR 0x80)\<rparr>)
         else if scancode = 26 then
           (case dead_key_pressed k of (w, k) \<Rightarrow>
              Inr (s\<lparr>kbd := k, scr := (if w then write_char (scr s) 94 else scr s)\<rparr>))
         else if scancode \<in> {29, 42, 54, 56} then Inr (s\<lparr>kbd := modifier_pressed k scancode\<rparr>)
         else if scancode = 58 then Inr (s\<lparr>kbd := lock_pressed k 58\<rparr>)
         else if scancode \<in> {69, 70} then lock_key status s scancode
         else if scancode \<in> {71, 72, 75, 77, 79, 80} then Inr (s\<lparr>scr := cursor_key scancode (scr s)\<rparr>)
         else bindE (kbd_char k scancode) (\<lambda>c.
              bindE (case dead_key_text k c of Some t \<Rightarrow> write_string (scr s) t | None \<Rightarrow> Inr (write_char (scr s) c)) (\<lambda>screen.
                Inr (s\<lparr>scr := screen, kbd := clear_dead_keys k\<rparr>))))"

subsection \<open>The handler of the shell\<close>

text \<open>
  The functions behind the pointers of the registered commands; \<open>F\<close> stands for the five that
  work on the file system and \<open>load\<close> for \<^verbatim>\<open>load_code\<close>.
\<close>

definition command_handler ::
  "'z kernel_scheme allocator \<Rightarrow> (bytes \<Rightarrow> proc_context \<Rightarrow> 'z kernel_scheme \<Rightarrow> (bool \<times> 'z kernel_scheme) result)
     \<Rightarrow> (handler \<Rightarrow> bytes list \<Rightarrow> 'z kernel_scheme \<Rightarrow> 'z kernel_scheme result)
     \<Rightarrow> handler \<Rightarrow> bytes list \<Rightarrow> 'z kernel_scheme \<Rightarrow> 'z kernel_scheme result"
where
  "command_handler A load F h args s =
     (case h of Help \<Rightarrow> help_handler args s | Echo \<Rightarrow> echo_handler args s | Splash \<Rightarrow> splash_screen args s
      | Ascii \<Rightarrow> display_ascii args s | Run \<Rightarrow> run_handler A load args s | _ \<Rightarrow> F h args s)"

text \<open>
  While a program started by the shell runs, keys only change the modifiers, and control-C
  kills the program that was started last.
\<close>

definition running_key ::
  "'z kernel_scheme allocator \<Rightarrow> nat \<Rightarrow> u8 list \<Rightarrow> u8 \<Rightarrow> 'z kernel_scheme \<Rightarrow> 'z kernel_scheme result"
where
  "running_key A fuel status scancode s =
     bindE (if scancode AND 0x80 \<noteq> 0 then Inr (s\<lparr>kbd := key_released (kbd s) (scancode XOR 0x80)\<rparr>)
            else if scancode = 26 then Inr (s\<lparr>kbd := snd (dead_key_pressed (kbd s))\<rparr>)
            else if scancode \<in> {29, 42, 54, 56} then Inr (s\<lparr>kbd := modifier_pressed (kbd s) scancode\<rparr>)
            else if scancode \<in> {58, 69, 70} then lock_key status s scancode
            else Inr s) (\<lambda>s.
       if k_ctrl (kbd s) \<noteq> 0 \<and> scancode AND 0x80 = 0 then
         bindE (kbd_char (kbd s) scancode) (\<lambda>c.
           if c = 99 then
             case run_pid s of [] \<Rightarrow> Inl OutOfBounds
             | pid # pids \<Rightarrow>
                 bindE (print (s\<lparr>run_pid := pids\<rparr>) (ascii ''\<newline>%fProcess interrupted%f\<newline>'')
                   [Word_Arg LightRed, Word_Arg White]) (\<lambda>s. kill_family fuel A s pid)
           else Inr s)
       else Inr s)"

definition shell_key ::
  "(handler \<Rightarrow> bytes list \<Rightarrow> 'z kernel_scheme \<Rightarrow> 'z kernel_scheme result) \<Rightarrow> u8 list \<Rightarrow> u8
     \<Rightarrow> 'z kernel_scheme \<Rightarrow> 'z kernel_scheme result"
where
  "shell_key H status scancode s =
     (let k = kbd s
      in if scancode AND 0x80 \<noteq> 0 then Inr (s\<lparr>kbd := key_released k (scancode XOR 0x80)\<rparr>)
         else if scancode = 26 then
           (case dead_key_pressed k of (w, k) \<Rightarrow>
              bindE (if w then shell_write_char H s 94 else Inr s) (\<lambda>s. Inr (s\<lparr>kbd := k\<rparr>)))
         else if scancode \<in> {29, 42, 54, 56} then Inr (s\<lparr>kbd := modifier_pressed k scancode\<rparr>)
         else if scancode \<in> {58, 69, 70} then lock_key status s scancode
         else if scancode = 71 then Inr (shell_home s)
         else if scancode = 72 then shell_up s
         else if scancode = 75 then Inr (shell_left s)
         else if scancode = 77 then shell_right s
         else if scancode = 79 then Inr (shell_end s)
         else if scancode = 80 then shell_down s
         else bindE (kbd_char k scancode) (\<lambda>c.
              bindE (case dead_key_text k c of Some t \<Rightarrow> shell_write_string H s t | None \<Rightarrow> shell_write_char H s c) (\<lambda>s.
                Inr (s\<lparr>kbd := clear_dead_keys (kbd s)\<rparr>))))"

definition keyboard_shell_handler ::
  "(handler \<Rightarrow> bytes list \<Rightarrow> 'z kernel_scheme \<Rightarrow> 'z kernel_scheme result) \<Rightarrow> 'z kernel_scheme allocator \<Rightarrow> nat
     \<Rightarrow> u8 list \<Rightarrow> u8 \<Rightarrow> 'z kernel_scheme \<Rightarrow> 'z kernel_scheme result"
where
  "keyboard_shell_handler H A fuel status scancode s =
     (let temp = current_directory s; temp_um = unallocated_mem s; temp_ffb = first_free_block s;
          change_dir = (temp \<noteq> kernel_directory s);
          s = (if change_dir
               then switch_page_directory (s\<lparr>unallocated_mem := kernel_unallocated_mem s,
                      first_free_block := kernel_first_free_block s\<rparr>) (kernel_directory s)
               else s)
      in if run_pid s \<noteq> [] then
           bindE (running_key A fuel status scancode s) (\<lambda>s.
             Inr (if change_dir
                  then switch_page_directory (s\<lparr>kernel_unallocated_mem := unallocated_mem s,
                         kernel_first_free_block := first_free_block s, unallocated_mem := temp_um,
                         first_free_block := temp_ffb\<rparr>) temp
                  else s))
         else
           bindE (shell_key H status scancode s) (\<lambda>s.
             Inr (if change_dir
                  then (switch_page_directory s temp)\<lparr>kernel_unallocated_mem := unallocated_mem s,
                         kernel_first_free_block := first_free_block s, unallocated_mem := temp_um,
                         first_free_block := temp_ffb\<rparr>
                  else s)))"

definition keyboard_install :: "bool \<Rightarrow> descriptors \<Rightarrow> descriptors result" where
  "keyboard_install shell d = irq_install_handler d 1 (if shell then Keyboard_shell_handler else Keyboard_handler)"

end
