(* ===== verification/Keyboard_Props.thy ===== *)
theory Keyboard_Props
  imports Keyboard Syscall_Props
begin

text \<open>
  The state of the modifier keys follows the keys that are held, and every key finds its
  character in the table, as long as the keyboard does not repeat keys by itself; with
  repeated shift keys it does not.
\<close>

subsection \<open>What the shell leaves alone\<close>

lemma print_kbd: "print s f args = Inr s' \<Longrightarrow> kbd s' = kbd s"
  by (auto simp: print_def bindE_eq_Inr)

lemma set_pos_kbd [simp]: "kbd (set_pos s) = kbd s"
  by (simp add: set_pos_def)

lemma scroll_command_kbd [simp]: "kbd (scroll_command s) = kbd s"
  by (simp add: scroll_command_def)

lemma echo_command_kbd: "echo_command s = Inr s' \<Longrightarrow> kbd s' = kbd s"
  by (auto simp: echo_command_def Let_def bindE_eq_Inr split: if_splits)

lemma show_line_kbd: "show_line s i = Inr s' \<Longrightarrow> kbd s' = kbd s"
  by (auto simp: show_line_def Let_def bindE_eq_Inr dest!: echo_command_kbd)

lemma history_keys_kbd:
  "shell_up s = Inr s' \<Longrightarrow> kbd s' = kbd s" "shell_down s = Inr s' \<Longrightarrow> kbd s' = kbd s"
  "shell_right s = Inr s' \<Longrightarrow> kbd s' = kbd s"
  by (auto simp: shell_up_def shell_down_def shell_right_def bindE_eq_Inr dest: show_line_kbd split: if_splits)

lemma cursor_keys_kbd [simp]:
  "kbd (shell_home s) = kbd s" "kbd (shell_end s) = kbd s" "kbd (shell_left s) = kbd s"
  by (simp_all add: shell_home_def shell_end_def shell_left_def)

definition handlers_keep :: "(handler \<Rightarrow> bytes list \<Rightarrow> 'z kernel_scheme \<Rightarrow> 'z kernel_scheme result) \<Rightarrow> bool" where
  "handlers_keep H \<longleftrightarrow> (\<forall>h args s s'. H h args s = Inr s' \<longrightarrow> kbd s' = kbd s)"

lemma send_command_kbd:
  assumes "handlers_keep H" "send_command H s = Inr s'"
  shows "kbd s' = kbd s"
proof -
  obtain ws where "(case ws of [] \<Rightarrow> Inr s | w # args \<Rightarrow> (case find_command s w of Some cmd \<Rightarrow> H (cmd_handler cmd) args s
      | None \<Rightarrow> print s (ascii ''Unknown command: %f%s%f\<newline>'') [Word_Arg LightRed, Str_Arg w, Word_Arg White])) = Inr s'"
    using assms(2) unfolding send_command_def by (simp only: bindE_eq_Inr) blast
  then show ?thesis
    using assms(1) by (auto simp: handlers_keep_def dest: print_kbd split: list.splits option.splits)
qed

lemma shell_write_char_kbd:
  assumes "handlers_keep H" "shell_write_char H s c = Inr s'"
  shows "kbd s' = kbd s"
  using assms(2)
  by (auto simp: shell_write_char_def Let_def bindE_eq_Inr dest!: send_command_kbd [OF assms(1)] echo_command_kbd
      finalize_command_fields split: if_splits)

lemma shell_write_string_kbd:
  "handlers_keep H \<Longrightarrow> shell_write_string H s t = Inr s' \<Longrightarrow> kbd s' = kbd s"
  by (induction H s t rule: shell_write_string.induct) (auto simp: bindE_eq_Inr dest: shell_write_char_kbd split: if_splits)

context kernel_frame
begin

lemma kill_children_kbd:
  assumes "\<And>s p s'. kill_family n A s p = Inr s' \<Longrightarrow> kbd s' = kbd s"
  shows "kill_children n A s p c k = Inr s' \<Longrightarrow> kbd s' = kbd s"
proof (induction k arbitrary: s c)
  case (Suc k)
  then obtain q :: process and s1 where s1: "(if parent_id q = p then kill_family n A s c else Inr s) = Inr s1"
    and s': "kill_children n A s1 p (c + 1) k = Inr s'" by (auto simp: bindE_eq_Inr)
  from Suc.IH [OF s'] show ?case using s1 assms by (auto split: if_splits)
qed simp

lemma kill_family_kbd: "kill_family n A s p = Inr s' \<Longrightarrow> kbd s' = kbd s"
proof (induction n arbitrary: s p s')
  case (Suc n)
  then obtain s1 and q :: process where s1: "kill_children n A s p 0 128 = Inr s1" and s': "resolve_exit_wait A s1 (parent_id q) p = Inr s'"
    by (auto simp: bindE_eq_Inr)
  have "kbd s' = kbd s1" using resolve_result [OF s'] by simp
  then show ?case using kill_children_kbd [OF Suc.IH s1] by simp
qed simp

end

subsection \<open>The modifiers after a key\<close>

definition key_step :: "keyboard \<Rightarrow> u8 \<Rightarrow> keyboard" where
  "key_step k sc =
     (if sc AND 0x80 \<noteq> 0 then key_released k (sc XOR 0x80)
      else if sc \<in> {29, 42, 54, 56} then modifier_pressed k sc
      else if sc \<in> {58, 69, 70} then lock_pressed k sc else k)"

lemma clear_dead_keys_simps [simp]:
  "clear_dead_keys (clear_dead_keys k) = clear_dead_keys k"
  "clear_dead_keys (k\<lparr>k_dead_hat := b\<rparr>) = clear_dead_keys k" "clear_dead_keys (k\<lparr>k_dead_trema := b\<rparr>) = clear_dead_keys k"
  by (simp_all add: clear_dead_keys_def)

lemma dead_key_pressed_clear: "clear_dead_keys (snd (dead_key_pressed k)) = clear_dead_keys k"
  by (simp add: dead_key_pressed_def)

lemma lock_key_kbd: "lock_key st s sc = Inr s' \<Longrightarrow> kbd s' = lock_pressed (kbd s) sc"
  by (auto simp: lock_key_def Let_def bindE_eq_Inr)

lemma shell_key_step:
  assumes "handlers_keep H" "shell_key H st sc s = Inr s'"
  shows "clear_dead_keys (kbd s') = clear_dead_keys (key_step (kbd s) sc)"
proof (cases "sc AND 0x80 \<noteq> 0 \<or> sc \<in> {26, 29, 42, 54, 56, 58, 69, 70, 71, 72, 75, 77, 79, 80}")
  case True
  then consider (release) "sc AND 0x80 \<noteq> 0" | (dead) "sc = 26" | (modifier) "sc \<in> {29, 42, 54, 56}"
    | (lock) "sc \<in> {58, 69, 70}" | (cursor) "sc \<in> {71, 72, 75, 77, 79, 80}" by blast
  then show ?thesis
  proof cases
    case release
    then show ?thesis using assms(2) by (simp add: shell_key_def key_step_def Let_def) auto
  next
    case dead
    obtain w k where k: "dead_key_pressed (kbd s) = (w, k)" by fastforce
    then show ?thesis
      using assms(2) dead dead_key_pressed_clear [of "kbd s"]
      by (auto simp: shell_key_def key_step_def Let_def bindE_eq_Inr)
  next
    case modifier
    then show ?thesis using assms(2) by (elim insertE) (simp_all add: shell_key_def key_step_def Let_def, auto)
  next
    case lock
    then show ?thesis using assms(2) by (elim insertE) (simp_all add: shell_key_def key_step_def Let_def lock_key_kbd)
  next
    case cursor
    then show ?thesis
      using assms(2) by (elim insertE) (simp_all add: shell_key_def key_step_def Let_def history_keys_kbd, auto)
  qed
next
  case False
  then obtain c s1 where "(case dead_key_text (kbd s) c of Some t \<Rightarrow> shell_write_string H s t | None \<Rightarrow> shell_write_char H s c) = Inr s1"
    and s': "s' = s1\<lparr>kbd := clear_dead_keys (kbd s1)\<rparr>"
    using assms(2) by (auto simp: shell_key_def Let_def bindE_eq_Inr)
  then have "kbd s1 = kbd s"
    using shell_write_char_kbd [OF assms(1)] shell_write_string_kbd [OF assms(1)] by (auto split: option.splits)
  then show ?thesis using False s' by (simp add: key_step_def)
qed

context kernel_frame
begin

lemma running_key_step:
  assumes "running_key A n st sc s = Inr s'"
  shows "clear_dead_keys (kbd s') = clear_dead_keys (key_step (kbd s) sc)"
proof -
  obtain s1 where s1: "(if sc AND 0x80 \<noteq> 0 then Inr (s\<lparr>kbd := key_released (kbd s) (sc XOR 0x80)\<rparr>)
            else if sc = 26 then Inr (s\<lparr>kbd := snd (dead_key_pressed (kbd s))\<rparr>)
            else if sc \<in> {29, 42, 54, 56} then Inr (s\<lparr>kbd := modifier_pressed (kbd s) sc\<rparr>)
            else if sc \<in> {58, 69, 70} then lock_key st s sc else Inr s) = Inr s1"
    and rest: "s' = s1 \<or> (\<exists>p ps s2. print (s1\<lparr>run_pid := ps\<rparr>) (ascii ''\<newline>%fProcess interrupted%f\<newline>'')
        [Word_Arg LightRed, Word_Arg White] = Inr s2 \<and> kill_family n A s2 p = Inr s')"
    using assms unfolding running_key_def bindE_eq_Inr
    by (elim exE conjE) (rule that, assumption, auto simp: bindE_eq_Inr split: if_splits list.splits)
  have "kbd s' = kbd s1" using rest by (auto dest!: print_kbd kill_family_kbd)
  moreover have "clear_dead_keys (kbd s1) = clear_dead_keys (key_step (kbd s) sc)"
    using s1 dead_key_pressed_clear [of "kbd s"] by (auto simp: key_step_def lock_key_kbd split: if_splits)
  ultimately show ?thesis by simp
qed

lemma keyboard_shell_handler_step:
  assumes "handlers_keep H" "keyboard_shell_handler H A n st sc s = Inr s'"
  shows "clear_dead_keys (kbd s') = clear_dead_keys (key_step (kbd s) sc)"
proof -
  let ?change = "current_directory s \<noteq> kernel_directory s"
  define s0 where "s0 = (if ?change then switch_page_directory (s\<lparr>unallocated_mem := kernel_unallocated_mem s,
       first_free_block := kernel_first_free_block s\<rparr>) (kernel_directory s) else s)"
  have s0: "kbd s0 = kbd s" by (simp add: s0_def)
  obtain s1 where s1: "running_key A n st sc s0 = Inr s1 \<or> shell_key H st sc s0 = Inr s1" and s': "kbd s' = kbd s1"
    using assms(2) unfolding keyboard_shell_handler_def Let_def s0_def [symmetric]
    by (auto simp: bindE_eq_Inr split: if_splits) blast+
  show ?thesis using s1 running_key_step shell_key_step [OF assms(1)] s0 s' by auto
qed

end

subsection \<open>Keys that are held\<close>

definition caps_lock :: "keyboard \<Rightarrow> bool" where
  "caps_lock k \<longleftrightarrow> bit (k_lights k) 2"

definition modifiers_ok :: "u8 set \<Rightarrow> keyboard \<Rightarrow> bool" where
  "modifiers_ok held k \<longleftrightarrow>
     k_shift_count k = of_bool (42 \<in> held) + of_bool (54 \<in> held) \<and> k_ctrl k = of_bool (29 \<in> held) \<and>
     k_shift k = of_bool (caps_lock k \<noteq> (42 \<in> held \<or> 54 \<in> held))"

lemma u8_bits:
  fixes x y :: u8
  shows "(\<And>n. n < 8 \<Longrightarrow> bit x n = bit y n) \<Longrightarrow> x = y"
  by (rule bit_word_eqI) simp

lemma low_eight: "n < 8 \<Longrightarrow> n = 0 \<or> n = 1 \<or> n = 2 \<or> n = 3 \<or> n = 4 \<or> n = 5 \<or> n = 6 \<or> n = (7 :: nat)"
  by arith

lemma caps_bit:
  fixes l :: u8
  shows "drop_bit 2 l AND 1 = of_bool (bit l 2)" "bit (l XOR 4) 2 \<longleftrightarrow> \<not> bit l 2" "bit (l XOR 2) 2 \<longleftrightarrow> bit l 2"
    "bit (l XOR 1) 2 \<longleftrightarrow> bit l 2"
proof -
  show "drop_bit 2 l AND 1 = of_bool (bit l 2)"
    by (rule u8_bits) (auto simp: bit_simps numeral_2_eq_2 dest!: low_eight)
qed (simp_all add: bit_simps)

lemma scancode_bits:
  fixes c :: u8
  assumes "c < 128"
  shows "c AND 0x80 = 0" "(c OR 0x80) AND 0x80 \<noteq> 0" "(c OR 0x80) XOR 0x80 = c"
proof -
  have "unat c < 128" using assms by (simp add: word_less_nat_alt)
  have c7: "\<not> bit c 7"
  proof
    assume "bit c 7"
    then have "bit (unat c) 7" by (simp add: bit_unsigned_iff)
    then have "odd (unat c div 2 ^ 7)" by (simp add: bit_iff_odd)
    then show False using \<open>unat c < 128\<close> by simp
  qed
  show "c AND 0x80 = 0" using c7 by (intro u8_bits) (auto simp: bit_simps dest!: low_eight)
  show "(c OR 0x80) XOR 0x80 = c" using c7 by (intro u8_bits) (auto simp: bit_simps dest!: low_eight)
  have "bit ((c OR 0x80) AND 0x80) 7" by (simp add: bit_simps)
  then show "(c OR 0x80) AND 0x80 \<noteq> 0" by (metis bit_0_eq bot_apply bot_bool_def)
qed

lemma press_keeps:
  assumes "modifiers_ok held k" "c \<notin> held" "c < 128"
  shows "modifiers_ok (insert c held) (key_step k c)"
  using assms
  by (auto simp: modifiers_ok_def key_step_def scancode_bits modifier_pressed_def lock_pressed_def caps_lock_def caps_bit Let_def)

lemma release_keeps:
  assumes "modifiers_ok held k" "c \<in> held" "c < 128"
  shows "modifiers_ok (held - {c}) (key_step k (c OR 0x80))"
  using assms
  by (auto simp: modifiers_ok_def key_step_def scancode_bits key_released_def caps_lock_def caps_bit Let_def)

text \<open>
  Someone types at a keyboard that does not repeat keys: a key goes down when it was up and up
  when it was down.  The set holds the keys that are down.
\<close>

inductive typing ::
  "(handler \<Rightarrow> bytes list \<Rightarrow> 'z kernel_scheme \<Rightarrow> 'z kernel_scheme result) \<Rightarrow> 'z kernel_scheme allocator \<Rightarrow> nat
     \<Rightarrow> u8 set \<Rightarrow> 'z kernel_scheme \<Rightarrow> bool"
  for H A n
where
  start: "kbd s = boot_keyboard \<Longrightarrow> typing H A n {} s"
| press: "typing H A n held s \<Longrightarrow> c < 128 \<Longrightarrow> c \<notin> held \<Longrightarrow> keyboard_shell_handler H A n st c s = Inr s' \<Longrightarrow>
    typing H A n (insert c held) s'"
| release: "typing H A n held s \<Longrightarrow> c < 128 \<Longrightarrow> c \<in> held \<Longrightarrow> keyboard_shell_handler H A n st (c OR 0x80) s = Inr s' \<Longrightarrow>
    typing H A n (held - {c}) s'"

lemma modifiers_ok_clear: "clear_dead_keys k = clear_dead_keys k' \<Longrightarrow> modifiers_ok held k \<longleftrightarrow> modifiers_ok held k'"
  by (cases k; cases k') (auto simp: clear_dead_keys_def modifiers_ok_def caps_lock_def)

lemma kbd_char_returns: "modifiers_ok held k \<Longrightarrow> c < 128 \<Longrightarrow> kbd_char k c = Inr (kbdus ! (unat c + unat (k_shift k) * 128))"
  by (auto simp: kbd_char_def modifiers_ok_def kbdus_def word_less_nat_alt)

context kernel_frame
begin

lemma typing_modifiers: "typing H A n held s \<Longrightarrow> handlers_keep H \<Longrightarrow> modifiers_ok held (kbd s)"
proof (induction rule: typing.induct)
  case (start s)
  then show ?case by (simp add: modifiers_ok_def boot_keyboard_def caps_lock_def)
next
  case (press held s c st s')
  then show ?case
    using press_keeps [of held "kbd s" c] keyboard_shell_handler_step [of H n st c s s'] modifiers_ok_clear by blast
next
  case (release held s c st s')
  then show ?case
    using release_keeps [of held "kbd s" c] keyboard_shell_handler_step [of H n st "c OR 0x80" s s'] modifiers_ok_clear by blast
qed

end

text \<open>C37: However someone types, as long as keys are not repeated: the shift counter is the number of shift keys
  that are down, the control counter tells whether control is down, capital letters are chosen
  exactly when either shift is down or caps lock is on but not both, and the table has a
  character for every key.  The commands of the shell are assumed not to change the keyboard's
  state.\<close>
theorem modifiers_follow_keys:
  assumes "handlers_keep H" "typing H (malloc_allocator (pager_at m)) n held s"
  shows "k_shift_count (kbd s) = of_bool (42 \<in> held) + of_bool (54 \<in> held) \<and> k_ctrl (kbd s) = of_bool (29 \<in> held) \<and>
    k_shift (kbd s) = of_bool (caps_lock (kbd s) \<noteq> (42 \<in> held \<or> 54 \<in> held)) \<and>
    (\<forall>c < 128. \<exists>x. kbd_char (kbd s) c = Inr x)"
proof -
  have "modifiers_ok held (kbd s)" by (rule kernel_calls.typing_modifiers [OF assms(2,1)])
  then show ?thesis using kbd_char_returns unfolding modifiers_ok_def by blast
qed

lemma no_commands_keep: "handlers_keep (\<lambda>_ _. Inr)"
  by (simp add: handlers_keep_def)

theorem modifiers_follow_keys_witness:
  "\<exists>s. typing (\<lambda>_ _. Inr) (malloc_allocator (pager_at 1)) 0 {42} s \<and> k_shift (kbd (s :: kernel)) = 1"
proof -
  let ?H = "\<lambda>_ _. Inr" and ?A = "malloc_allocator (pager_at 1) :: kernel allocator"
  let ?k = "modifier_pressed boot_keyboard 42"
  have 1: "typing ?H ?A 0 {} boot_state" by (rule typing.start) (simp add: boot_state_def)
  have "keyboard_shell_handler ?H ?A 0 [] 42 boot_state = Inr (boot_state\<lparr>kbd := ?k\<rparr>)"
    by (simp add: keyboard_shell_handler_def shell_key_def boot_state_def)
  from typing.press [OF 1 _ _ this] have 2: "typing ?H ?A 0 {42} (boot_state\<lparr>kbd := ?k\<rparr>)" by simp
  from modifiers_follow_keys [OF no_commands_keep this] 2 show ?thesis
    by (intro exI [of _ "boot_state\<lparr>kbd := ?k\<rparr>"])
      (auto simp: modifier_pressed_def boot_keyboard_def boot_state_def caps_lock_def)
qed

subsection \<open>Repeated keys\<close>

fun type_keys ::
  "(handler \<Rightarrow> bytes list \<Rightarrow> 'z kernel_scheme \<Rightarrow> 'z kernel_scheme result) \<Rightarrow> 'z kernel_scheme allocator \<Rightarrow> nat
     \<Rightarrow> u8 list \<Rightarrow> 'z kernel_scheme \<Rightarrow> 'z kernel_scheme result"
where
  "type_keys H A n [] s = Inr s"
| "type_keys H A n (c # cs) s = bindE (keyboard_shell_handler H A n [] c s) (type_keys H A n cs)"

lemma modifier_handled:
  assumes "run_pid s = []" "sc \<in> {42, 0xAA}"
  shows "\<exists>s'. keyboard_shell_handler H A n st sc s = Inr s' \<and> kbd s' = key_step (kbd s) sc \<and> run_pid s' = []"
  using assms by (auto simp: keyboard_shell_handler_def shell_key_def key_step_def Let_def)

lemma repeat_shift:
  "run_pid s = [] \<Longrightarrow> \<exists>s'. run_pid s' = [] \<and> kbd s' = ((\<lambda>k. modifier_pressed k 42) ^^ r) (kbd s) \<and>
     type_keys H A n (replicate r 42 @ cs) s = type_keys H A n cs s'"
proof (induction r arbitrary: s)
  case (Suc r)
  obtain s1 where s1: "keyboard_shell_handler H A n [] 42 s = Inr s1" "kbd s1 = key_step (kbd s) 42" "run_pid s1 = []"
    using modifier_handled [OF Suc.prems, of 42 H A n "[]"] by auto
  have "key_step (kbd s) 42 = modifier_pressed (kbd s) 42" by (simp add: key_step_def)
  then show ?case using Suc.IH [OF s1(3)] s1 by (simp add: funpow_Suc_right del: funpow.simps)
qed auto

lemma repeat_count:
  "k_shift_count (((\<lambda>k. modifier_pressed k 42) ^^ r) k) = k_shift_count k + of_nat r"
  "k_lights (((\<lambda>k. modifier_pressed k 42) ^^ r) k) = k_lights k"
  by (induction r) (simp_all add: modifier_pressed_def)

lemma high_index:
  fixes l :: u8
  assumes "3 \<le> r" "r < 256"
  shows "2 \<le> unat (drop_bit 2 (l AND 4) XOR (of_nat r - 1))"
proof -
  have eq: "(of_nat r - 1 :: u8) = of_nat (r - 1)" using assms by (simp add: of_nat_diff)
  have u: "unat (of_nat r - 1 :: u8) = r - 1" unfolding eq unat_of_nat using assms by (simp del: of_nat_diff)
  have half: "unat (drop_bit 1 y) = unat y div 2" for y :: u8
    unfolding unat_drop_bit_eq by (simp add: drop_bit_eq_div)
  have "drop_bit 1 (drop_bit 2 (l AND 4) XOR (of_nat r - 1)) = drop_bit 1 (of_nat r - 1 :: u8)"
    by (rule u8_bits) (auto simp: bit_simps dest!: low_eight)
  then have "unat (drop_bit 1 (drop_bit 2 (l AND 4) XOR (of_nat r - 1))) = unat (drop_bit 1 (of_nat r - 1 :: u8))"
    by (rule arg_cong)
  then have "unat (drop_bit 2 (l AND 4) XOR (of_nat r - 1)) div 2 = (r - 1) div 2"
    unfolding half u by simp
  moreover have "2 \<le> x" if "x div 2 = (r - 1) div 2" for x :: nat using that assms by presburger
  ultimately show ?thesis by blast
qed

text \<open>C38: Holding a shift key down until the keyboard has repeated it twice or more and then letting it go leaves
  the counter too high, and the next character key reads behind the end of the table.\<close>
theorem repeated_shift_leaves_table:
  assumes "run_pid s = []" "k_shift_count (kbd s) = 0" "3 \<le> r" "r < 256"
    "c < 128" "c \<notin> {26, 29, 42, 54, 56, 58, 69, 70, 71, 72, 75, 77, 79, 80}"
  shows "type_keys H A n (replicate r 42 @ [0xAA, c]) s = Inl OutOfBounds"
proof -
  obtain s1 where s1: "run_pid s1 = []" "kbd s1 = ((\<lambda>k. modifier_pressed k 42) ^^ r) (kbd s)"
    "type_keys H A n (replicate r 42 @ [0xAA, c]) s = type_keys H A n [0xAA, c] s1"
    using repeat_shift [OF assms(1)] by blast
  obtain s2 where s2: "keyboard_shell_handler H A n [] 0xAA s1 = Inr s2" "kbd s2 = key_step (kbd s1) 0xAA" "run_pid s2 = []"
    using modifier_handled [OF s1(1)] by blast
  have "k_shift (kbd s2) = drop_bit 2 (k_lights (kbd s) AND 4) XOR (of_nat r - 1)"
    using s2(2) s1(2) assms(2) by (simp add: key_step_def key_released_def repeat_count Let_def)
  then have "2 \<le> unat (k_shift (kbd s2))" using high_index [OF assms(3,4)] by simp
  then have oob: "kbd_char (kbd s2) c = Inl OutOfBounds" by (simp add: kbd_char_def kbdus_def)
  have "c AND 0x80 = 0" by (rule scancode_bits(1) [OF assms(5)])
  then have "keyboard_shell_handler H A n [] c s2 = Inl OutOfBounds"
    using s2(3) oob assms(6) by (simp add: keyboard_shell_handler_def shell_key_def Let_def)
  then show ?thesis using s1(3) s2(1) by simp
qed

theorem repeated_shift_leaves_table_witness:
  "type_keys (\<lambda>_ _. Inr) (malloc_allocator (pager_at 1)) 0 (replicate 3 42 @ [0xAA, 16]) boot_state = Inl OutOfBounds"
  by (rule repeated_shift_leaves_table) (simp_all add: boot_state_def boot_keyboard_def)

end
