(* ===== verification/Ata.thy ===== *)
theory Ata
  imports Kernel
begin

text \<open>
  \<^verbatim>\<open>ata_pio.c\<close>: transfers between memory and disk.  The disk is a function from byte positions;
  a command addresses sectors of 512 bytes by 28 bits.  What the controller answers is a
  parameter: \<open>poll_status\<close> are the successive values of the status register before a sector is
  transferred, \<open>flush_status\<close> those after a sector was written.  The order of the port writes
  that start a command is fixed and is not recorded.
\<close>

subsection \<open>State\<close>

record drive =
  disk_id :: u8
  disk :: "nat \<Rightarrow> u8"
  poll_status :: "u32 \<Rightarrow> u8 list"
  flush_status :: "u32 \<Rightarrow> u8 list"

text \<open>What the identification sees on the ports, in the order it reads them.\<close>

record identification =
  first_status :: u8
  command_status :: u8
  busy_status :: "u8 list"
  address2 :: u8
  address3 :: u8
  ready_status :: "u8 list"
  identify_data :: "nat \<Rightarrow> u16"

subsection \<open>Waiting for the drive\<close>

fun poll_busy :: "u8 list \<Rightarrow> (u8 \<times> u8 list) result" where
  "poll_busy [] = Inl Hang"
| "poll_busy (status # rest) = (if status AND 0x80 \<noteq> 0 then poll_busy rest else Inr (status, rest))"

fun poll_ready :: "u8 \<Rightarrow> u8 list \<Rightarrow> u8 result" where
  "poll_ready status [] =
     (if status AND 0x08 \<noteq> 0 then Inr 0 else if status AND 0x01 \<noteq> 0 then Inr 1
      else if status AND 0x20 \<noteq> 0 then Inr 2 else Inl Hang)"
| "poll_ready status (next # rest) =
     (if status AND 0x08 \<noteq> 0 then Inr 0 else if status AND 0x01 \<noteq> 0 then Inr 1
      else if status AND 0x20 \<noteq> 0 then Inr 2 else poll_ready next rest)"

definition poll :: "u8 list \<Rightarrow> u8 result" where
  "poll ports =
     bindE (poll_busy ports) (\<lambda>(status, rest).
       if status AND 0x01 \<noteq> 0 then Inr 1 else if status AND 0x20 \<noteq> 0 then Inr 2 else poll_ready status rest)"

subsection \<open>Identification\<close>

definition identify_log :: "(nat \<Rightarrow> u16) \<Rightarrow> 'z kernel_scheme \<Rightarrow> 'z kernel_scheme result" where
  "identify_log to_read s =
     (let word = (\<lambda>i. ucast (to_read i) :: u32)
      in bindE (if to_read 83 AND push_bit 10 1 \<noteq> 0 then
             bindE (print s (ascii ''Support LBA48\<newline>'') []) (\<lambda>s.
               print s (ascii ''48 bit LBA sectors : (%u<<32) + %u\<newline>'')
                 [Word_Arg (push_bit 16 (word 100) + word 101), Word_Arg (push_bit 16 (word 102) + word 103)])
           else Inr s) (\<lambda>s.
         bindE (print s (ascii ''UDMA mode : supported=%x, chosen=%x\<newline>'')
             [Word_Arg (word 88 AND 0xF), Word_Arg (drop_bit 4 (word 88) AND 0xF)]) (\<lambda>s.
         bindE (if to_read 93 AND push_bit 11 1 \<noteq> 0
                then print s (ascii ''Detected 80 conductor table\<newline>'') [] else Inr s) (\<lambda>s.
         let lba28 = push_bit 16 (word 61) OR word 60
         in if lba28 \<noteq> 0 then print s (ascii ''28 bit LBA sectors : %x\<newline>'') [Word_Arg lba28] else Inr s))))"

definition identify :: "identification \<Rightarrow> bool \<Rightarrow> 'z kernel_scheme \<Rightarrow> (u8 \<times> 'z kernel_scheme) result" where
  "identify ports debug s =
     (if first_status ports = 0xFF then Inr (1, s)
      else if command_status ports = 0 then Inr (2, s)
      else bindE (poll_busy (busy_status ports)) (\<lambda>_.
        let status1 = address2 ports; status2 = address3 ports
        in if status1 OR status2 \<noteq> 0 then
             Inr (if status1 = 0x14 \<and> status2 = 0xEB then 3 else if status1 = 0x3C \<and> status2 = 0xC3 then 4
                  else if status1 = 0x69 \<and> status2 = 0x96 then 5 else 6, s)
           else bindE (poll (ready_status ports)) (\<lambda>e.
             if e \<noteq> 0 then Inr (7, s)
             else bindE (if debug then identify_log (identify_data ports) s else Inr s) (\<lambda>s. Inr (0, s)))))"

definition identify_throw :: "u8 \<Rightarrow> 'a result" where
  "identify_throw flag = Inl (Throw
     (if flag = 0 then ''There shouldn't be any error!'' else if flag = 1 then ''Floating bus''
      else if flag = 2 then ''The required drive does not exist'' else if flag = 3 then ''ATAPI disk, not ATA''
      else if flag = 4 then ''SATA disk, not ATA'' else if flag = 5 then ''SATAPI disk, not ATA''
      else if flag = 6 then ''Not an ATA disk'' else if flag = 7 then ''Detected drive error''
      else if flag = 8 then ''No identification made'' else ''Unknown response to the IDENTIFY command''))"

subsection \<open>Whole sectors\<close>

text \<open>The first sector of a command: the volume begins at sector \<open>0x800\<close>, and 28 bits are sent.\<close>

definition sector_address :: "u32 \<Rightarrow> u32" where
  "sector_address lba = (lba + 0x800) AND 0x0FFFFFFF"

fun store_bytes :: "memory \<Rightarrow> u32 \<Rightarrow> bytes \<Rightarrow> memory" where
  "store_bytes m a [] = m"
| "store_bytes m a (b # bs) = store_bytes (m(a := b)) (a + 1) bs"

definition sector_bytes :: "drive \<Rightarrow> u32 \<Rightarrow> bytes" where
  "sector_bytes d sector = map (\<lambda>j. disk d (unat sector * 512 + j)) [0..<512]"

fun read_sectors :: "drive \<Rightarrow> memory \<Rightarrow> u32 \<Rightarrow> u32 \<Rightarrow> nat \<Rightarrow> memory result" where
  "read_sectors d m buffer sector 0 = Inr m"
| "read_sectors d m buffer sector (Suc n) =
     bindE (poll (poll_status d sector)) (\<lambda>e.
       if e \<noteq> 0 then Inl (Throw ''Error while reading'')
       else read_sectors d (store_bytes m buffer (sector_bytes d sector)) (buffer + 512) (sector + 1) n)"

text \<open>A sector count of 0 stands for 256 sectors.\<close>

definition sector_count :: "u8 \<Rightarrow> nat" where
  "sector_count count = unat (count - 1) + 1"

definition readLBA :: "drive \<Rightarrow> memory \<Rightarrow> u32 \<Rightarrow> u8 \<Rightarrow> u32 \<Rightarrow> memory result" where
  "readLBA d m lba count buffer =
     (if disk_id d \<noteq> 0 then identify_throw (disk_id d)
      else read_sectors d m buffer (sector_address lba) (sector_count count))"

definition write_sector :: "drive \<Rightarrow> memory \<Rightarrow> u32 \<Rightarrow> u32 \<Rightarrow> drive" where
  "write_sector d m buffer sector =
     d\<lparr>disk := (\<lambda>k. if unat sector * 512 \<le> k \<and> k < unat sector * 512 + 512
                   then m (buffer + of_nat (k - unat sector * 512)) else disk d k)\<rparr>"

fun write_sectors :: "drive \<Rightarrow> memory \<Rightarrow> u32 \<Rightarrow> u32 \<Rightarrow> nat \<Rightarrow> drive result" where
  "write_sectors d m buffer sector 0 = Inr d"
| "write_sectors d m buffer sector (Suc n) =
     bindE (poll (poll_status d sector)) (\<lambda>e.
       if e \<noteq> 0 then Inl (Throw ''Error while writing'')
       else let d = write_sector d m buffer sector
            in bindE (poll_busy (flush_status d sector)) (\<lambda>_.
                 write_sectors d m (buffer + 512) (sector + 1) n))"

definition writeLBA :: "drive \<Rightarrow> memory \<Rightarrow> u32 \<Rightarrow> u8 \<Rightarrow> u32 \<Rightarrow> drive result" where
  "writeLBA d m lba count buffer =
     (if disk_id d \<noteq> 0 then identify_throw (disk_id d)
      else write_sectors d m buffer (sector_address lba) (sector_count count))"

subsection \<open>Parts of sectors\<close>

text \<open>
  The loop over the words of the transfer: \<open>i\<close> is the position of the next word relative to the
  first byte wanted, \<open>ofs\<close> the position of that byte in its sector.
\<close>

function pio_loop :: "drive \<Rightarrow> u32 \<Rightarrow> u32 \<Rightarrow> int \<Rightarrow> int \<Rightarrow> int \<Rightarrow> memory \<Rightarrow> (int \<times> memory) result" where
  "pio_loop d sector buffer ofs len i m =
     (if i < len - 1 then
        bindE (if (i + ofs) mod 512 = 0 then poll (poll_status d (sector + of_int ((i + ofs) div 512))) else Inr 0) (\<lambda>e.
          if e \<noteq> 0 then Inl (Throw ''Error while reading'')
          else let k = unat sector * 512 + nat (i + ofs);
                   m = (if i < -1 then m
                        else if i = -1 then m(buffer := disk d (k + 1))
                        else m(buffer + of_int i := disk d k, buffer + of_int i + 1 := disk d (k + 1)))
               in pio_loop d sector buffer ofs len (i + 2) m)
      else Inr (i, m))"
  by pat_completeness auto
termination by (relation "measure (\<lambda>(d, sector, buffer, ofs, len, i, m). nat (len - i))") auto

declare pio_loop.simps [simp del]

definition readPIO :: "drive \<Rightarrow> memory \<Rightarrow> u32 \<Rightarrow> u32 \<Rightarrow> u32 \<Rightarrow> u32 \<Rightarrow> memory result" where
  "readPIO d m lba offset len buffer =
     (if len = 0 then Inr m
      else let sector = sector_address (lba + drop_bit 9 offset); offset = offset mod 512
           in if disk_id d \<noteq> 0 then identify_throw (disk_id d)
              else let sectors = (ucast (1 + drop_bit 9 (offset + len - 1)) :: u16)
                   in if sectors > 256 then Inl (Throw ''Too much data to read'')
                      else bindE (pio_loop d sector buffer (uint offset) (sint len) (- uint offset) m) (\<lambda>(i, m).
                        Inr (if (len + offset) mod 2 \<noteq> 0
                             then m(buffer + of_int i := disk d (unat sector * 512 + nat (i + uint offset)))
                             else m)))"

end
