(* ===== verification/Filesystem.thy ===== *)
theory Filesystem
  imports Ata Bitset
begin

text \<open>
  \<^verbatim>\<open>filesystem.c\<close>, first part: blocks, inodes and the bitmaps of an ext2 volume.  The buffers
  \<^verbatim>\<open>std_buf\<close> and \<^verbatim>\<open>std_inode\<close> and the table of block groups are in the kernel's memory, and the
  structures of \<^verbatim>\<open>fs_types.h\<close> are read and written there field by field; the super block is a
  global structure.  The record also has the globals of \<^verbatim>\<open>fs_inter.c\<close> and the address of the
  static buffer \<^verbatim>\<open>sys_buf\<close> of \<^verbatim>\<open>syscall.c\<close>.
\<close>

subsection \<open>State\<close>

record superblock =
  inode_num :: u32
  block_num :: u32
  unalloc_block_num :: u32
  unalloc_inode_num :: u32
  spb_block_size :: u32
  block_per_group :: u32
  inode_per_group :: u32
  signature :: u16
  first_free_inode :: u32

record filesystem = kernel +
  spb :: superblock
  bgpt :: u32
  block_factor :: u32
  block_size :: u32
  bgpt_size :: u32
  std_buf :: u32
  std_inode :: u32
  drv :: drive
  fdt :: u32
  fdt_size :: u32
  fdt_num :: u32
  sys_buf :: u32

abbreviation (input) SIZE_INODE :: u32 where "SIZE_INODE \<equiv> 128"
abbreviation (input) SIZE_BGP :: u32 where "SIZE_BGP \<equiv> 32"
abbreviation (input) SIZE_DIR_ENTRY :: u32 where "SIZE_DIR_ENTRY \<equiv> 9"

definition load16 :: "memory \<Rightarrow> u32 \<Rightarrow> u16" where
  "load16 m a = ucast (m a) OR push_bit 8 (ucast (m (a + 1)))"

definition store16 :: "memory \<Rightarrow> u32 \<Rightarrow> u16 \<Rightarrow> memory" where
  "store16 m a v = m(a := ucast v, a + 1 := ucast (drop_bit 8 v))"

definition write16 :: "'z machine_scheme \<Rightarrow> u32 \<Rightarrow> u16 \<Rightarrow> 'z machine_scheme" where
  "write16 s a v = set_mem s (store16 (mem s) a v)"

definition write8 :: "'z machine_scheme \<Rightarrow> u32 \<Rightarrow> u8 \<Rightarrow> 'z machine_scheme" where
  "write8 s a v = set_mem s ((mem s)(a := v))"

text \<open>Division as the processor does it.\<close>

definition udiv :: "u32 \<Rightarrow> u32 \<Rightarrow> u32 result" where
  "udiv a b = (if b = 0 then Inl DivideError else Inr (a div b))"

definition umod :: "u32 \<Rightarrow> u32 \<Rightarrow> u32 result" where
  "umod a b = (if b = 0 then Inl DivideError else Inr (a mod b))"

text \<open>Fields of a block group descriptor.\<close>

definition bgp :: "'z filesystem_scheme \<Rightarrow> u32 \<Rightarrow> u32" where
  "bgp s k = bgpt s + SIZE_BGP * k"

definition block_address_bitmap :: "'z filesystem_scheme \<Rightarrow> u32 \<Rightarrow> u32" where
  "block_address_bitmap s k = load32 (mem s) (bgp s k)"

definition inode_address_bitmap :: "'z filesystem_scheme \<Rightarrow> u32 \<Rightarrow> u32" where
  "inode_address_bitmap s k = load32 (mem s) (bgp s k + 4)"

definition inode_table_address :: "'z filesystem_scheme \<Rightarrow> u32 \<Rightarrow> u32" where
  "inode_table_address s k = load32 (mem s) (bgp s k + 8)"

definition unalloc_block :: "'z filesystem_scheme \<Rightarrow> u32 \<Rightarrow> u16" where
  "unalloc_block s k = load16 (mem s) (bgp s k + 12)"

definition unalloc_inode :: "'z filesystem_scheme \<Rightarrow> u32 \<Rightarrow> u16" where
  "unalloc_inode s k = load16 (mem s) (bgp s k + 14)"

text \<open>Fields of an inode structure at \<open>i\<close>.\<close>

definition inode_type :: "'z machine_scheme \<Rightarrow> u32 \<Rightarrow> u16" where
  "inode_type s i = load16 (mem s) i"

definition size_low :: "'z machine_scheme \<Rightarrow> u32 \<Rightarrow> u32" where
  "size_low s i = load32 (mem s) (i + 4)"

definition hard_links :: "'z machine_scheme \<Rightarrow> u32 \<Rightarrow> u16" where
  "hard_links s i = load16 (mem s) (i + 26)"

definition dbp :: "'z machine_scheme \<Rightarrow> u32 \<Rightarrow> u32 \<Rightarrow> u32" where
  "dbp s i k = load32 (mem s) (i + 40 + 4 * k)"

definition sibp :: "'z machine_scheme \<Rightarrow> u32 \<Rightarrow> u32" where
  "sibp s i = load32 (mem s) (i + 88)"

definition dibp :: "'z machine_scheme \<Rightarrow> u32 \<Rightarrow> u32" where
  "dibp s i = load32 (mem s) (i + 92)"

definition tibp :: "'z machine_scheme \<Rightarrow> u32 \<Rightarrow> u32" where
  "tibp s i = load32 (mem s) (i + 96)"

definition buf_word :: "'z filesystem_scheme \<Rightarrow> u32 \<Rightarrow> u32" where
  "buf_word s k = load32 (mem s) (std_buf s + 4 * k)"

subsection \<open>Blocks\<close>

definition BLOCK :: "'z filesystem_scheme \<Rightarrow> u32 \<Rightarrow> u32" where
  "BLOCK s n = block_factor s * n"

definition read_lba :: "'z filesystem_scheme \<Rightarrow> u32 \<Rightarrow> u32 \<Rightarrow> u32 \<Rightarrow> 'z filesystem_scheme result" where
  "read_lba s lba count buffer = bindE (readLBA (drv s) (mem s) lba (ucast count) buffer) (\<lambda>m. Inr (set_mem s m))"

definition write_lba :: "'z filesystem_scheme \<Rightarrow> u32 \<Rightarrow> u32 \<Rightarrow> u32 \<Rightarrow> 'z filesystem_scheme result" where
  "write_lba s lba count buffer = bindE (writeLBA (drv s) (mem s) lba (ucast count) buffer) (\<lambda>d. Inr (s\<lparr>drv := d\<rparr>))"

definition read_pio :: "'z filesystem_scheme \<Rightarrow> u32 \<Rightarrow> u32 \<Rightarrow> u32 \<Rightarrow> u32 \<Rightarrow> 'z filesystem_scheme result" where
  "read_pio s lba offset len buffer = bindE (readPIO (drv s) (mem s) lba offset len buffer) (\<lambda>m. Inr (set_mem s m))"

text \<open>The copying loop counts up to \<open>ofs + len\<close>, which wraps around.\<close>

definition update_block :: "'z filesystem_scheme \<Rightarrow> u32 \<Rightarrow> u32 \<Rightarrow> u32 \<Rightarrow> u32 \<Rightarrow> 'z filesystem_scheme result" where
  "update_block s buffer ofs len address =
     bindE (udiv ofs (block_size s)) (\<lambda>q.
     let address = address + block_factor s * q; ofs = ofs mod block_size s
     in bindE (read_lba s address (block_factor s) (std_buf s)) (\<lambda>s.
        let n = (if ofs + len < ofs then 0 else unat len);
            s = set_mem s (mem_copy_loop (mem s) (std_buf s + ofs) buffer n)
        in write_lba s address (block_factor s) (std_buf s)))"

definition set_inode :: "'z filesystem_scheme \<Rightarrow> u32 \<Rightarrow> u32 \<Rightarrow> 'z filesystem_scheme result" where
  "set_inode s inode buffer =
     bindE (udiv (inode - 1) (inode_per_group (spb s))) (\<lambda>block_group.
     let index = (inode - 1) mod inode_per_group (spb s)
     in read_pio s (BLOCK s (inode_table_address s block_group)) (index * SIZE_INODE) SIZE_INODE buffer)"

definition update_inode :: "'z filesystem_scheme \<Rightarrow> u32 \<Rightarrow> u32 \<Rightarrow> 'z filesystem_scheme result" where
  "update_inode s inode buffer =
     bindE (udiv (inode - 1) (inode_per_group (spb s))) (\<lambda>block_group.
     let index = (inode - 1) mod inode_per_group (spb s)
     in update_block s buffer (index * SIZE_INODE) SIZE_INODE (BLOCK s (inode_table_address s block_group)))"

definition update_or_bitmap :: "'z filesystem_scheme \<Rightarrow> u32 \<Rightarrow> u16 \<Rightarrow> u8 \<Rightarrow> 'z filesystem_scheme result" where
  "update_or_bitmap s address word msk =
     bindE (read_lba s address 1 (std_buf s)) (\<lambda>s.
       let a = std_buf s + ucast word; s = write8 s a (mem s a OR msk)
       in write_lba s address 1 (std_buf s))"

definition flush_bgpt :: "'z filesystem_scheme \<Rightarrow> 'z filesystem_scheme result" where
  "flush_bgpt s =
     bindE (udiv (bgpt_size s) (block_size s)) (\<lambda>n. write_lba s (BLOCK s 1) (block_factor s * n) (bgpt s))"

subsection \<open>Allocation of inodes\<close>

text \<open>
  The search for the next free inode, group by group; \<open>n\<close> groups are left.  The result are the
  group where the loop ended and the position there, -1 when none was found.
\<close>

fun free_inode_loop :: "'z filesystem_scheme \<Rightarrow> bitset \<Rightarrow> u32 \<Rightarrow> nat \<Rightarrow> u32 \<Rightarrow> (u32 \<times> u32 \<times> 'z filesystem_scheme) result" where
  "free_inode_loop s b k 0 p = Inr (k, p, s)"
| "free_inode_loop s b k (Suc n) p =
     bindE (read_lba s (BLOCK s (inode_address_bitmap s k)) (block_factor s) (std_buf s)) (\<lambda>s.
       if unalloc_inode s k = 0 then free_inode_loop s b (k + 1) n (- 1)
       else let p = param_ffb (mem s) b (p + 1)
            in if p \<noteq> - 1 then Inr (k, p, s) else free_inode_loop s b (k + 1) n p)"

definition allocate_inode :: "'z filesystem_scheme \<Rightarrow> (u32 \<times> 'z filesystem_scheme) result" where
  "allocate_inode s =
     (let b = \<lparr>bits_length = inode_per_group (spb s), bits_addr = std_buf s\<rparr>; ret = first_free_inode (spb s)
      in bindE (udiv (ret - 1) (inode_per_group (spb s))) (\<lambda>k.
         let p = (ret - 1) mod inode_per_group (spb s); address = inode_address_bitmap s k
         in bindE (read_lba s (BLOCK s address) (block_factor s) (std_buf s)) (\<lambda>s.
            if unalloc_inode_num (spb s) = 0 then Inr (0, s)
            else let s = s\<lparr>spb := (spb s)\<lparr>unalloc_inode_num := unalloc_inode_num (spb s) - 1\<rparr>\<rparr>;
                     s = set_mem s (set_bit_c (mem s) b p True)
                 in bindE (write_lba s (BLOCK s address) (block_factor s) (std_buf s)) (\<lambda>s.
                    let s = write16 s (bgp s k + 14) (unalloc_inode s k - 1)
                    in bindE (flush_bgpt s) (\<lambda>s.
                       let groups = 1 + (inode_num (spb s) - 1) div inode_per_group (spb s)
                       in bindE (free_inode_loop s b k (unat groups - unat k) p) (\<lambda>(k, p, s).
                            if p = - 1 then Inr (0, s)
                            else Inr (ret, s\<lparr>spb := (spb s)\<lparr>first_free_inode := k * inode_per_group (spb s) + p + 1\<rparr>\<rparr>)))))))"

text \<open>The bit of an inode is looked up with the fixed number 2048 of inodes in a group, in 16-bit words.\<close>

definition unallocate_inode :: "'z filesystem_scheme \<Rightarrow> u32 \<Rightarrow> (u8 \<times> 'z filesystem_scheme) result" where
  "unallocate_inode s inode =
     (let s = (if inode < first_free_inode (spb s) then s\<lparr>spb := (spb s)\<lparr>first_free_inode := inode\<rparr>\<rparr> else s)
      in bindE (udiv (inode - 1) (inode_per_group (spb s))) (\<lambda>k.
         let address = inode_address_bitmap s k;
             a = std_buf s + 2 * (((inode - 1) mod 2048) div 16);
             msk = push_bit (unat ((inode - 1) mod 16)) 1 :: u16
         in bindE (read_lba s (BLOCK s address) (block_factor s) (std_buf s)) (\<lambda>s.
            if load16 (mem s) a AND msk = 0 then Inr (1, s)
            else let s = s\<lparr>spb := (spb s)\<lparr>unalloc_inode_num := unalloc_inode_num (spb s) + 1\<rparr>\<rparr>;
                     s = write16 s (bgp s k + 14) (unalloc_inode s k + 1);
                     s = write16 s a (load16 (mem s) a AND NOT msk)
                 in bindE (write_lba s (BLOCK s address) (block_factor s) (std_buf s)) (\<lambda>s.
                    bindE (flush_bgpt s) (\<lambda>s. Inr (0, s))))))"

subsection \<open>Allocation of blocks\<close>

text \<open>
  After a group whose counter is not zero but whose bitmap has no clear bit from the position
  on, the search goes on at position 0 of the next group, also when there is none.
\<close>

fun free_block_loop :: "'z filesystem_scheme \<Rightarrow> bitset \<Rightarrow> u32 \<Rightarrow> nat \<Rightarrow> u32 \<Rightarrow> (u32 \<times> u32 \<times> 'z filesystem_scheme) result" where
  "free_block_loop s b k 0 p = Inr (k, p, s)"
| "free_block_loop s b k (Suc n) p =
     bindE (read_lba s (BLOCK s (block_address_bitmap s k)) (block_factor s) (std_buf s)) (\<lambda>s.
       if unalloc_block s k = 0 then free_block_loop s b (k + 1) n (- 1)
       else let p = param_ffb (mem s) b p
            in if p \<noteq> - 1 then Inr (k, p, s) else free_block_loop s b (k + 1) n (p + 1))"

text \<open>One search from the block \<open>prec\<close> on; no result means that it has to start again.\<close>

definition allocate_block_from :: "'z filesystem_scheme \<Rightarrow> u32 \<Rightarrow> (u32 option \<times> 'z filesystem_scheme) result" where
  "allocate_block_from s prec =
     (let b = \<lparr>bits_length = block_per_group (spb s), bits_addr = std_buf s\<rparr>
      in bindE (udiv prec (block_per_group (spb s))) (\<lambda>k.
         let p = prec mod block_per_group (spb s)
         in bindE (read_lba s (BLOCK s (block_address_bitmap s k)) (block_factor s) (std_buf s)) (\<lambda>s.
            if unalloc_block_num (spb s) = 0 then Inr (Some 0, s)
            else let groups = 1 + unat ((block_num (spb s) - 1) div block_per_group (spb s))
                 in bindE (free_block_loop s b k (groups - unat k) p) (\<lambda>(k, p, s).
                    if p \<noteq> - 1 then
                      let s = set_mem s (set_bit_c (mem s) b p True)
                      in bindE (write_lba s (BLOCK s (block_address_bitmap s k)) (block_factor s) (std_buf s)) (\<lambda>s.
                         let s = s\<lparr>spb := (spb s)\<lparr>unalloc_block_num := unalloc_block_num (spb s) - 1\<rparr>\<rparr>;
                             s = write16 s (bgp s k + 12) (unalloc_block s k - 1)
                         in bindE (flush_bgpt s) (\<lambda>s. Inr (Some (k * block_per_group (spb s) + p), s)))
                    else Inr (None, s)))))"

definition allocate_block :: "'z filesystem_scheme \<Rightarrow> u32 \<Rightarrow> (u32 \<times> 'z filesystem_scheme) result" where
  "allocate_block s prec =
     (let prec = (if prec = 0 \<or> prec \<ge> block_num (spb s) - 1 then 1 else prec);
          corrupted = Inl (Throw ''Superblock corrupted, no free block found'')
      in bindE (allocate_block_from s prec) (\<lambda>(r, s).
           case r of Some block \<Rightarrow> Inr (block, s)
           | None \<Rightarrow> if prec = 1 then corrupted
               else bindE (allocate_block_from s 1) (\<lambda>(r, s). case r of Some block \<Rightarrow> Inr (block, s) | None \<Rightarrow> corrupted)))"

definition unallocate_block :: "'z filesystem_scheme \<Rightarrow> u32 \<Rightarrow> (u8 \<times> 'z filesystem_scheme) result" where
  "unallocate_block s block =
     (let b = \<lparr>bits_length = block_per_group (spb s), bits_addr = std_buf s\<rparr>
      in bindE (udiv block (block_per_group (spb s))) (\<lambda>k.
         let address = block_address_bitmap s k; p = block mod block_per_group (spb s)
         in bindE (read_lba s (BLOCK s address) (block_factor s) (std_buf s)) (\<lambda>s.
            if \<not> get_bit (mem s) b p then Inr (1, s)
            else let s = set_mem s (set_bit_c (mem s) b p False)
                 in bindE (write_lba s (BLOCK s address) (block_factor s) (std_buf s)) (\<lambda>s.
                    bindE (flush_bgpt s) (\<lambda>s. Inr (0, s))))))"

subsection \<open>Data of a file\<close>

text \<open>
  The block that holds block \<open>n\<close> of the file described by \<^verbatim>\<open>std_inode\<close>, found through the
  indirect blocks, which are read into \<^verbatim>\<open>std_buf\<close>.  In the doubly and triply indirect parts the
  code divides by the size of a block and not by the number of addresses in a block.
\<close>

definition read_indirect :: "'z filesystem_scheme \<Rightarrow> u32 \<Rightarrow> 'z filesystem_scheme result" where
  "read_indirect s block = read_pio s (BLOCK s block) 0 (block_size s) (std_buf s)"

definition data_block :: "'z filesystem_scheme \<Rightarrow> u32 \<Rightarrow> (u32 \<times> 'z filesystem_scheme) result" where
  "data_block s n =
     (if n < 12 then Inr (dbp s (std_inode s) n, s)
      else let n = n - 12
      in if n < block_size s div 4 then
           bindE (read_indirect s (sibp s (std_inode s))) (\<lambda>s. Inr (buf_word s n, s))
      else let n = n - block_size s div 4; dbsize = block_size s * block_size s
      in if n < dbsize div 16 then
           bindE (read_indirect s (dibp s (std_inode s))) (\<lambda>s.
           bindE (read_indirect s (buf_word s (n div block_size s))) (\<lambda>s. Inr (buf_word s (n mod block_size s), s)))
      else let n = n - dbsize div 16
      in if n \<ge> dbsize * block_size s div 64 then Inl (Throw ''Invalid offset'')
         else bindE (read_indirect s (tibp s (std_inode s))) (\<lambda>s.
              bindE (umod n dbsize) (\<lambda>r.
              bindE (read_indirect s (buf_word s (n div dbsize))) (\<lambda>s.
              bindE (read_indirect s (buf_word s (r div block_size s))) (\<lambda>s. Inr (buf_word s (n mod block_size s), s))))))"

definition read_inode_data :: "'z filesystem_scheme \<Rightarrow> u32 \<Rightarrow> u32 \<Rightarrow> u32 \<Rightarrow> u32 \<Rightarrow> (u32 \<times> 'z filesystem_scheme) result" where
  "read_inode_data s inode buffer offset len =
     bindE (udiv offset (block_size s)) (\<lambda>to_read.
     bindE (set_inode s inode (std_inode s)) (\<lambda>s.
     let ofs = offset mod block_size s;
         width = (if len > block_size s - ofs then block_size s - ofs else len)
     in bindE (data_block s to_read) (\<lambda>(block, s).
        bindE (read_pio s (BLOCK s block) ofs width buffer) (\<lambda>s. Inr (width, s)))))"

definition write_inode_data :: "'z filesystem_scheme \<Rightarrow> u32 \<Rightarrow> u32 \<Rightarrow> u32 \<Rightarrow> u32 \<Rightarrow> (u32 \<times> 'z filesystem_scheme) result" where
  "write_inode_data s inode buffer offset len =
     bindE (udiv offset (block_size s)) (\<lambda>to_write.
     bindE (set_inode s inode (std_inode s)) (\<lambda>s.
     let ofs = offset mod block_size s;
         width = (if len > block_size s - ofs then block_size s - ofs else len)
     in bindE (data_block s to_write) (\<lambda>(block, s).
        bindE (update_block s buffer ofs width (BLOCK s block)) (\<lambda>s. Inr (width, s)))))"

subsection \<open>The state before the installation\<close>

definition boot_filesystem :: "drive \<Rightarrow> filesystem" where
  "boot_filesystem d = \<lparr>kmem = (\<lambda>_. 0), umem = (\<lambda>_ _. 0), first_free_block = 0, unallocated_mem = 0,
     kernel_first_free_block = 0, kernel_unallocated_mem = 0, paging_enabled = False,
     current_directory = 0, kernel_directory = 0, base_directory = 0, ld_end = 0, UPPER_MEMORY = 0,
     START_OF_USER_HEAP = 0, cr0 = 0, cr3 = 0,
     frames = \<lparr>bits_length = 0, bits_addr = 0\<rparr>, START_OF_USER_STACK = 0, START_OF_USER_CODE = 0,
     isr_routines = (\<lambda>_. None),
     curr_pid = 0, processes = replicate NUM_PROCESSES free_process,
     runqueues = replicate (MAX_PRIORITY + 1) [], run_pid = [], in_kernel = False,
     should_cycle = False, run_executed = False, scr = boot_screen, sh = boot_shell,
     kbd = boot_keyboard, desc = boot_descriptors,
     spb = \<lparr>inode_num = 0, block_num = 0, unalloc_block_num = 0, unalloc_inode_num = 0, spb_block_size = 0,
       block_per_group = 0, inode_per_group = 0, signature = 0, first_free_inode = 0\<rparr>,
     bgpt = 0, block_factor = 0, block_size = 0, bgpt_size = 0, std_buf = 0, std_inode = 0, drv = d,
     fdt = 0, fdt_size = 0, fdt_num = 0, sys_buf = 0\<rparr>"

end
