(* ===== verification/Ata_Props.thy ===== *)
theory Ata_Props
  imports Ata
begin

text \<open>
  What the transfers of \<^verbatim>\<open>ata_pio.c\<close> do when the drive gets ready for every sector: a read of a
  range of bytes stores exactly these bytes.
\<close>

definition drive_ready :: "drive \<Rightarrow> bool" where
  "drive_ready d \<longleftrightarrow> disk_id d = 0 \<and> (\<forall>k. poll (poll_status d k) = Inr 0) \<and>
     (\<forall>k. \<exists>r. poll_busy (flush_status d k) = Inr r)"

text \<open>The memory after the bytes from \<open>i\<close> up to \<open>e\<close> of a transfer have been stored.\<close>

definition transferred :: "drive \<Rightarrow> u32 \<Rightarrow> u32 \<Rightarrow> int \<Rightarrow> int \<Rightarrow> int \<Rightarrow> memory \<Rightarrow> memory" where
  "transferred d sector buffer ofs i e m =
     (\<lambda>x. if max i 0 \<le> uint (x - buffer) \<and> uint (x - buffer) < e
          then disk d (unat sector * 512 + nat (uint (x - buffer) + ofs)) else m x)"

lemma at_offset:
  fixes x buffer :: u32
  assumes "0 \<le> j" "j < 2 ^ 32"
  shows "x = buffer + of_int j \<longleftrightarrow> uint (x - buffer) = j"
proof -
  have "uint (of_int j :: u32) = j"
    using assms by (simp add: unsigned_of_int take_bit_int_eq_self)
  moreover have "x = buffer + of_int j \<longleftrightarrow> x - buffer = of_int j" by (metis add_diff_cancel_left' add.commute diff_add_cancel)
  ultimately show ?thesis by (metis word_of_int_uint of_int_eq_id of_int_uint)
qed

definition pio_end :: "int \<Rightarrow> int \<Rightarrow> int" where
  "pio_end len i = (if even (len - i) then len else len - 1)"

definition pio_word :: "drive \<Rightarrow> u32 \<Rightarrow> u32 \<Rightarrow> int \<Rightarrow> int \<Rightarrow> memory \<Rightarrow> memory" where
  "pio_word d sector buffer ofs i m =
     (if i < - 1 then m
      else if i = - 1 then m(buffer := disk d (unat sector * 512 + nat (i + ofs) + 1))
      else m(buffer + of_int i := disk d (unat sector * 512 + nat (i + ofs)),
             buffer + of_int i + 1 := disk d (unat sector * 512 + nat (i + ofs) + 1)))"

lemma transferred_step:
  assumes "0 \<le> ofs" "- ofs \<le> i" "i < len - 1" "len < 2 ^ 32"
  shows "transferred d sector buffer ofs (i + 2) (pio_end len (i + 2))
      (pio_word d sector buffer ofs i m) =
    transferred d sector buffer ofs i (pio_end len i) m"
proof -
  have e: "pio_end len (i + 2) = pio_end len i" by (simp add: pio_end_def)
  have le: "i + 2 \<le> pio_end len i" using assms unfolding pio_end_def by presburger
  show ?thesis
  proof
    fix x
    define j where "j = uint (x - buffer)"
    have j: "0 \<le> j" by (simp add: j_def)
    have b0: "x = buffer + of_int i \<longleftrightarrow> j = i" if "0 \<le> i"
      using at_offset [of i x buffer] that assms by (simp add: j_def)
    have b1: "x = buffer + of_int i + 1 \<longleftrightarrow> j = i + 1" if "-1 \<le> i"
      using at_offset [of "i + 1" x buffer] that assms by (simp add: j_def add.assoc)
    have "Suc (unat sector * 512 + nat (i + ofs)) = unat sector * 512 + nat (i + 1 + ofs)"
      using assms by simp
    then have n: "disk d (Suc (unat sector * 512 + nat (i + ofs))) = disk d (unat sector * 512 + nat (i + 1 + ofs))"
      by (rule arg_cong)
    consider "i < -1" | "i = -1" "j = 0" | "i = -1" "0 < j" | "0 \<le> i" "j < i" | "0 \<le> i" "j = i"
      | "0 \<le> i" "j = i + 1" | "0 \<le> i" "i + 1 < j"
      using j by linarith
    then show "transferred d sector buffer ofs (i + 2) (pio_end len (i + 2)) (pio_word d sector buffer ofs i m) x =
        transferred d sector buffer ofs i (pio_end len i) m x"
      unfolding transferred_def pio_word_def e j_def [symmetric]
      by cases (use le b0 b1 n in simp_all)
  qed
qed

lemma pio_loop_transfers:
  assumes "drive_ready d" "0 \<le> ofs" "- ofs \<le> i" "i \<le> len" "len < 2 ^ 32"
  shows "pio_loop d sector buffer ofs len i m =
     Inr (pio_end len i, transferred d sector buffer ofs i (pio_end len i) m)"
  using assms
proof (induction d sector buffer ofs len i m rule: pio_loop.induct)
  case (1 d sector buffer ofs len i m)
  show ?case
  proof (cases "i < len - 1")
    case True
    have ready: "(if (i + ofs) mod 512 = 0 then poll (poll_status d (sector + of_int ((i + ofs) div 512))) else Inr 0) = Inr 0"
      using "1.prems"(1) by (simp add: drive_ready_def)
    have "pio_loop d sector buffer ofs len (i + 2) (pio_word d sector buffer ofs i m) =
        Inr (pio_end len (i + 2), transferred d sector buffer ofs (i + 2) (pio_end len (i + 2)) (pio_word d sector buffer ofs i m))"
      unfolding pio_word_def using True "1.prems" by (intro "1.IH" [OF True ready _ refl refl]) auto
    moreover have "pio_loop d sector buffer ofs len i m = pio_loop d sector buffer ofs len (i + 2) (pio_word d sector buffer ofs i m)"
      using True by (subst pio_loop.simps) (simp add: ready pio_word_def Let_def)
    moreover have "pio_end len (i + 2) = pio_end len i" by (simp add: pio_end_def)
    ultimately show ?thesis using transferred_step [OF "1.prems"(2,3) True "1.prems"(5), of d sector buffer m] by simp
  next
    case False
    then have "i = len \<or> i = len - 1" using "1.prems" by linarith
    then have "transferred d sector buffer ofs i (pio_end len i) m = m \<and> pio_end len i = i"
      by (auto simp: transferred_def pio_end_def fun_eq_iff)
    then have "transferred d sector buffer ofs i (pio_end len i) m = m" "pio_end len i = i" by blast+
    then show ?thesis using False by (subst pio_loop.simps) (simp only: if_False)
  qed
qed

text \<open>The memory after \<open>len\<close> bytes from a position of the disk have been copied to \<open>buffer\<close>.\<close>

definition copied :: "drive \<Rightarrow> nat \<Rightarrow> nat \<Rightarrow> u32 \<Rightarrow> memory \<Rightarrow> memory" where
  "copied d from len buffer m =
     (\<lambda>x. if unat (x - buffer) < len then disk d (from + unat (x - buffer)) else m x)"

lemma sectors_bound:
  fixes ofs len :: u32
  assumes "unat ofs + unat len \<le> 131072" "len \<noteq> 0"
  shows "\<not> (ucast (1 + drop_bit 9 (ofs + len - 1)) :: u16) > 256"
proof -
  have "0 < unat len" using assms(2) by (simp add: unat_gt_0)
  then have "unat (ofs + len - 1) = unat ofs + unat len - 1"
    using assms by (subst unat_sub) (auto simp: word_le_nat_alt unat_word_ariths)
  then have "unat (drop_bit 9 (ofs + len - 1)) < 256"
    using assms by (simp add: drop_bit_eq_div unat_div)
  then have "unat (1 + drop_bit 9 (ofs + len - 1)) \<le> 256" by (simp add: unat_word_ariths)
  then have "unat (ucast (1 + drop_bit 9 (ofs + len - 1)) :: u16) \<le> 256" by (simp add: unsigned_ucast_eq unsigned_take_bit_eq take_bit_nat_eq_self)
  then show ?thesis by (simp add: word_less_nat_alt)
qed

lemma transferred_last:
  assumes "0 \<le> ofs" "0 < len" "len < 2 ^ 32" "odd (len + ofs)"
  shows "(transferred d sector buffer ofs (- ofs) (len - 1) m)(buffer + of_int (len - 1) := disk d (unat sector * 512 + nat (len - 1 + ofs))) =
    transferred d sector buffer ofs (- ofs) len m"
proof
  fix x
  have "x = buffer + of_int (len - 1) \<longleftrightarrow> uint (x - buffer) = len - 1" using assms by (intro at_offset) auto
  then show "((transferred d sector buffer ofs (- ofs) (len - 1) m)(buffer + of_int (len - 1) := disk d (unat sector * 512 + nat (len - 1 + ofs)))) x =
    transferred d sector buffer ofs (- ofs) len m x"
    using assms by (auto simp: transferred_def)
qed

lemma odd_u32: "x mod 2 \<noteq> 0 \<longleftrightarrow> odd (unat x)" for x :: u32
proof -
  have "unat (x mod 2) = unat x mod 2" by (simp add: unat_mod)
  then show ?thesis unfolding u32_eq_iff_unat by (simp add: odd_iff_mod_2_eq_one)
qed

lemma readPIO_range:
  assumes "drive_ready d" "unat (offset mod 512) + unat len \<le> 131072"
  shows "readPIO d m lba offset len buffer =
     Inr (copied d (unat (sector_address (lba + drop_bit 9 offset)) * 512 + unat (offset mod 512)) (unat len) buffer m)"
proof (cases "len = 0")
  case True
  then show ?thesis by (simp add: readPIO_def copied_def)
next
  case False
  let ?sector = "sector_address (lba + drop_bit 9 offset)" and ?ofs = "uint (offset mod 512)" and ?len = "uint len"
  have pos: "0 < ?len" using False by (metis unsigned_eq_0_iff uint_ge_0 le_less)
  have small: "?len < 2 ^ 32" using uint_bounded [of len] by simp
  have signed: "sint len = ?len"
    using sint_of_nat_u32 [of "unat len"] assms(2) by simp
  have ready: "disk_id d = 0" using assms(1) by (simp add: drive_ready_def)
  have run: "pio_loop d ?sector buffer ?ofs ?len (- ?ofs) m =
      Inr (pio_end ?len (- ?ofs), transferred d ?sector buffer ?ofs (- ?ofs) (pio_end ?len (- ?ofs)) m)"
    using pos small uint_ge_0 [of "offset mod 512"] by (intro pio_loop_transfers [OF assms(1)]) linarith+
  have parity: "(len + offset mod 512) mod 2 \<noteq> 0 \<longleftrightarrow> odd (?len + ?ofs)"
  proof -
    have "unat (len + offset mod 512) = unat len + unat (offset mod 512)"
      using assms(2) by (simp add: unat_word_ariths)
    moreover have "odd (?len + ?ofs) \<longleftrightarrow> odd (int (unat len + unat (offset mod 512)))" by simp
    ultimately show ?thesis unfolding odd_u32 by (simp only: even_of_nat)
  qed
  have cmp: "uint x < uint y \<longleftrightarrow> unat x < unat y" for x y :: u32
    using word_less_def [of x y] word_less_nat_alt [of x y] by blast
  have final: "transferred d ?sector buffer ?ofs (- ?ofs) ?len m =
      copied d (unat ?sector * 512 + unat (offset mod 512)) (unat len) buffer m"
    by (auto simp: transferred_def copied_def fun_eq_iff cmp nat_add_distrib ac_simps simp flip: unat_eq_nat_uint)
  have "(len + offset mod 512) mod 2 = 1 \<longleftrightarrow> odd (?len + ?ofs)" "(len + offset mod 512) mod 2 = 0 \<longleftrightarrow> even (?len + ?ofs)"
    subgoal using parity by simp
    subgoal using parity by metis
    done
  note run = run [unfolded pio_end_def] and parity = this
  show ?thesis
  proof (cases "odd (?len + ?ofs)")
    case True
    then show ?thesis
      using False ready sectors_bound [OF assms(2) False] transferred_last [OF _ pos small True, of d ?sector buffer m] run parity
      by (simp add: readPIO_def Let_def signed final [symmetric])
  next
    case odd: False
    then show ?thesis
      using False ready sectors_bound [OF assms(2) False] run parity
      by (simp add: readPIO_def Let_def signed final [symmetric])
  qed
qed

subsection \<open>Whole sectors\<close>

lemma store_bytes_nth:
  assumes "length bs \<le> 2 ^ 32"
  shows "store_bytes m a bs x = (if unat (x - a) < length bs then bs ! unat (x - a) else m x)"
  using assms
proof (induction bs arbitrary: m a)
  case (Cons b bs)
  have step: "unat (x - (a + 1)) = unat (x - a) - 1" if "x \<noteq> a"
  proof -
    have "x - a \<noteq> 0" using that by simp
    then show ?thesis by (metis diff_diff_add unat_minus_one)
  qed
  have pos: "0 < unat (x - a)" if "x \<noteq> a" using that by (simp add: unat_gt_0)
  show ?case
  proof (cases "x = a")
    case True
    then have "x - (a + 1) = - 1" by simp
    then have "unat (x - (a + 1)) = 2 ^ 32 - 1"
      by (simp only:) (simp add: unsigned_minus_1_eq_mask mask_eq_exp_minus_1)
    then show ?thesis using True Cons by simp
  next
    case False
    then show ?thesis using Cons step pos by (cases "unat (x - a)") auto
  qed
qed simp

lemma next_sector: "unat sector < 2 ^ 31 \<Longrightarrow> unat (sector + 1) = unat sector + 1" for sector :: u32
  by (simp add: unat_word_ariths)

lemma read_sectors_copies:
  assumes "drive_ready d" "unat sector + n < 2 ^ 31" "n \<le> 256"
  shows "read_sectors d m buffer sector n = Inr (copied d (unat sector * 512) (n * 512) buffer m)"
  using assms(2-)
proof (induction n arbitrary: m buffer sector)
  case 0
  then show ?case by (simp add: copied_def)
next
  case (Suc n)
  let ?m = "store_bytes m buffer (sector_bytes d sector)"
  have m: "?m x = (if unat (x - buffer) < 512 then disk d (unat sector * 512 + unat (x - buffer)) else m x)" for x
    by (simp add: store_bytes_nth sector_bytes_def)
  have shift: "unat (x - (buffer + 512)) = (if unat (x - buffer) < 512 then 2 ^ 32 - 512 + unat (x - buffer) else unat (x - buffer) - 512)" for x
  proof (cases "unat (x - buffer) < 512")
    case True
    have "x - (buffer + 512) = x - buffer + of_nat (2 ^ 32 - 512)" by simp
    also have "unat \<dots> = unat (x - buffer) + (2 ^ 32 - 512)" using True by (simp add: unat_word_ariths)
    finally show ?thesis using True by simp
  next
    case False
    then have "unat (x - buffer - 512) = unat (x - buffer) - 512" by (subst unat_sub) (auto simp: word_le_nat_alt)
    then show ?thesis using False by (simp add: diff_diff_eq)
  qed
  have "read_sectors d m buffer sector (Suc n) = read_sectors d ?m (buffer + 512) (sector + 1) n"
    using assms(1) by (simp add: drive_ready_def)
  also have "\<dots> = Inr (copied d (unat (sector + 1) * 512) (n * 512) (buffer + 512) ?m)"
    using Suc.prems by (intro Suc.IH) (simp_all add: next_sector)
  also have "copied d (unat (sector + 1) * 512) (n * 512) (buffer + 512) ?m = copied d (unat sector * 512) (Suc n * 512) buffer m"
    using Suc.prems by (auto simp: copied_def fun_eq_iff m shift next_sector)
  finally show ?case .
qed

lemma sector_address_less: "unat (sector_address lba) < 2 ^ 28"
proof -
  have "sector_address lba = take_bit 28 (lba + 0x800)"
    by (simp add: sector_address_def take_bit_eq_mask mask_eq_exp_minus_1)
  then show ?thesis by (simp add: unsigned_take_bit_eq take_bit_nat_less_exp [of 28, simplified])
qed

lemma sector_count_small: "count \<noteq> 0 \<Longrightarrow> sector_count count = unat count"
  using unat_gt_0 [of count] by (simp add: sector_count_def unat_minus_one)

lemma readLBA_copies:
  assumes "drive_ready d" "count \<noteq> 0"
  shows "readLBA d m lba count buffer =
     Inr (copied d (unat (sector_address lba) * 512) (unat count * 512) buffer m)"
proof -
  have "unat count < 256" using unsigned_less [of count] by simp
  then show ?thesis
    using assms sector_address_less [of lba] read_sectors_copies [OF assms(1)]
    by (simp add: readLBA_def sector_count_small drive_ready_def)
qed

text \<open>The disk after \<open>len\<close> bytes of memory have been written to it.\<close>

definition written_to :: "drive \<Rightarrow> nat \<Rightarrow> nat \<Rightarrow> u32 \<Rightarrow> memory \<Rightarrow> drive" where
  "written_to d at len buffer m =
     d\<lparr>disk := (\<lambda>k. if at \<le> k \<and> k < at + len then m (buffer + of_nat (k - at)) else disk d k)\<rparr>"

lemma written_to_cong:
  assumes "\<And>j. j < len \<Longrightarrow> m (buffer + of_nat j) = m' (buffer + of_nat j)"
  shows "written_to d at len buffer m = written_to d at len buffer m'"
proof -
  have "(\<lambda>k. if at \<le> k \<and> k < at + len then m (buffer + of_nat (k - at)) else disk d k) =
      (\<lambda>k. if at \<le> k \<and> k < at + len then m' (buffer + of_nat (k - at)) else disk d k)"
    using assms by (intro ext) (auto simp del: of_nat_diff)
  then show ?thesis by (simp only: written_to_def)
qed

lemma drive_ready_disk [simp]: "drive_ready (d\<lparr>disk := f\<rparr>) = drive_ready d"
  by (simp add: drive_ready_def)

lemma drive_ready_written [simp]: "drive_ready (written_to d at len buffer m) = drive_ready d"
  by (simp add: written_to_def)

lemma write_sectors_writes:
  assumes "drive_ready d" "unat sector + n < 2 ^ 31"
  shows "write_sectors d m buffer sector n = Inr (written_to d (unat sector * 512) (n * 512) buffer m)"
  using assms
proof (induction n arbitrary: d buffer sector)
  case 0
  have "(\<lambda>k. if a \<le> k \<and> k < a then b k else disk d k) = disk d" for a :: nat and b
    by (rule ext) auto
  then show ?case by (simp add: written_to_def)
next
  case (Suc n)
  let ?d = "write_sector d m buffer sector"
  have ready: "drive_ready ?d" using Suc.prems(1) by (simp add: write_sector_def)
  have "write_sectors d m buffer sector (Suc n) = write_sectors ?d m (buffer + 512) (sector + 1) n"
    using Suc.prems(1) ready by (auto simp: drive_ready_def Let_def split_def) (metis bindE_Inr)
  also have "\<dots> = Inr (written_to ?d (unat (sector + 1) * 512) (n * 512) (buffer + 512) m)"
    using Suc.prems ready by (intro Suc.IH) (simp_all add: next_sector)
  also have "written_to ?d (unat (sector + 1) * 512) (n * 512) (buffer + 512) m =
      written_to d (unat sector * 512) (Suc n * 512) buffer m"
  proof -
    have "buffer + 512 + of_nat (k - (unat sector * 512 + 512)) = buffer + of_nat (k - unat sector * 512)"
      if "unat sector * 512 + 512 \<le> k" for k
      using that by (simp add: of_nat_diff)
    moreover have "unat (sector + 1) = unat sector + 1" using Suc.prems by (intro next_sector) simp
    ultimately have "disk (written_to ?d (unat (sector + 1) * 512) (n * 512) (buffer + 512) m) k =
        disk (written_to d (unat sector * 512) (Suc n * 512) buffer m) k" for k
      by (auto simp: written_to_def write_sector_def)
    then show ?thesis by (simp add: written_to_def write_sector_def fun_eq_iff)
  qed
  finally show ?case .
qed

lemma writeLBA_writes:
  assumes "drive_ready d" "count \<noteq> 0"
  shows "writeLBA d m lba count buffer =
     Inr (written_to d (unat (sector_address lba) * 512) (unat count * 512) buffer m)"
proof -
  have "unat count < 256" using unsigned_less [of count] by simp
  then show ?thesis
    using assms sector_address_less [of lba] write_sectors_writes [OF assms(1)]
    by (simp add: writeLBA_def sector_count_small drive_ready_def)
qed

end
