(* ===== verification/Regions.thy ===== *)
theory Regions
  imports Kmemory
begin

text \<open>
  Regions of memory: the addresses that an object of a given size takes up from its first address
  on, which may wrap around.  Accesses to disjoint regions do not disturb each other.
\<close>

definition region :: "u32 \<Rightarrow> nat \<Rightarrow> u32 set" where
  "region a n = {x. unat (x - a) < n}"

definition separate :: "u32 \<Rightarrow> nat \<Rightarrow> u32 \<Rightarrow> nat \<Rightarrow> bool" where
  "separate a n b k \<longleftrightarrow> region a n \<inter> region b k = {}"

lemma region_iff: "x \<in> region a n \<longleftrightarrow> unat (x - a) < n"
  by (simp add: region_def)

lemma separate_sym: "separate a n b k \<Longrightarrow> separate b k a n"
  by (auto simp: separate_def)

lemma separateD: "separate a n b k \<Longrightarrow> x \<in> region a n \<Longrightarrow> x \<notin> region b k"
  by (auto simp: separate_def)

lemma separate_mono: "separate a n b k \<Longrightarrow> region a' n' \<subseteq> region a n \<Longrightarrow> region b' k' \<subseteq> region b k \<Longrightarrow> separate a' n' b' k'"
  by (auto simp: separate_def)

lemma unat_diff_next: "unat (x - (a + 1)) = (if x = a then 2 ^ 32 - 1 else unat (x - a) - 1)" for x a :: u32
proof (cases "x = a")
  case True
  then have "x - (a + 1) = - 1" by simp
  then have "unat (x - (a + 1)) = 2 ^ 32 - 1"
    by (simp only:) (simp add: unsigned_minus_1_eq_mask mask_eq_exp_minus_1)
  then show ?thesis using True by simp
next
  case False
  then have "x - a \<noteq> 0" by simp
  then show ?thesis using False by (metis diff_diff_add unat_minus_one)
qed

lemma unat_plus_le: "unat (a + b) \<le> unat a + unat b" for a b :: u32
  by (simp add: unat_word_ariths)

lemma region_shift:
  assumes "unat k + n \<le> l"
  shows "region (a + k) n \<subseteq> region a l"
proof
  fix x assume "x \<in> region (a + k) n"
  then have less: "unat (x - (a + k)) < n" by (simp add: region_iff)
  have "x - a = (x - (a + k)) + k" by simp
  then have "unat (x - a) \<le> unat (x - (a + k)) + unat k" by (metis unat_plus_le)
  then show "x \<in> region a l" using less assms by (simp add: region_iff)
qed

lemma region_mono: "n \<le> l \<Longrightarrow> region a n \<subseteq> region a l"
  by (auto simp: region_iff)

lemma region_Suc: "n < 2 ^ 32 \<Longrightarrow> region a (Suc n) = insert a (region (a + 1) n)"
proof (rule set_eqI)
  fix x assume "n < 2 ^ 32"
  then show "x \<in> region a (Suc n) \<longleftrightarrow> x \<in> insert a (region (a + 1) n)"
    using unat_gt_0 [of "x - a"] by (cases "x = a") (auto simp: region_iff unat_diff_next)
qed

text \<open>Regions that do not wrap around are separate when one ends before the other begins.\<close>

lemma separate_before:
  assumes "unat a + n \<le> unat b" "unat b + k \<le> 2 ^ 32"
  shows "separate a n b k"
proof -
  have "unat x < unat a + n" if "unat (x - a) < n" for x
  proof -
    have "x = a + (x - a)" by simp
    then have "unat x \<le> unat a + unat (x - a)" by (metis unat_plus_le)
    then show ?thesis using that by simp
  qed
  moreover have "unat b \<le> unat x" if "unat (x - b) < k" for x
  proof -
    have "unat (b + y) = unat b + unat y" if "unat y < k" for y
      using that assms(2) by (simp add: unat_word_ariths)
    from this [OF that] show ?thesis by simp
  qed
  ultimately show ?thesis using assms(1) by (fastforce simp: separate_def region_iff)
qed

lemma separate_after: "unat b + k \<le> unat a \<Longrightarrow> unat a + n \<le> 2 ^ 32 \<Longrightarrow> separate a n b k"
  by (rule separate_sym) (rule separate_before)

subsection \<open>Words\<close>

lemma store32_elsewhere: "x \<notin> region a 4 \<Longrightarrow> store32 m a v x = m x"
  by (auto simp: store32_def region_iff)

lemma load32_cong_region: "(\<And>x. x \<in> region a 4 \<Longrightarrow> m x = m' x) \<Longrightarrow> load32 m a = load32 m' a"
  by (simp add: load32_def region_iff)

lemma load32_store32_separate [mem_simps]:
  assumes "separate a 4 b 4"
  shows "load32 (store32 m a v) b = load32 m b"
  using separateD [OF separate_sym [OF assms]] by (intro load32_cong_region store32_elsewhere)

subsection \<open>Copies\<close>

lemma mem_copy_loop_region:
  assumes "separate d n s n" "n \<le> 2 ^ 32"
  shows "mem_copy_loop m d s n x = (if x \<in> region d n then m (s + (x - d)) else m x)"
  using assms
proof (induction n arbitrary: m d s)
  case 0
  then show ?case by (simp add: region_iff)
next
  case (Suc n)
  have d: "region d (Suc n) = insert d (region (d + 1) n)" and s: "region s (Suc n) = insert s (region (s + 1) n)"
    using Suc.prems(2) by (simp_all add: region_Suc)
  have sep: "separate (d + 1) n (s + 1) n" using Suc.prems(1) by (auto simp: separate_def d s)
  have other: "s + (x - d) \<noteq> d" if "x \<in> region d (Suc n)"
  proof -
    have "s + (x - d) \<in> region s (Suc n)" "d \<in> region d (Suc n)" using that by (simp_all add: region_iff)
    then show ?thesis using Suc.prems(1) unfolding separate_def by (metis IntI empty_iff)
  qed
  have outside: "d \<notin> region (d + 1) n" unfolding region_iff unat_diff_next using Suc.prems(2) by simp
  have "mem_copy_loop m d s (Suc n) x =
      (if x \<in> region (d + 1) n then (m(d := m s)) (s + 1 + (x - (d + 1))) else (m(d := m s)) x)"
    using Suc.IH [OF sep] Suc.prems(2) by simp
  then show ?case using other outside by (auto simp: d)
qed

end
