(* ===== verification/Filesystem_Props.thy ===== *)
theory Filesystem_Props
  imports Filesystem Ata_Props Regions
begin

text \<open>
  The data of files: positions of blocks and inodes on the disk, the effect of the operations on
  whole blocks, and the round trip of data through the direct blocks of a file.
\<close>

subsection \<open>Fields\<close>

lemma set_mem_fs [simp]:
  fixes s :: "'z filesystem_scheme"
  shows "spb (set_mem s m) = spb s" "bgpt (set_mem s m) = bgpt s" "block_factor (set_mem s m) = block_factor s"
    "block_size (set_mem s m) = block_size s" "bgpt_size (set_mem s m) = bgpt_size s"
    "std_buf (set_mem s m) = std_buf s" "std_inode (set_mem s m) = std_inode s" "drv (set_mem s m) = drv s"
    "set_mem (s\<lparr>drv := d\<rparr>) m = (set_mem s m)\<lparr>drv := d\<rparr>" "mem (s\<lparr>drv := d\<rparr>) = mem s"
  by (simp_all add: set_mem_def mem_def cong: if_cong)

lemma copied_outside: "x \<notin> region buffer n \<Longrightarrow> copied d from n buffer m x = m x"
  by (simp add: copied_def region_iff)

lemma copied_inside: "x \<in> region buffer n \<Longrightarrow> copied d from n buffer m x = disk d (from + unat (x - buffer))"
  by (simp add: copied_def region_iff)

subsection \<open>Positions on the disk\<close>

text \<open>A volume whose block size is the one that the file system has computed, of at most 64 KiB.\<close>

definition volume_ok :: "'z filesystem_scheme \<Rightarrow> bool" where
  "volume_ok s \<longleftrightarrow> drive_ready (drv s) \<and> 0 < unat (block_factor s) \<and> unat (block_factor s) \<le> 128 \<and>
     block_size s = 512 * block_factor s \<and> inode_per_group (spb s) \<noteq> 0"

definition in_volume :: "'z filesystem_scheme \<Rightarrow> u32 \<Rightarrow> bool" where
  "in_volume s b \<longleftrightarrow> unat (block_factor s) * unat b + 0x800 + 128 \<le> 2 ^ 28"

definition block_pos :: "'z filesystem_scheme \<Rightarrow> u32 \<Rightarrow> nat" where
  "block_pos s b = unat (sector_address (BLOCK s b)) * 512"

definition inode_pos :: "'z filesystem_scheme \<Rightarrow> u32 \<Rightarrow> nat" where
  "inode_pos s inode =
     (let group = (inode - 1) div inode_per_group (spb s);
          offset = ((inode - 1) mod inode_per_group (spb s)) * SIZE_INODE
      in unat (sector_address (BLOCK s (inode_table_address s group) + drop_bit 9 offset)) * 512 + unat (offset mod 512))"

lemma block_size_nat:
  assumes "volume_ok s"
  shows "unat (block_size s) = 512 * unat (block_factor s)" "0 < unat (block_size s)" "unat (block_size s) \<le> 65536"
  using assms by (simp_all add: volume_ok_def unat_word_ariths)

lemma sector_address_small:
  assumes "unat lba + 0x800 < 2 ^ 28"
  shows "unat (sector_address lba) = unat lba + 0x800"
proof -
  have "sector_address lba = take_bit 28 (lba + 0x800)"
    by (simp add: sector_address_def take_bit_eq_mask mask_eq_exp_minus_1)
  moreover have "unat (lba + 0x800) = unat lba + 0x800" using assms by (simp add: unat_word_ariths)
  ultimately show ?thesis using assms by (simp add: unsigned_take_bit_eq take_bit_nat_eq_self)
qed

lemma block_position:
  assumes "volume_ok s" "in_volume s b" "unat ofs < unat (block_size s)"
  shows "unat (sector_address (BLOCK s b + drop_bit 9 ofs)) * 512 + unat (ofs mod 512) = block_pos s b + unat ofs"
proof -
  have b: "unat (BLOCK s b) = unat (block_factor s) * unat b"
    using assms(2) by (simp add: BLOCK_def in_volume_def unat_word_ariths)
  have k: "unat (drop_bit 9 ofs) = unat ofs div 512" by (simp add: drop_bit_eq_div unat_div)
  have "unat ofs div 512 < 128" using assms(1,3) block_size_nat [OF assms(1)] by (simp add: less_mult_imp_div_less)
  moreover from this have sum: "unat (BLOCK s b + drop_bit 9 ofs) = unat (BLOCK s b) + unat ofs div 512"
    using assms(2) b k by (simp add: unat_word_ariths in_volume_def)
  ultimately have "unat (sector_address (BLOCK s b + drop_bit 9 ofs)) = unat (sector_address (BLOCK s b)) + unat ofs div 512"
    using assms(2) b by (simp add: sector_address_small in_volume_def)
  then show ?thesis by (simp add: block_pos_def unat_mod)
qed

subsection \<open>Reading and writing\<close>

lemma read_pio_block:
  assumes "volume_ok s" "in_volume s b" "unat ofs + unat len \<le> unat (block_size s)" "unat ofs < unat (block_size s)"
  shows "read_pio s (BLOCK s b) ofs len buffer =
     Inr (set_mem s (copied (drv s) (block_pos s b + unat ofs) (unat len) buffer (mem s)))"
proof -
  have "unat (ofs mod 512) < 512" by (simp add: unat_mod)
  then have "unat (ofs mod 512) + unat len \<le> 131072" using assms block_size_nat [OF assms(1)] by simp
  then show ?thesis
    using assms(1) block_position [OF assms(1,2,4)] by (simp add: read_pio_def readPIO_range volume_ok_def)
qed

lemma set_inode_reads:
  assumes "volume_ok s"
  shows "set_inode s inode buffer =
     Inr (set_mem s (copied (drv s) (inode_pos s inode) 128 buffer (mem s)))"
proof -
  let ?offset = "((inode - 1) mod inode_per_group (spb s)) * SIZE_INODE"
  have "unat (?offset mod 512) < 512" by (simp add: unat_mod)
  then have "unat (?offset mod 512) + unat (128 :: u32) \<le> 131072" by simp
  then show ?thesis
    using assms by (simp add: set_inode_def udiv_def volume_ok_def read_pio_def readPIO_range Let_def inode_pos_def)
qed

lemma read_lba_block:
  assumes "volume_ok s"
  shows "read_lba s (BLOCK s b) (block_factor s) buffer =
     Inr (set_mem s (copied (drv s) (block_pos s b) (unat (block_size s)) buffer (mem s)))"
proof -
  have "unat (ucast (block_factor s) :: u8) = unat (block_factor s)"
    using assms by (simp add: volume_ok_def unsigned_ucast_eq unsigned_take_bit_eq take_bit_nat_eq_self)
  moreover from this have "(ucast (block_factor s) :: u8) \<noteq> 0" using assms by (auto simp: volume_ok_def)
  moreover have ready: "drive_ready (drv s)" using assms by (simp add: volume_ok_def)
  ultimately show ?thesis
    using ready by (simp add: read_lba_def readLBA_copies block_pos_def block_size_nat [OF assms] mult.commute)
qed

lemma write_lba_block:
  assumes "volume_ok s"
  shows "write_lba s (BLOCK s b) (block_factor s) buffer =
     Inr (s\<lparr>drv := written_to (drv s) (block_pos s b) (unat (block_size s)) buffer (mem s)\<rparr>)"
proof -
  have "unat (ucast (block_factor s) :: u8) = unat (block_factor s)"
    using assms by (simp add: volume_ok_def unsigned_ucast_eq unsigned_take_bit_eq take_bit_nat_eq_self)
  moreover from this have "(ucast (block_factor s) :: u8) \<noteq> 0" using assms by (auto simp: volume_ok_def)
  moreover have ready: "drive_ready (drv s)" using assms by (simp add: volume_ok_def)
  ultimately show ?thesis
    using ready by (simp add: write_lba_def writeLBA_writes block_pos_def block_size_nat [OF assms] mult.commute)
qed

lemma volume_ok_updates [simp]:
  "volume_ok (set_mem s m) = volume_ok s" "volume_ok (s\<lparr>drv := written_to (drv s) at len b m\<rparr>) = volume_ok s"
  by (simp_all add: volume_ok_def)

lemma position_updates [simp]:
  "BLOCK (set_mem s m) b = BLOCK s b" "BLOCK (s\<lparr>drv := d\<rparr>) b = BLOCK s b"
  "block_pos (set_mem s m) b = block_pos s b" "block_pos (s\<lparr>drv := d\<rparr>) b = block_pos s b"
  "in_volume (set_mem s m) b = in_volume s b" "in_volume (s\<lparr>drv := d\<rparr>) b = in_volume s b"
  by (simp_all add: BLOCK_def block_pos_def in_volume_def)

text \<open>Updating a part of a block changes exactly this part on the disk, and memory only in \<^verbatim>\<open>std_buf\<close>.\<close>

lemma update_block_effect:
  assumes s: "volume_ok s" and b: "in_volume s b"
    and len: "unat ofs + unat len \<le> unat (block_size s)" and ofs: "unat ofs < unat (block_size s)"
    and sep: "separate (std_buf s) (unat (block_size s)) buffer (unat len)"
  obtains m where "update_block s buffer ofs len (BLOCK s b) =
      Inr ((set_mem s m)\<lparr>drv := written_to (drv s) (block_pos s b + unat ofs) (unat len) buffer (mem s)\<rparr>)"
    "\<And>x. x \<notin> region (std_buf s) (unat (block_size s)) \<Longrightarrow> m x = mem s x"
proof -
  define m1 where "m1 = copied (drv s) (block_pos s b) (unat (block_size s)) (std_buf s) (mem s)"
  define m2 where "m2 = mem_copy_loop m1 (std_buf s + ofs) buffer (unat len)"
  have bs: "0 < unat (block_size s)" "unat (block_size s) \<le> 65536" using block_size_nat [OF s] by auto
  have quot: "ofs div block_size s = 0" "ofs mod block_size s = ofs"
    using ofs by (simp_all add: u32_eq_iff_unat unat_div unat_mod)
  have nowrap: "\<not> ofs + len < ofs"
    using len bs by (simp add: word_less_nat_alt unat_word_ariths)
  have sub: "region (std_buf s + ofs) (unat len) \<subseteq> region (std_buf s) (unat (block_size s))"
    using len by (intro region_shift)
  have sep': "separate (std_buf s + ofs) (unat len) buffer (unat len)"
    using sep sub by (rule separate_mono) simp
  have m1: "m1 x = mem s x" if "x \<in> region buffer (unat len)" for x
    using separateD [OF separate_sym [OF sep] that] by (simp add: m1_def copied_outside)
  have m2: "m2 x = (if x \<in> region (std_buf s + ofs) (unat len) then mem s (buffer + (x - (std_buf s + ofs))) else m1 x)" for x
    unfolding m2_def using sep' len bs by (simp add: mem_copy_loop_region m1 region_iff)
  have "m2 x = mem s x" if "x \<notin> region (std_buf s) (unat (block_size s))" for x
    using that sub by (auto simp: m2 m1_def copied_outside)
  moreover
  have written: "m2 (std_buf s + of_nat j) = (if unat ofs \<le> j \<and> j < unat ofs + unat len
      then mem s (buffer + of_nat (j - unat ofs)) else disk (drv s) (block_pos s b + j))" if "j < unat (block_size s)" for j
  proof -
    have j: "unat (of_nat j :: u32) = j" using that bs by simp
    have "std_buf s + of_nat j - (std_buf s + ofs) = of_nat j - ofs" by simp
    moreover have "unat (of_nat j - ofs) < unat len \<longleftrightarrow> unat ofs \<le> j \<and> j < unat ofs + unat len"
    proof (cases "unat ofs \<le> j")
      case True
      then have "unat (of_nat j - ofs) = j - unat ofs" using j by (simp add: unat_sub word_le_nat_alt)
      then show ?thesis using True by auto
    next
      case False
      then have less: "of_nat j < ofs" using j by (simp add: word_less_nat_alt)
      have "unat (of_nat j - ofs) \<ge> 2 ^ 32 - 65536"
        using less False ofs bs by (simp add: unat_sub_if_size j word_size)
      then show ?thesis using False len bs by simp
    qed
    moreover have "of_nat (j - unat ofs) = of_nat j - ofs" if "unat ofs \<le> j" using that by (simp add: of_nat_diff)
    moreover have "std_buf s + of_nat j \<in> region (std_buf s) (unat (block_size s))" using that j by (simp add: region_iff)
    ultimately show ?thesis using j by (simp add: m2 region_iff m1_def copied_inside)
  qed
  have "written_to (drv s) (block_pos s b) (unat (block_size s)) (std_buf s) m2 =
      written_to (drv s) (block_pos s b + unat ofs) (unat len) buffer (mem s)"
  proof -
    have "disk (written_to (drv s) (block_pos s b) (unat (block_size s)) (std_buf s) m2) k =
        disk (written_to (drv s) (block_pos s b + unat ofs) (unat len) buffer (mem s)) k" for k
    proof (cases "block_pos s b \<le> k \<and> k < block_pos s b + unat (block_size s)")
      case True
      then obtain j where "k = block_pos s b + j" "j < unat (block_size s)" by (metis add_less_cancel_left le_Suc_ex)
      then show ?thesis using written [of j] by (simp add: written_to_def)
    next
      case False
      then show ?thesis using len by (auto simp: written_to_def)
    qed
    then show ?thesis by (simp add: written_to_def fun_eq_iff)
  qed
  then have "update_block s buffer ofs len (BLOCK s b) =
      Inr ((set_mem s m2)\<lparr>drv := written_to (drv s) (block_pos s b + unat ofs) (unat len) buffer (mem s)\<rparr>)"
    using s nowrap quot write_lba_block [of "set_mem s m2" b "std_buf s"] read_lba_block [OF s, of b "std_buf s"] bs
    by (auto simp: update_block_def udiv_def m1_def [symmetric] m2_def [symmetric] Let_def)
  ultimately show ?thesis using that by blast
qed

subsection \<open>Data in direct blocks\<close>

text \<open>The block that an inode on the disk names for a part of its file.\<close>

definition direct_block :: "'z filesystem_scheme \<Rightarrow> u32 \<Rightarrow> u32 \<Rightarrow> u32" where
  "direct_block s inode n =
     load32 (copied (drv s) (inode_pos s inode) 128 (std_inode s) (mem s)) (std_inode s + 40 + 4 * n)"

text \<open>
  The kernel's buffers and the table of block groups do not overlap, and the \<open>n\<close>-th block of the
  file lies in the volume and not where the inode is stored.
\<close>

definition direct_ok :: "'z filesystem_scheme \<Rightarrow> u32 \<Rightarrow> u32 \<Rightarrow> bool" where
  "direct_ok s inode n \<longleftrightarrow> volume_ok s \<and> n < 12 \<and> in_volume s (direct_block s inode n) \<and>
     (let group = bgp s ((inode - 1) div inode_per_group (spb s)); b = block_pos s (direct_block s inode n)
      in separate (std_buf s) (unat (block_size s)) (std_inode s) 128 \<and>
         separate (std_buf s) (unat (block_size s)) group 32 \<and> separate (std_inode s) 128 group 32 \<and>
         (inode_pos s inode + 128 \<le> b \<or> b + unat (block_size s) \<le> inode_pos s inode))"

definition part_width :: "'z filesystem_scheme \<Rightarrow> u32 \<Rightarrow> u32 \<Rightarrow> u32" where
  "part_width s offset len = (if len > block_size s - offset mod block_size s then block_size s - offset mod block_size s else len)"

lemma part_width_bounds:
  assumes "volume_ok s"
  shows "unat (offset mod block_size s) + unat (part_width s offset len) \<le> unat (block_size s)"
    "unat (offset mod block_size s) < unat (block_size s)" "unat (part_width s offset len) \<le> unat len"
proof -
  have less: "unat (offset mod block_size s) < unat (block_size s)"
    using block_size_nat(2) [OF assms] by (simp add: unat_mod)
  then have "unat (block_size s - offset mod block_size s) = unat (block_size s) - unat (offset mod block_size s)"
    by (simp add: unat_sub word_le_nat_alt)
  then show "unat (offset mod block_size s) + unat (part_width s offset len) \<le> unat (block_size s)"
    "unat (part_width s offset len) \<le> unat len"
    using less by (auto simp: part_width_def word_less_nat_alt)
qed (use block_size_nat(2) [OF assms] in \<open>simp add: unat_mod\<close>)

lemma inode_word_in_inode: "n < 12 \<Longrightarrow> region (std_inode s + 40 + 4 * n) 4 \<subseteq> region (std_inode s) 128" for n :: u32
proof -
  assume "n < 12"
  then have "unat (40 + 4 * n) + 4 \<le> 128" by (simp add: word_less_nat_alt unat_word_ariths)
  then show ?thesis using region_shift [of "40 + 4 * n" 4 128 "std_inode s"] by (simp add: add.assoc)
qed

lemma direct_block_cong:
  fixes s t :: "'z filesystem_scheme"
  assumes "n < 12" "std_inode t = std_inode s" "inode_pos t inode = inode_pos s inode"
    "\<And>j. j < 128 \<Longrightarrow> disk (drv t) (inode_pos s inode + j) = disk (drv s) (inode_pos s inode + j)"
  shows "direct_block t inode n = direct_block s inode n"
  unfolding direct_block_def assms(2,3)
proof (rule load32_cong_region)
  fix x assume "x \<in> region (std_inode s + 40 + 4 * n) 4"
  then have "x \<in> region (std_inode s) 128" using inode_word_in_inode [OF assms(1)] by blast
  then show "copied (drv t) (inode_pos s inode) 128 (std_inode s) (mem t) x =
      copied (drv s) (inode_pos s inode) 128 (std_inode s) (mem s) x"
    using assms(4) by (simp add: copied_inside region_iff)
qed

lemma inode_pos_cong:
  fixes s t :: "'z filesystem_scheme"
  assumes "spb t = spb s" "bgpt t = bgpt s" "block_factor t = block_factor s"
    "\<And>x. x \<in> region (bgp s ((inode - 1) div inode_per_group (spb s))) 32 \<Longrightarrow> mem t x = mem s x"
  shows "inode_pos t inode = inode_pos s inode"
proof -
  let ?g = "bgp s ((inode - 1) div inode_per_group (spb s))"
  have "region (?g + 8) 4 \<subseteq> region ?g 32" by (rule region_shift) simp
  then have "load32 (mem t) (?g + 8) = load32 (mem s) (?g + 8)"
    using assms(4) by (intro load32_cong_region) blast
  then show ?thesis using assms(1-3) by (simp add: inode_pos_def inode_table_address_def bgp_def BLOCK_def Let_def)
qed

lemma write_direct:
  assumes "direct_ok s inode (offset div block_size s)"
    and "separate (std_buf s) (unat (block_size s)) buffer (unat (part_width s offset len))"
    and "separate (std_inode s) 128 buffer (unat (part_width s offset len))"
  obtains m where "write_inode_data s inode buffer offset len =
      Inr (part_width s offset len, (set_mem s m)\<lparr>drv := written_to (drv s)
        (block_pos s (direct_block s inode (offset div block_size s)) + unat (offset mod block_size s))
        (unat (part_width s offset len)) buffer (mem s)\<rparr>)"
    "\<And>x. x \<notin> region (std_buf s) (unat (block_size s)) \<Longrightarrow> x \<notin> region (std_inode s) 128 \<Longrightarrow> m x = mem s x"
proof -
  let ?n = "offset div block_size s" and ?ofs = "offset mod block_size s" and ?w = "part_width s offset len"
  let ?M = "copied (drv s) (inode_pos s inode) 128 (std_inode s) (mem s)"
  let ?s = "set_mem s ?M" and ?b = "direct_block s inode (offset div block_size s)"
  have s: "volume_ok s" and n: "?n < 12" and b: "in_volume s ?b" using assms(1) by (auto simp: direct_ok_def)
  note w = part_width_bounds(1) [OF s, of offset len] part_width_bounds(2) [OF s, of offset]
  obtain m where m: "update_block ?s buffer ?ofs ?w (BLOCK s ?b) =
      Inr ((set_mem ?s m)\<lparr>drv := written_to (drv s) (block_pos s ?b + unat ?ofs) (unat ?w) buffer ?M\<rparr>)"
    "\<And>x. x \<notin> region (std_buf s) (unat (block_size s)) \<Longrightarrow> m x = ?M x"
    using update_block_effect [of ?s ?b ?ofs ?w buffer] s b w(1,2) assms(2) by (auto simp del: mult.commute)
  have "?M (buffer + of_nat j) = mem s (buffer + of_nat j)" if "j < unat ?w" for j
  proof -
    have "unat (of_nat j :: u32) = j" using that unat_u32_less [of ?w] by simp
    then have "buffer + of_nat j \<in> region buffer (unat ?w)" using that by (simp add: region_iff)
    then show ?thesis using separateD [OF separate_sym [OF assms(3)]] by (simp add: copied_outside)
  qed
  then have "written_to (drv s) (block_pos s ?b + unat ?ofs) (unat ?w) buffer ?M =
      written_to (drv s) (block_pos s ?b + unat ?ofs) (unat ?w) buffer (mem s)"
    by (rule written_to_cong)
  moreover have "data_block ?s ?n = Inr (?b, ?s)" using n by (simp add: data_block_def direct_block_def dbp_def)
  ultimately have "write_inode_data s inode buffer offset len = Inr (?w, (set_mem s m)\<lparr>drv := written_to (drv s)
      (block_pos s ?b + unat ?ofs) (unat ?w) buffer (mem s)\<rparr>)"
    using m(1) s block_size_nat(2) [OF s]
    by (auto simp: write_inode_data_def udiv_def set_inode_reads Let_def part_width_def split: if_splits)
  moreover have "m x = mem s x" if "x \<notin> region (std_buf s) (unat (block_size s))" "x \<notin> region (std_inode s) 128" for x
    using m(2) [OF that(1)] that(2) by (simp add: copied_outside)
  ultimately show ?thesis using that by blast
qed

lemma read_direct:
  assumes "volume_ok s" "offset div block_size s < 12" "in_volume s (direct_block s inode (offset div block_size s))"
  obtains m where "read_inode_data s inode dest offset len = Inr (part_width s offset len, set_mem s m)"
    "\<And>j. j < unat (part_width s offset len) \<Longrightarrow> m (dest + of_nat j) =
       disk (drv s) (block_pos s (direct_block s inode (offset div block_size s)) + unat (offset mod block_size s) + j)"
    "\<And>x. x \<notin> region dest (unat (part_width s offset len)) \<Longrightarrow> x \<notin> region (std_inode s) 128 \<Longrightarrow> m x = mem s x"
proof -
  let ?n = "offset div block_size s" and ?ofs = "offset mod block_size s" and ?w = "part_width s offset len"
  let ?M = "copied (drv s) (inode_pos s inode) 128 (std_inode s) (mem s)" and ?b = "direct_block s inode (offset div block_size s)"
  let ?m = "copied (drv s) (block_pos s ?b + unat ?ofs) (unat ?w) dest ?M"
  note w = part_width_bounds(1) [OF assms(1), of offset len] part_width_bounds(2) [OF assms(1), of offset]
  have "data_block (set_mem s ?M) ?n = Inr (?b, set_mem s ?M)"
    using assms(2) by (simp add: data_block_def direct_block_def dbp_def)
  moreover have "read_pio (set_mem s ?M) (BLOCK (set_mem s ?M) ?b) ?ofs ?w dest = Inr (set_mem s ?m)"
    using read_pio_block [of "set_mem s ?M" ?b ?ofs ?w dest] assms w by simp
  ultimately have "read_inode_data s inode dest offset len = Inr (?w, set_mem s ?m)"
    using assms block_size_nat(2) [OF assms(1)]
    by (auto simp: read_inode_data_def udiv_def set_inode_reads Let_def part_width_def split: if_splits)
  moreover have "?m (dest + of_nat j) = disk (drv s) (block_pos s ?b + unat ?ofs + j)" if "j < unat ?w" for j
  proof -
    have "unat (of_nat j :: u32) = j" using that unat_u32_less [of ?w] by simp
    then show ?thesis using that by (simp add: copied_def)
  qed
  moreover have "?m x = mem s x" if "x \<notin> region dest (unat ?w)" "x \<notin> region (std_inode s) 128" for x
    using that by (simp add: copied_outside)
  ultimately show ?thesis using that by blast
qed


text \<open>A volume whose first inode has block 40 as its first block, and two bytes in memory.\<close>

definition example_volume :: filesystem where
  "example_volume = (boot_filesystem \<lparr>disk_id = 0, disk = (\<lambda>k. if k = 1048616 then 40 else 0),
       poll_status = (\<lambda>_. [8]), flush_status = (\<lambda>_. [0])\<rparr>)
     \<lparr>kmem := (\<lambda>a. if a = 0x40000 then 65 else if a = 0x40001 then 66 else 0), block_factor := 2, block_size := 1024,
      spb := \<lparr>inode_num = 2048, block_num = 8192, unalloc_block_num = 100, unalloc_inode_num = 100, spb_block_size = 0,
        block_per_group = 8192, inode_per_group = 2048, signature = 0xEF53, first_free_inode = 2\<rparr>,
      bgpt := 0x10000, bgpt_size := 1024, std_buf := 0x20000, std_inode := 0x30000\<rparr>"

lemma example_volume_fields [simp]:
  "block_factor example_volume = 2" "block_size example_volume = 1024" "bgpt example_volume = 0x10000"
  "std_buf example_volume = 0x20000" "std_inode example_volume = 0x30000"
  "inode_per_group (spb example_volume) = 2048" "block_per_group (spb example_volume) = 8192"
  "mem example_volume = (\<lambda>a. if a = 0x40000 then 65 else if a = 0x40001 then 66 else 0)"
  "drv example_volume = \<lparr>disk_id = 0, disk = (\<lambda>k. if k = 1048616 then 40 else 0),
     poll_status = (\<lambda>_. [8]), flush_status = (\<lambda>_. [0])\<rparr>"
  by (simp_all add: example_volume_def boot_filesystem_def mem_def)

lemma example_volume_ok: "volume_ok example_volume"
  by (simp add: volume_ok_def drive_ready_def poll_def)

lemma example_inode_pos: "inode_pos example_volume 1 = 1048576"
  by (simp add: inode_pos_def inode_table_address_def bgp_def BLOCK_def sector_address_def load32_def Let_def)

lemma example_direct_block: "direct_block example_volume 1 0 = 40"
  by (simp add: direct_block_def example_inode_pos copied_def load32_def)

lemma example_block_pos: "block_pos example_volume 40 = 1089536"
  by (simp add: block_pos_def BLOCK_def sector_address_def)


end
