(* ===== verification/Allocation_Props.thy ===== *)
theory Allocation_Props
  imports Filesystem_Props
begin

text \<open>
  Allocation of the blocks of a volume: what \<^verbatim>\<open>allocate_block\<close> takes when its search ends in the
  group it began in, and what it returns when the last group has no free block behind the hint.
\<close>

subsection \<open>The search in a bitmap\<close>

text \<open>What \<^verbatim>\<open>param_ffb\<close> finds is clear and not before the first bit asked for.\<close>

lemma param_ffb_loop_found:
  assumes "param_ffb_loop m b (of_nat i) j n \<noteq> - 1" "j < 32"
  shows "\<exists>x. param_ffb_loop m b (of_nat i) j n = of_nat x \<and> 32 * i + j \<le> x \<and> x < 32 * (i + n) \<and> \<not> bit_nr m b x"
  using assms
proof (induction n arbitrary: i j)
  case (Suc n)
  have next_i: "(of_nat i + 1 :: u32) = of_nat (Suc i)" by simp
  let ?w = "bits_at m b (of_nat i)"
  have skip: ?case if "param_ffb_loop m b (of_nat i) j (Suc n) = param_ffb_loop m b (of_nat (Suc i)) l n" "l < 32" for l
    using Suc.IH [of "Suc i" l] that Suc.prems by fastforce
  show ?case
  proof (cases "?w = 0xFFFFFFFF")
    case True
    then show ?thesis using Suc.prems(2) by (intro skip [of j]) (simp_all add: next_i del: of_nat_Suc)
  next
    case False
    show ?thesis
    proof (cases "clear_bit_from ?w j (32 - j)")
      case None
      then show ?thesis using False by (intro skip [of 0]) (simp_all add: next_i del: of_nat_Suc)
    next
      case (Some l)
      then have l: "j \<le> l" "l < 32" "\<not> bit ?w l" using clear_bit_from_spec [of j "32 - j" ?w] Suc.prems(2) by auto
      then have "\<not> bit_nr m b (32 * i + l)" by (simp add: bit_nr_def)
      then show ?thesis using Some False l by (intro exI [of _ "32 * i + l"]) simp
    qed
  qed
qed simp

lemma param_ffb_found:
  assumes "wf_bitset b" "unat first < unat (bits_length b)" "param_ffb m b first \<noteq> - 1"
  shows "unat first \<le> unat (param_ffb m b first)" "unat (param_ffb m b first) < unat (bits_length b)"
    "\<not> get_bit m b (param_ffb m b first)"
proof -
  let ?i = "unat first div 32" and ?l = "unat (bits_length b) div 32"
  have "unat (first div 32) = ?i" by (simp add: unat_div)
  moreover have "first div 32 = of_nat ?i" using index_of_nat [of first] by (simp add: INDEX_FROM_BIT_def)
  ultimately have r: "param_ffb m b first = param_ffb_loop m b (of_nat ?i) (unat first mod 32) (?l - ?i)"
    unfolding param_ffb_def offset_bound index_nat by (simp only:)
  have l: "?i + (?l - ?i) = ?l" "32 * ?l = unat (bits_length b)"
    using assms(1,2) by (simp_all add: wf_bitset_def div_le_mono)
  obtain x where x: "param_ffb m b first = of_nat x" "unat first \<le> x" "x < unat (bits_length b)" "\<not> bit_nr m b x"
    using param_ffb_loop_found [of m b ?i "unat first mod 32" "?l - ?i"] assms(3) unfolding r l by auto
  moreover have "unat (of_nat x :: u32) = x"
    using x(3) unat_u32_less [of "bits_length b"] by (intro unat_of_nat_u32) simp
  ultimately show "unat first \<le> unat (param_ffb m b first)" "unat (param_ffb m b first) < unat (bits_length b)"
    "\<not> get_bit m b (param_ffb m b first)"
    by (simp_all add: get_bit_nr)
qed

subsection \<open>The bitmap of a group\<close>

text \<open>The memory with the bitmap of a group in \<^verbatim>\<open>std_buf\<close>.\<close>

definition bitmap :: "'z filesystem_scheme \<Rightarrow> u32 \<Rightarrow> memory" where
  "bitmap s k = copied (drv s) (block_pos s (block_address_bitmap s k)) (unat (block_size s)) (std_buf s) (mem s)"

definition block_bits :: "'z filesystem_scheme \<Rightarrow> bitset" where
  "block_bits s = \<lparr>bits_length = block_per_group (spb s), bits_addr = std_buf s\<rparr>"

text \<open>The bitmap fits in the buffer, and the descriptor of the group is not in it.\<close>

definition group_ok :: "'z filesystem_scheme \<Rightarrow> u32 \<Rightarrow> bool" where
  "group_ok s k \<longleftrightarrow> volume_ok s \<and> wf_bitset (block_bits s) \<and> 0 < block_per_group (spb s) \<and>
     unat (block_per_group (spb s)) \<le> 8 * unat (block_size s) \<and>
     separate (bgp s k) 32 (std_buf s) (unat (block_size s))"

lemma load16_cong: "m a = m' a \<Longrightarrow> m (a + 1) = m' (a + 1) \<Longrightarrow> load16 m a = load16 m' a"
  by (simp add: load16_def)

lemma descriptor_cong:
  assumes "\<And>x. x \<in> region (bgp s k) 32 \<Longrightarrow> m x = mem s x"
  shows "block_address_bitmap (set_mem s m) k = block_address_bitmap s k"
    "unalloc_block (set_mem s m) k = unalloc_block s k"
proof -
  have "load32 m (bgp s k) = load32 (mem s) (bgp s k)"
    using assms region_mono [of 4 32 "bgp s k"] by (intro load32_cong_region) auto
  then show "block_address_bitmap (set_mem s m) k = block_address_bitmap s k"
    by (simp add: block_address_bitmap_def bgp_def)
  have "bgp s k + 12 \<in> region (bgp s k) 32" "bgp s k + 12 + 1 \<in> region (bgp s k) 32" by (simp_all add: region_iff add.assoc)
  then show "unalloc_block (set_mem s m) k = unalloc_block s k"
    using assms by (simp add: unalloc_block_def bgp_def load16_def)
qed

lemma bitmap_frame:
  assumes "group_ok s k" "x \<in> region (bgp s k) 32"
  shows "bitmap s k x = mem s x"
  using assms separateD [of "bgp s k" 32] by (auto simp: bitmap_def copied_outside group_ok_def)

lemma bitmap_twice:
  assumes "group_ok s k"
  shows "bitmap (set_mem s (bitmap s k)) k = bitmap s k"
proof -
  have "block_address_bitmap (set_mem s (bitmap s k)) k = block_address_bitmap s k"
    using assms by (intro descriptor_cong bitmap_frame)
  then show ?thesis by (simp add: bitmap_def copied_def fun_eq_iff)
qed

lemma bgp_updates [simp]: "bgp (set_mem s m) k = bgp s k" "bgp (s\<lparr>drv := d\<rparr>) k = bgp s k"
  by (simp_all add: bgp_def)

lemma group_ok_updates [simp]: "group_ok (set_mem s m) k = group_ok s k"
  by (simp add: group_ok_def block_bits_def)

text \<open>One group of the search.\<close>

lemma search_group:
  assumes "group_ok s k"
  shows "free_block_loop s b k (Suc n) p =
    (let t = set_mem s (bitmap s k); q = param_ffb (bitmap s k) b p
     in if unalloc_block s k = 0 then free_block_loop t b (k + 1) n (- 1)
        else if q \<noteq> - 1 then Inr (k, q, t) else free_block_loop t b (k + 1) n (q + 1))"
proof -
  have "volume_ok s" using assms by (simp add: group_ok_def)
  then have "read_lba s (BLOCK s (block_address_bitmap s k)) (block_factor s) (std_buf s) = Inr (set_mem s (bitmap s k))"
    by (simp add: read_lba_block bitmap_def)
  moreover have "unalloc_block (set_mem s (bitmap s k)) k = unalloc_block s k"
    using assms by (intro descriptor_cong bitmap_frame)
  ultimately show ?thesis by (simp add: Let_def)
qed

subsection \<open>Marking a block\<close>

lemma bit_word_in_buffer:
  assumes "group_ok s k" "unat i < unat (block_per_group (spb s))"
  shows "region (std_buf s + 4 * INDEX_FROM_BIT i) 4 \<subseteq> region (std_buf s) (unat (block_size s))"
proof (rule region_shift)
  have "32 dvd unat (block_per_group (spb s))" "unat (block_per_group (spb s)) \<le> 8 * unat (block_size s)"
    using assms(1) by (simp_all add: group_ok_def wf_bitset_def block_bits_def)
  then have "4 * (unat i div 32) + 4 \<le> unat (block_size s)"
    using assms(2) less_mult_imp_div_less [of "unat i" _ 32] by (fastforce elim!: dvdE simp: mult.commute)
  moreover have "unat (4 * INDEX_FROM_BIT i) = 4 * (unat i div 32)"
    using unat_u32_less [of i] by (simp add: unat_word_ariths INDEX_FROM_BIT_def unat_div)
  ultimately show "unat (4 * INDEX_FROM_BIT i) + 4 \<le> unat (block_size s)" by simp
qed

lemma get_block_bit_cong:
  assumes "group_ok s k" "unat i < unat (block_per_group (spb s))"
    "\<And>x. x \<in> region (std_buf s) (unat (block_size s)) \<Longrightarrow> m x = m' x"
  shows "get_bit m (block_bits s) i = get_bit m' (block_bits s) i"
proof -
  have "load32 m (std_buf s + 4 * INDEX_FROM_BIT i) = load32 m' (std_buf s + 4 * INDEX_FROM_BIT i)"
    using bit_word_in_buffer [OF assms(1,2)] assms(3) by (intro load32_cong_region) blast
  then show ?thesis by (simp add: get_bit_def bits_at_def block_bits_def)
qed

lemma set_block_bit_frame:
  assumes "group_ok s k" "unat i < unat (block_per_group (spb s))" "x \<in> region (bgp s l) 32"
    "separate (bgp s l) 32 (std_buf s) (unat (block_size s))"
  shows "set_bit_c m (block_bits s) i v x = m x"
proof -
  have "x \<notin> region (std_buf s + 4 * INDEX_FROM_BIT i) 4"
    using bit_word_in_buffer [OF assms(1,2)] separateD [OF assms(4,3)] by blast
  then show ?thesis by (simp add: set_bit_c_def block_bits_def store32_elsewhere)
qed

text \<open>The table of groups is not written over the bitmap of the group.\<close>

definition table_sectors :: "'z filesystem_scheme \<Rightarrow> u8" where
  "table_sectors s = ucast (block_factor s * (bgpt_size s div block_size s))"

definition table_apart :: "'z filesystem_scheme \<Rightarrow> u32 \<Rightarrow> bool" where
  "table_apart s k \<longleftrightarrow> table_sectors s \<noteq> 0 \<and>
     (let p = block_pos s (block_address_bitmap s k)
      in p + unat (block_size s) \<le> block_pos s 1 \<or> block_pos s 1 + unat (table_sectors s) * 512 \<le> p)"

lemma flush_bgpt_writes:
  assumes "volume_ok s" "table_sectors s \<noteq> 0"
  shows "flush_bgpt s = Inr (s\<lparr>drv := written_to (drv s) (block_pos s 1) (unat (table_sectors s) * 512) (bgpt s) (mem s)\<rparr>)"
proof -
  have "block_size s \<noteq> 0" using block_size_nat(2) [OF assms(1)] by auto
  moreover have "drive_ready (drv s)" using assms(1) by (simp add: volume_ok_def)
  ultimately show ?thesis
    using assms(2) by (simp add: flush_bgpt_def udiv_def write_lba_def writeLBA_writes table_sectors_def block_pos_def)
qed

text \<open>
  Marking the bit \<open>q\<close> of the group \<open>k\<close>, whose bitmap is in the buffer, and flushing the table.
\<close>

definition mark_block :: "'z filesystem_scheme \<Rightarrow> u32 \<Rightarrow> u32 \<Rightarrow> 'z filesystem_scheme result" where
  "mark_block s k q =
     (let s = set_mem s (set_bit_c (mem s) (block_bits s) q True)
      in bindE (write_lba s (BLOCK s (block_address_bitmap s k)) (block_factor s) (std_buf s)) (\<lambda>s.
         let s = s\<lparr>spb := (spb s)\<lparr>unalloc_block_num := unalloc_block_num (spb s) - 1\<rparr>\<rparr>;
             s = write16 s (bgp s k + 12) (unalloc_block s k - 1)
         in flush_bgpt s))"

lemma spb_updates [simp]:
  "mem (s\<lparr>spb := x\<rparr>) = mem s" "set_mem (s\<lparr>spb := x\<rparr>) m = (set_mem s m)\<lparr>spb := x\<rparr>" "bgp (s\<lparr>spb := x\<rparr>) k = bgp s k"
  "block_pos (s\<lparr>spb := x\<rparr>) b = block_pos s b"
  "unalloc_block (s\<lparr>spb := x\<rparr>) k = unalloc_block s k" "unalloc_block (s\<lparr>drv := d\<rparr>) k = unalloc_block s k"
  "block_address_bitmap (s\<lparr>spb := x\<rparr>) k = block_address_bitmap s k"
  "block_address_bitmap (s\<lparr>drv := d\<rparr>) k = block_address_bitmap s k"
  by (simp_all add: mem_def set_mem_def bgp_def unalloc_block_def block_address_bitmap_def block_pos_def BLOCK_def cong: if_cong)

text \<open>The steps of marking, one after the other.\<close>

lemma mark_block_steps:
  fixes s :: "'z filesystem_scheme" and q k :: u32
  assumes "volume_ok s" "table_sectors s \<noteq> 0"
  defines "m \<equiv> set_bit_c (mem s) (block_bits s) q True"
  defines "p \<equiv> block_pos s (block_address_bitmap (set_mem s m) k)" and "v \<equiv> unalloc_block (set_mem s m) k - 1"
  defines "m' \<equiv> store16 m (bgp s k + 12) v"
  defines "d \<equiv> written_to (written_to (drv s) p (unat (block_size s)) (std_buf s) m)
      (block_pos s 1) (unat (table_sectors s) * 512) (bgpt s) m'"
  shows "mark_block s k q = Inr ((set_mem s m')\<lparr>drv := d, spb := (spb s)\<lparr>unalloc_block_num := unalloc_block_num (spb s) - 1\<rparr>\<rparr>)"
proof -
  let ?d = "written_to (drv s) p (unat (block_size s)) (std_buf s) m"
  let ?s = "(set_mem s m)\<lparr>drv := ?d\<rparr>"
  let ?t = "(set_mem s m')\<lparr>drv := ?d, spb := (spb s)\<lparr>unalloc_block_num := unalloc_block_num (spb s) - 1\<rparr>\<rparr>"
  have "write_lba (set_mem s m) (BLOCK s (block_address_bitmap (set_mem s m) k)) (block_factor s) (std_buf s) = Inr ?s"
    using write_lba_block [of "set_mem s m" "block_address_bitmap (set_mem s m) k" "std_buf s"] assms(1) by (simp add: p_def)
  then have "mark_block s k q = flush_bgpt (write16 (?s\<lparr>spb := (spb s)\<lparr>unalloc_block_num := unalloc_block_num (spb s) - 1\<rparr>\<rparr>)
      (bgp s k + 12) v)"
    by (simp add: mark_block_def m_def [symmetric] Let_def v_def)
  also have "\<dots> = flush_bgpt ?t"
    by (simp add: write16_def m'_def)
  also have "\<dots> = Inr (?t\<lparr>drv := d\<rparr>)"
  proof -
    have "table_sectors ?t = table_sectors s" "block_pos ?t 1 = block_pos s 1" "mem ?t = m'"
      by (simp_all add: table_sectors_def)
    moreover have "volume_ok ?t" using assms(1) by (simp add: volume_ok_def)
    ultimately show ?thesis using flush_bgpt_writes [of ?t] assms(2) by (simp add: d_def)
  qed
  finally show ?thesis by simp
qed

lemma load16_store16: "load16 (store16 m a v) a = v"
proof (rule bit_word_eqI)
  fix n assume "n < LENGTH(16)"
  then show "bit (load16 (store16 m a v) a) n \<longleftrightarrow> bit v n"
    by (auto simp: load16_def store16_def bit_simps)
qed

text \<open>What is on the disk and in the counters after marking a bit of the bitmap in the buffer.\<close>

lemma mark_block_effect:
  assumes g: "group_ok s k" and q: "unat q < unat (block_per_group (spb s))" and apart: "table_apart s k"
  shows "\<exists>s'. mark_block s k q = Inr s' \<and> block_per_group (spb s') = block_per_group (spb s) \<and>
    unalloc_block_num (spb s') = unalloc_block_num (spb s) - 1 \<and> unalloc_block s' k = unalloc_block s k - 1 \<and>
    (\<forall>i. unat i < unat (block_per_group (spb s)) \<longrightarrow>
      get_bit (bitmap s' k) (block_bits s) i = (i = q \<or> get_bit (mem s) (block_bits s) i))"
proof -
  have v: "volume_ok s" and wf: "wf_bitset (block_bits s)" and sep: "separate (bgp s k) 32 (std_buf s) (unat (block_size s))"
    using g by (simp_all add: group_ok_def)
  define m where "m = set_bit_c (mem s) (block_bits s) q True"
  define p where "p = block_pos s (block_address_bitmap s k)"
  define m' where "m' = store16 m (bgp s k + 12) (unalloc_block s k - 1)"
  define d where "d = written_to (written_to (drv s) p (unat (block_size s)) (std_buf s) m)
      (block_pos s 1) (unat (table_sectors s) * 512) (bgpt s) m'"
  define s' where "s' = (set_mem s m')\<lparr>drv := d, spb := (spb s)\<lparr>unalloc_block_num := unalloc_block_num (spb s) - 1\<rparr>\<rparr>"
  have frame: "m x = mem s x" if "x \<in> region (bgp s k) 32" for x
    using set_block_bit_frame [OF g q that sep] by (simp add: m_def)
  then have same: "block_address_bitmap (set_mem s m) k = block_address_bitmap s k"
      "unalloc_block (set_mem s m) k = unalloc_block s k"
    by (intro descriptor_cong; simp)+
  have "table_sectors s \<noteq> 0" using apart by (simp add: table_apart_def)
  from mark_block_steps [OF v this, of k q] have mark: "mark_block s k q = Inr s'"
    unfolding m_def [symmetric] same by (simp add: s'_def d_def p_def m'_def)
  have "load16 m' (bgp s k + 12) = unalloc_block s k - 1" by (simp add: m'_def load16_store16)
  then have counter: "unalloc_block s' k = unalloc_block s k - 1" by (simp add: s'_def unalloc_block_def bgp_def)
  have "load32 m' (bgp s k) = load32 m (bgp s k)"
    unfolding m'_def by (intro load32_cong_region) (auto simp: store16_def region_iff add.assoc)
  then have address: "block_address_bitmap s' k = block_address_bitmap s k"
    using same(1) by (simp add: s'_def block_address_bitmap_def bgp_def)
  have "bitmap s' k x = m x" if "x \<in> region (std_buf s) (unat (block_size s))" for x
  proof -
    have less: "unat (x - std_buf s) < unat (block_size s)" using that by (simp add: region_iff)
    have "bitmap s' k x = disk d (p + unat (x - std_buf s))"
      using that address by (simp add: bitmap_def copied_inside s'_def p_def)
    also have "\<dots> = m (std_buf s + of_nat (unat (x - std_buf s)))"
      using apart less by (auto simp: d_def written_to_def table_apart_def p_def [symmetric] Let_def)
    finally show ?thesis by simp
  qed
  then have "get_bit (bitmap s' k) (block_bits s) i = get_bit m (block_bits s) i" if "unat i < unat (block_per_group (spb s))" for i
    using get_block_bit_cong [OF g that] by blast
  moreover have "get_bit m (block_bits s) i = (i = q \<or> get_bit (mem s) (block_bits s) i)" if "unat i < unat (block_per_group (spb s))" for i
    using get_set_bit [OF wf, of q i "mem s" True] q that by (auto simp: m_def block_bits_def)
  ultimately show ?thesis using mark counter by (intro exI [of _ s']) (simp add: s'_def)
qed

subsection \<open>Allocation\<close>

definition last_group :: "'z filesystem_scheme \<Rightarrow> u32" where
  "last_group s = (block_num (spb s) - 1) div block_per_group (spb s)"

text \<open>The search begins in the group of \<open>prec\<close>.\<close>

lemma allocate_block_from_first_group:
  assumes g: "group_ok s k" and k: "k = prec div block_per_group (spb s)" "k \<le> last_group s"
    and free: "unalloc_block_num (spb s) \<noteq> 0" "unalloc_block s k \<noteq> 0"
  defines "q \<equiv> param_ffb (bitmap s k) (block_bits s) (prec mod block_per_group (spb s))"
  shows "allocate_block_from s prec =
    bindE (if q \<noteq> - 1 then Inr (k, q, set_mem s (bitmap s k))
           else free_block_loop (set_mem s (bitmap s k)) (block_bits s) (k + 1) (unat (last_group s) - unat k) (q + 1))
      (\<lambda>(k, p, t).
         if p \<noteq> - 1 then
           let t = set_mem t (set_bit_c (mem t) (block_bits s) p True)
           in bindE (write_lba t (BLOCK t (block_address_bitmap t k)) (block_factor t) (std_buf t)) (\<lambda>t.
              let t = t\<lparr>spb := (spb t)\<lparr>unalloc_block_num := unalloc_block_num (spb t) - 1\<rparr>\<rparr>;
                  t = write16 t (bgp t k + 12) (unalloc_block t k - 1)
              in bindE (flush_bgpt t) (\<lambda>t. Inr (Some (k * block_per_group (spb t) + p), t)))
         else Inr (None, t))"
proof -
  let ?t = "set_mem s (bitmap s k)"
  have v: "volume_ok s" and b: "block_per_group (spb s) \<noteq> 0" using g by (auto simp: group_ok_def)
  have read: "read_lba s (BLOCK s (block_address_bitmap s k)) (block_factor s) (std_buf s) = Inr ?t"
    using v by (simp add: read_lba_block bitmap_def)
  have "unalloc_block ?t k = unalloc_block s k" using g by (intro descriptor_cong bitmap_frame)
  moreover have "1 + unat (last_group s) - unat k = Suc (unat (last_group s) - unat k)"
    using k(2) by (simp add: word_le_nat_alt Suc_diff_le)
  moreover have "group_ok ?t k" using g by simp
  ultimately have "free_block_loop ?t (block_bits s) k (1 + unat (last_group s) - unat k) (prec mod block_per_group (spb s)) =
      (if q \<noteq> - 1 then Inr (k, q, ?t)
       else free_block_loop ?t (block_bits s) (k + 1) (unat (last_group s) - unat k) (q + 1))"
    using search_group [of ?t k] free(2) bitmap_twice [OF g] by (simp add: q_def Let_def)
  then show ?thesis
    using read b free(1) unfolding allocate_block_from_def block_bits_def last_group_def
    by (simp add: udiv_def k(1) [symmetric] Let_def)
qed

lemma block_bits_updates [simp]: "block_bits (set_mem s m) = block_bits s"
  by (simp add: block_bits_def)

lemma not_last_block:
  assumes "unat prec + 1 < unat n"
  shows "prec < n - 1" "\<not> n - 1 \<le> prec"
proof -
  have "n \<noteq> 0" using assms by auto
  then have "unat (n - 1) = unat n - 1" by (rule unat_minus_one)
  then show "prec < n - 1" "\<not> n - 1 \<le> prec" using assms by (simp_all add: word_less_nat_alt word_le_nat_alt)
qed

text \<open>The first block behind the last group.\<close>

lemma volume_end:
  assumes "0 < block_per_group (spb s)" "unat (block_num (spb s)) + unat (block_per_group (spb s)) \<le> 2 ^ 32"
  shows "block_num (spb s) \<le> (last_group s + 1) * block_per_group (spb s)"
proof (cases "block_num (spb s) = 0")
  case False
  let ?B = "unat (block_num (spb s) - 1)" and ?n = "unat (block_per_group (spb s))"
  have n: "0 < ?n" and B: "?B = unat (block_num (spb s)) - 1" "0 < unat (block_num (spb s))"
    using assms(1) False by (simp_all add: word_less_nat_alt unat_minus_one unat_gt_0)
  have "?B < (?B div ?n + 1) * ?n" "(?B div ?n + 1) * ?n \<le> ?B + ?n"
    using n dividend_less_div_times [of ?n ?B] by simp_all
  moreover from this have "unat ((last_group s + 1) * block_per_group (spb s)) = (?B div ?n + 1) * ?n"
  proof -
    have "?B div ?n + 1 < 2 ^ 32" using div_le_dividend [of ?B ?n] assms(2) B n by linarith
    then have "unat (last_group s + 1) = ?B div ?n + 1"
      by (simp add: last_group_def unat_word_ariths(1) unat_div)
    then show ?thesis
      using assms(2) B \<open>(?B div ?n + 1) * ?n \<le> ?B + ?n\<close> by (simp only: unat_word_ariths(2)) simp
  qed
  ultimately show ?thesis using B by (simp add: word_le_nat_alt)
qed simp

lemma last_group_not_first:
  assumes "prec \<noteq> 0" "prec < block_num (spb s) - 1"
  shows "prec div block_per_group (spb s) \<le> last_group s"
  using assms(2) by (simp add: last_group_def word_le_nat_alt word_less_nat_alt unat_div div_le_mono)

text \<open>
  C14: When the group of the block asked for has free blocks and the search in its bitmap finds one,
  \<^verbatim>\<open>allocate_block\<close> returns that block.  It is not before the block asked for and was free; in the
  bitmap on the disk exactly its bit has been set, and both counters of free blocks are one less.
\<close>
theorem allocate_block_takes_free:
  fixes s :: "'z filesystem_scheme" and prec :: u32
  defines "k \<equiv> prec div block_per_group (spb s)"
  defines "q \<equiv> param_ffb (bitmap s k) (block_bits s) (prec mod block_per_group (spb s))"
  assumes "group_ok s k" "table_apart s k" "prec \<noteq> 0" "unat prec + 1 < unat (block_num (spb s))"
    and "unalloc_block_num (spb s) \<noteq> 0" "unalloc_block s k \<noteq> 0" "q \<noteq> - 1"
    and "unat (block_num (spb s)) + unat (block_per_group (spb s)) \<le> 2 ^ 32"
  shows "\<exists>s'. allocate_block s prec = Inr (k * block_per_group (spb s) + q, s') \<and>
    prec \<le> k * block_per_group (spb s) + q \<and> \<not> get_bit (bitmap s k) (block_bits s) q \<and>
    (\<forall>i. unat i < unat (block_per_group (spb s)) \<longrightarrow>
      get_bit (bitmap s' k) (block_bits s) i = (i = q \<or> get_bit (bitmap s k) (block_bits s) i)) \<and>
    unalloc_block_num (spb s') = unalloc_block_num (spb s) - 1 \<and> unalloc_block s' k = unalloc_block s k - 1"
proof -
  let ?n = "block_per_group (spb s)" and ?t = "set_mem s (bitmap s k)"
  have k_eq: "k = prec div ?n" by (simp add: k_def)
  have n: "0 < ?n" "wf_bitset (block_bits s)" "bits_length (block_bits s) = ?n"
    using assms(3) by (simp_all add: group_ok_def block_bits_def)
  have "unat (prec mod ?n) < unat ?n" using n(1) by (simp add: unat_mod word_less_nat_alt)
  then have q: "unat (prec mod ?n) \<le> unat q" "unat q < unat ?n" "\<not> get_bit (bitmap s k) (block_bits s) q"
    using param_ffb_found [of "block_bits s" "prec mod ?n" "bitmap s k"] n assms(9) by (simp_all add: q_def)
  have same: "block_address_bitmap ?t k = block_address_bitmap s k" "unalloc_block ?t k = unalloc_block s k"
    using assms(3) by (intro descriptor_cong bitmap_frame; simp)+
  then have apart: "table_apart ?t k" using assms(4) by (simp add: table_apart_def table_sectors_def)
  obtain s' where s': "mark_block ?t k q = Inr s'" "block_per_group (spb s') = ?n"
    "unalloc_block_num (spb s') = unalloc_block_num (spb s) - 1" "unalloc_block s' k = unalloc_block s k - 1"
    "\<And>i. unat i < unat ?n \<Longrightarrow> get_bit (bitmap s' k) (block_bits s) i = (i = q \<or> get_bit (bitmap s k) (block_bits s) i)"
    using mark_block_effect [of ?t k q] assms(3) q(2) apart same(2) by auto
  have "allocate_block_from s prec = bindE (mark_block ?t k q) (\<lambda>t. Inr (Some (k * block_per_group (spb t) + q), t))"
    using allocate_block_from_first_group [OF assms(3) k_eq last_group_not_first [OF assms(5) not_last_block(1) [OF assms(6)], folded k_def] assms(7,8)] assms(9)
    unfolding q_def [symmetric] by (simp add: mark_block_def Let_def bindE_assoc)
  then have "allocate_block s prec = Inr (k * ?n + q, s')"
    using s'(1,2) assms(5) not_last_block(2) [OF assms(6)] by (simp add: allocate_block_def Let_def)
  moreover have "prec \<le> k * ?n + q"
  proof -
    have "unat k * unat ?n + unat (prec mod ?n) = unat prec" by (simp add: k_def unat_div unat_mod)
    moreover from this have "unat k * unat ?n + unat q < 2 ^ 32"
      using q(2) assms(6,10) by simp
    ultimately show ?thesis using q(1) by (simp add: word_le_nat_alt unat_word_ariths)
  qed
  ultimately show ?thesis using q(3) s'(3-5) by blast
qed


subsection \<open>An example\<close>

text \<open>
  A volume of 48 blocks in two groups of 32; in the second group only the block 34 is free, and the
  bits behind the end of the volume are set.
\<close>

definition example_groups :: filesystem where
  "example_groups = (boot_filesystem \<lparr>disk_id = 0,
       disk = (\<lambda>k. if k = 1052672 then 0xFB else if 1052673 \<le> k \<and> k < 1052676 then 0xFF else 0),
       poll_status = (\<lambda>_. [8]), flush_status = (\<lambda>_. [0])\<rparr>)
     \<lparr>kmem := (\<lambda>a. if a = 0x10020 then 4 else if a = 0x1002C then 1 else 0), block_factor := 2, block_size := 1024,
      spb := \<lparr>inode_num = 2048, block_num = 48, unalloc_block_num = 10, unalloc_inode_num = 100, spb_block_size = 0,
        block_per_group = 32, inode_per_group = 2048, signature = 0xEF53, first_free_inode = 2\<rparr>,
      bgpt := 0x10000, bgpt_size := 1024, std_buf := 0x20000, std_inode := 0x30000\<rparr>"

lemma example_groups_fields:
  "block_factor example_groups = 2" "block_size example_groups = 1024" "bgpt example_groups = 0x10000"
  "bgpt_size example_groups = 1024" "std_buf example_groups = 0x20000" "block_per_group (spb example_groups) = 32"
  "block_num (spb example_groups) = 48" "unalloc_block_num (spb example_groups) = 10"
  "inode_per_group (spb example_groups) = 2048"
  "mem example_groups = (\<lambda>a. if a = 0x10020 then 4 else if a = 0x1002C then 1 else 0)"
  "drv example_groups = \<lparr>disk_id = 0,
     disk = (\<lambda>k. if k = 1052672 then 0xFB else if 1052673 \<le> k \<and> k < 1052676 then 0xFF else 0),
     poll_status = (\<lambda>_. [8]), flush_status = (\<lambda>_. [0])\<rparr>"
  by (simp_all add: example_groups_def boot_filesystem_def mem_def)

lemma example_group_ok: "group_ok example_groups 1"
  by (simp add: group_ok_def volume_ok_def drive_ready_def poll_def wf_bitset_def block_bits_def example_groups_fields
      bgp_def separate_before)

lemma example_block_4: "block_address_bitmap example_groups 1 = 4" "block_pos example_groups 4 = 1052672"
  "unalloc_block example_groups 1 = 1" "last_group example_groups = 1" "table_sectors example_groups = 2"
  "block_pos example_groups 1 = 1049600"
  by (simp_all add: block_address_bitmap_def unalloc_block_def bgp_def block_pos_def BLOCK_def sector_address_def
      example_groups_fields load32_def load16_def last_group_def table_sectors_def)

lemma example_bitmap: "bits_at (bitmap example_groups 1) (block_bits example_groups) 0 = 0xFFFFFFFB"
  by (simp add: bits_at_def bitmap_def block_bits_def copied_def example_block_4 example_groups_fields load32_def)

lemma example_table_apart: "table_apart example_groups 1"
  by (simp add: table_apart_def example_block_4 example_groups_fields)

lemma example_found: "param_ffb (bitmap example_groups 1) (block_bits example_groups) 1 = 2"
proof -
  have "(1 :: u32) div 32 = 0" "unat (OFFSET_FROM_BIT 1) = 1"
    "unat (INDEX_FROM_BIT (bits_length (block_bits example_groups))) = Suc 0"
    by (simp_all add: offset_bound index_nat block_bits_def example_groups_fields)
  moreover have "clear_bit_from 0xFFFFFFFB 1 31 = Some 2" by code_simp
  ultimately show ?thesis by (simp add: param_ffb_def example_bitmap)
qed

theorem allocate_block_takes_free_witness:
  "\<exists>s'. allocate_block example_groups 33 = Inr (34, s') \<and> \<not> get_bit (bitmap example_groups 1) (block_bits example_groups) 2 \<and>
     get_bit (bitmap s' 1) (block_bits example_groups) 2 \<and> unalloc_block_num (spb s') = 9"
  using allocate_block_takes_free [of example_groups 33] example_group_ok example_table_apart
  by (auto simp: example_groups_fields example_block_4 example_found)


end
