(* ===== verification/Directories.thy ===== *)
theory Directories
  imports Filesystem Kstring
begin

text \<open>
  \<^verbatim>\<open>filesystem.c\<close>, second part: directories, which are lists of entries of variable size in one
  block, paths, and the creation and deletion of files.  The loops over entries move by the
  sizes stored in the entries; \<open>n\<close> bounds their steps by the size of a block, which is enough
  unless an entry has size 0, where the C code loops for ever.
\<close>

subsection \<open>Entries\<close>

definition e_inode :: "'z machine_scheme \<Rightarrow> u32 \<Rightarrow> u32" where "e_inode s e = load32 (mem s) e"
definition e_size :: "'z machine_scheme \<Rightarrow> u32 \<Rightarrow> u16" where "e_size s e = load16 (mem s) (e + 4)"
definition e_name_length :: "'z machine_scheme \<Rightarrow> u32 \<Rightarrow> u8" where "e_name_length s e = mem s (e + 6)"
definition e_file_type :: "'z machine_scheme \<Rightarrow> u32 \<Rightarrow> u8" where "e_file_type s e = mem s (e + 7)"

definition next_entry :: "'z machine_scheme \<Rightarrow> u32 \<Rightarrow> u32" where
  "next_entry s e = e + ucast (e_size s e)"

definition end_of_buf :: "'z filesystem_scheme \<Rightarrow> u32" where
  "end_of_buf s = std_buf s + block_size s"

abbreviation (input) entry_steps :: "'z filesystem_scheme \<Rightarrow> nat" where
  "entry_steps s \<equiv> unat (block_size s) + 1"

text \<open>
  The comparison of a terminated name with the name in an entry, which need not be terminated:
  the length of the common part, and the test on what stopped it.
\<close>

fun common_length :: "memory \<Rightarrow> bytes \<Rightarrow> u32 \<Rightarrow> nat" where
  "common_length m [] b = 0"
| "common_length m (c # cs) b = (if m b \<noteq> 0 \<and> c = m b then Suc (common_length m cs (b + 1)) else 0)"

definition same_name :: "'z machine_scheme \<Rightarrow> bytes \<Rightarrow> u32 \<Rightarrow> bool" where
  "same_name s name e =
     (let i = common_length (mem s) name (e + 8); c = (name @ [0]) ! i
      in c = mem s (e + 8 + of_nat i) \<or> c = 0 \<and> i = unat (e_name_length s e))"

subsection \<open>Paths\<close>

fun find_entry :: "'z filesystem_scheme \<Rightarrow> bytes \<Rightarrow> u32 \<Rightarrow> nat \<Rightarrow> (u32 option \<times> u32) result" where
  "find_entry s name e 0 = Inl Hang"
| "find_entry s name e (Suc n) =
     (if e_inode s e \<noteq> 0 \<and> e < end_of_buf s then
        if same_name s name e then Inr (Some (e_inode s e), e)
        else find_entry s name (next_entry s e) n
      else Inr (None, e))"

text \<open>A search that stops at an entry without inode keeps the inode it started from.\<close>

fun find_path :: "'z filesystem_scheme \<Rightarrow> bytes list \<Rightarrow> u32 \<Rightarrow> (u32 \<times> 'z filesystem_scheme) result" where
  "find_path s [] inode = Inl OutOfBounds"
| "find_path s (name # rest) inode =
     (if rest = [] \<and> name = [] then Inr (inode, s)
      else bindE (read_inode_data s inode (std_buf s) 0 (block_size s)) (\<lambda>(_, s).
           bindE (find_entry s name (std_buf s) (entry_steps s)) (\<lambda>(found, e).
             let inode = (case found of Some i \<Rightarrow> i | None \<Rightarrow> inode)
             in if e = end_of_buf s then Inr (0, s)
                else if rest = [] then Inr (inode, s) else find_path s rest inode)))"

definition find_inode :: "'z filesystem_scheme \<Rightarrow> bytes \<Rightarrow> u32 \<Rightarrow> (u32 \<times> 'z filesystem_scheme) result" where
  "find_inode s str_path root =
     (let absolute = (str_path \<noteq> [] \<and> hd str_path = 47)
      in bindE (str_split (if absolute then tl str_path else str_path) 47 True) (\<lambda>words.
           find_path s words (if absolute then 2 else root)))"

abbreviation (input) TYPE_DIR :: u16 where "TYPE_DIR \<equiv> 0x4000"
abbreviation (input) TYPE_FILE :: u16 where "TYPE_FILE \<equiv> 0x8000"
abbreviation (input) PERM_ALL :: u16 where "PERM_ALL \<equiv> 0x1FF"
abbreviation (input) FILE_REGULAR :: u8 where "FILE_REGULAR \<equiv> 1"
abbreviation (input) FILE_DIR :: u8 where "FILE_DIR \<equiv> 2"

definition find_dir :: "'z filesystem_scheme \<Rightarrow> bytes \<Rightarrow> u32 \<Rightarrow> (u32 \<times> 'z filesystem_scheme) result" where
  "find_dir s str_path root =
     bindE (find_inode s str_path root) (\<lambda>(inode, s).
       if inode = 0 then Inr (0, s)
       else bindE (set_inode s inode (std_inode s)) (\<lambda>s.
         Inr (if inode_type s (std_inode s) AND TYPE_DIR \<noteq> 0 then inode else 0, s)))"

subsection \<open>Adding and removing entries\<close>

text \<open>Sizes are rounded up to multiples of 4; a size of 0 asks for the natural size of the entry.\<close>

definition natural_size :: "u32 \<Rightarrow> u32" where
  "natural_size len = 4 * (1 + (len + SIZE_DIR_ENTRY - 1) div 4)"

definition set_dir_entry ::
  "'z filesystem_scheme \<Rightarrow> u32 \<Rightarrow> u32 \<Rightarrow> u8 \<Rightarrow> bytes \<Rightarrow> u16 \<Rightarrow> u16 \<times> 'z filesystem_scheme"
where
  "set_dir_entry s e inode file_type name sz =
     (let len = of_nat (length name) :: u8;
          s = write32 s e inode;
          s = write8 s (e + 6) len;
          ret = (if sz \<noteq> 0 then 4 * (1 + (sz - 1) div 4) else ucast (natural_size (ucast len)));
          s = write16 s (e + 4) ret;
          s = write8 s (e + 7) file_type
      in (ret, set_mem s (store_bytes (mem s) (e + 8) (take (unat len) name))))"

text \<open>The walk to the last entry, with the room that the entries take; an equal name ends it.\<close>

fun last_entry :: "'z filesystem_scheme \<Rightarrow> bytes \<Rightarrow> u32 \<Rightarrow> u32 \<Rightarrow> nat \<Rightarrow> (u32 \<times> u32) option result" where
  "last_entry s name e room 0 = Inl Hang"
| "last_entry s name e room (Suc n) =
     (if e_inode s e \<noteq> 0 \<and> room < block_size s then
        let e = next_entry s e
        in if same_name s name e then Inr None
           else last_entry s name e (room + ucast (e_size s e)) n
      else Inr (Some (e, room)))"

text \<open>
  Moving the entries together.  The size of the new copy is written before the old entry's size
  is read to go on, and at first the two are at the same place.
\<close>

fun shrink_entries :: "'z filesystem_scheme \<Rightarrow> u32 \<Rightarrow> u32 \<Rightarrow> nat \<Rightarrow> (u32 \<times> 'z filesystem_scheme) result" where
  "shrink_entries s e ref 0 = Inl Hang"
| "shrink_entries s e ref (Suc n) =
     (if e_inode s e \<noteq> 0 \<and> e < end_of_buf s then
        let room = e_name_length s e;
            s = write8 s (ref + 6) room;
            s = write32 s ref (e_inode s e);
            s = write8 s (ref + 7) (e_file_type s e);
            s = write16 s (ref + 4) (ucast (natural_size (ucast room)));
            s = set_mem s (mem_copy_loop (mem s) (ref + 8) (e + 8) (unat room))
        in shrink_entries s (next_entry s e) (next_entry s ref) n
      else Inr (ref, s))"

definition add_file ::
  "'z filesystem_scheme \<Rightarrow> u32 \<Rightarrow> u32 \<Rightarrow> u8 \<Rightarrow> bytes \<Rightarrow> (u8 \<times> 'z filesystem_scheme) result"
where
  "add_file s dir inode file_type name =
     (let len = of_nat (length name) :: u32
      in if dir = 0 then Inr (4, s)
      else if inode = 0 then Inr (5, s)
      else if drop_bit 8 len \<noteq> 0 then Inr (3, s)
      else if name \<noteq> [] \<and> hd name = 45 then Inr (6, s)
      else if 47 \<in> set name then Inr (6, s)
      else bindE (read_inode_data s dir (std_buf s) 0 (block_size s)) (\<lambda>(_, s).
        let e = std_buf s
        in if same_name s name e then Inr (1, s)
           else bindE (last_entry s name e (ucast (e_size s e)) (entry_steps s)) (\<lambda>found.
             case found of None \<Rightarrow> Inr (1, s)
             | Some (e, room) \<Rightarrow>
                 let resize = ucast (natural_size (ucast (e_name_length s e))) :: u16;
                     room = room - ucast (e_size s e) + ucast resize
                 in bindE (if block_size s - room < SIZE_DIR_ENTRY + len then
                             bindE (shrink_entries s (std_buf s + 8) (std_buf s + 8) (entry_steps s)) (\<lambda>(ref, s).
                               let room = block_size s - (ref - std_buf s)
                               in if room < SIZE_DIR_ENTRY + len then Inr (2, s)
                                  else Inr (0, snd (set_dir_entry s ref inode file_type name (ucast room))))
                           else
                             let s = write16 s (e + 4) resize
                             in Inr (0, snd (set_dir_entry s (e + ucast resize) inode file_type name (ucast (block_size s - room)))))
                   (\<lambda>(error, s).
                     if error \<noteq> (0 :: u8) then Inr (error, s)
                     else bindE (write_lba s (BLOCK s (dbp s (std_inode s) 0)) (block_factor s) (std_buf s)) (\<lambda>s.
                          if file_type AND FILE_DIR \<noteq> 0 then
                            let s = write16 s (std_inode s + 26) (hard_links s (std_inode s) + 1)
                            in bindE (update_inode s dir (std_inode s)) (\<lambda>s. Inr (0, s))
                          else Inr (0, s))))))"

fun find_removed :: "'z filesystem_scheme \<Rightarrow> u32 \<Rightarrow> u32 \<Rightarrow> u32 \<Rightarrow> nat \<Rightarrow> (u32 \<times> u32) result" where
  "find_removed s inode prec e 0 = Inl Hang"
| "find_removed s inode prec e (Suc n) =
     (if e < end_of_buf s then
        if e_inode s e = inode then Inr (prec, e)
        else find_removed s inode (next_entry s prec) (next_entry s e) n
      else Inr (prec, e))"

definition remove_file :: "'z filesystem_scheme \<Rightarrow> u32 \<Rightarrow> u32 \<Rightarrow> (u8 \<times> 'z filesystem_scheme) result" where
  "remove_file s dir inode =
     (if dir = 0 then Inr (4, s)
      else if inode = 0 then Inr (5, s)
      else bindE (read_inode_data s dir (std_buf s) 0 (block_size s)) (\<lambda>(_, s).
        let prec = next_entry s (std_buf s)
        in bindE (find_removed s inode prec (next_entry s prec) (entry_steps s)) (\<lambda>(prec, e).
             if e \<ge> end_of_buf s then Inr (1, s)
             else let s = write16 s (prec + 4) (e_size s prec + e_size s e)
                  in bindE (write_lba s (BLOCK s (dbp s (std_inode s) 0)) (block_factor s) (std_buf s)) (\<lambda>s.
                     if e_file_type s e AND FILE_DIR \<noteq> 0 then
                       let s = write16 s (std_inode s + 26) (hard_links s (std_inode s) - 1)
                       in bindE (update_inode s dir (std_inode s)) (\<lambda>s. Inr (0, s))
                     else Inr (0, s)))))"

end
