(* ===== verification/Directory_Props.thy ===== *)
theory Directory_Props
  imports Directories Filesystem_Props
begin

text \<open>
  Directories as finite maps from names to inodes: the search in a block of entries is a lookup in
  the list that the block encodes, and the search for a path walks through such lists.
\<close>

subsection \<open>The encoding of a directory\<close>

definition half_at :: "(nat \<Rightarrow> u8) \<Rightarrow> nat \<Rightarrow> u16" where
  "half_at c p = ucast (c p) OR push_bit 8 (ucast (c (p + 1)))"

definition full_at :: "(nat \<Rightarrow> u8) \<Rightarrow> nat \<Rightarrow> u32" where
  "full_at c p = ucast (c p) OR push_bit 8 (ucast (c (p + 1))) OR push_bit 16 (ucast (c (p + 2))) OR push_bit 24 (ucast (c (p + 3)))"

text \<open>
  The bytes \<open>c\<close> of a block of \<open>n\<close> bytes hold the entries from \<open>p\<close> on: each with an inode, the
  length and the bytes of its name, a zero byte behind it, and a size that leads to the next entry.
\<close>

fun layout :: "(nat \<Rightarrow> u8) \<Rightarrow> nat \<Rightarrow> nat \<Rightarrow> (bytes \<times> u32) list \<Rightarrow> bool" where
  "layout c n p [] \<longleftrightarrow> p = n"
| "layout c n p ((w, i) # es) \<longleftrightarrow> i \<noteq> 0 \<and> full_at c p = i \<and> length w < 256 \<and> c (p + 6) = of_nat (length w) \<and>
     0 \<notin> set w \<and> map c [p + 8..<p + 8 + length w] = w \<and> c (p + 8 + length w) = 0 \<and>
     8 + length w < unat (half_at c (p + 4)) \<and> p + unat (half_at c (p + 4)) \<le> n \<and>
     layout c n (p + unat (half_at c (p + 4))) es"

lemma layout_bound: "layout c n p es \<Longrightarrow> p \<le> n"
  by (induction c n p es rule: layout.induct) simp_all

subsection \<open>Names\<close>

lemma same_name_common:
  fixes m :: memory
  assumes "0 \<notin> set name" "0 \<notin> set w" "\<And>j. j < length w \<Longrightarrow> m (b + of_nat j) = w ! j" "m (b + of_nat (length w)) = 0"
  shows "((name @ [0]) ! common_length m name b = m (b + of_nat (common_length m name b)) \<or>
      (name @ [0]) ! common_length m name b = 0 \<and> common_length m name b = length w) \<longleftrightarrow> name = w"
  using assms
proof (induction name arbitrary: b w)
  case Nil
  show ?case
  proof (cases w)
    case (Cons x xs)
    then have "m b = x" "x \<noteq> 0" using Nil.prems(2) Nil.prems(3) [of 0] by auto
    then show ?thesis using Cons by simp
  qed (use Nil.prems(4) in simp)
next
  case (Cons a name)
  show ?case
  proof (cases w)
    case Nil
    then show ?thesis using Cons.prems(1,4) by auto
  next
    case (Cons x xs)
    have x: "m b = x" "x \<noteq> 0" "a \<noteq> 0" using Cons.prems(1,2) Cons.prems(3) [of 0] Cons by auto
    have tl: "m (b + 1 + of_nat j) = xs ! j" if "j < length xs" for j
      using Cons.prems(3) [of "Suc j"] that Cons by (simp add: add.assoc)
    have nul: "m (b + 1 + of_nat (length xs)) = 0" using Cons.prems(4) Cons by (simp add: add.assoc)
    show ?thesis
    proof (cases "a = x")
      case True
      then show ?thesis
        using Cons.IH [of xs "b + 1", OF _ _ tl nul] Cons.prems(1,2) x Cons by (simp add: add.assoc)
    next
      case False
      then show ?thesis using x Cons by auto
    qed
  qed
qed

subsection \<open>The search in a block\<close>

lemma find_entry_layout:
  assumes "layout c n p es" "0 \<notin> set name" "n = unat (block_size s)" "unat (std_buf s) + unat (block_size s) < 2 ^ 32"
    "\<And>j. j < n \<Longrightarrow> mem s (std_buf s + of_nat j) = c j" "n - p < k"
  shows "\<exists>e. find_entry s name (std_buf s + of_nat p) k = Inr (map_of es name, e) \<and>
    (e = end_of_buf s \<longleftrightarrow> map_of es name = None)"
  using assms
proof (induction es arbitrary: p k)
  case Nil
  then have "std_buf s + of_nat p = end_of_buf s" by (simp add: end_of_buf_def)
  then show ?case using Nil.prems(6) by (cases k) simp_all
next
  case (Cons a es)
  obtain w i where a: "a = (w, i)" by (cases a)
  let ?e = "std_buf s + of_nat p" and ?sz = "unat (half_at c (p + 4))"
  have l: "i \<noteq> 0" "full_at c p = i" "length w < 256" "c (p + 6) = of_nat (length w)" "0 \<notin> set w"
    "map c [p + 8..<p + 8 + length w] = w" "c (p + 8 + length w) = 0" "8 + length w < ?sz" "p + ?sz \<le> n" "layout c n (p + ?sz) es"
    using Cons.prems(1) a by simp_all
  obtain k' where k: "k = Suc k'" using Cons.prems(6) by (cases k) auto
  have byte: "mem s (?e + of_nat j) = c (p + j)" if "p + j < n" for j
    using Cons.prems(5) [OF that] by (simp add: add.assoc)
  have room: "p + 8 + length w < n" using l(8,9) by simp
  have inode: "e_inode s ?e = i"
    using byte [of 0] byte [of 1] byte [of 2] byte [of 3] l(2) room by (simp add: e_inode_def load32_def full_at_def)
  have size: "e_size s ?e = half_at c (p + 4)"
  proof -
    have "half_at c (p + 4) = ucast (c (p + 4)) OR push_bit 8 (ucast (c (p + 5)))"
      unfolding half_at_def by (simp only: add.assoc) simp
    then show ?thesis using byte [of 4] byte [of 5] room by (simp add: e_size_def load16_def add.assoc)
  qed
  have len: "unat (e_name_length s ?e) = length w"
    using byte [of 6] l(3,4) room by (simp add: e_name_length_def unat_of_nat)
  have name: "mem s (?e + 8 + of_nat j) = c (p + 8 + j)" if "j \<le> length w" for j
    using byte [of "8 + j"] room that by (simp add: add.assoc)
  have chars: "mem s (?e + 8 + of_nat j) = w ! j" if "j < length w" for j
    using name [of j] that l(6) by (metis (no_types, lifting) add.commute add_diff_cancel_left' length_map length_upt less_imp_le nth_map nth_upt add_less_cancel_left)
  have nul: "mem s (?e + 8 + of_nat (length w)) = 0" using name [of "length w"] l(7) by simp
  have same: "same_name s name ?e \<longleftrightarrow> name = w"
    using same_name_common [OF Cons.prems(2) l(5) chars nul] len by (simp add: same_name_def Let_def)
  have addr: "unat ?e = unat (std_buf s) + p" "unat (end_of_buf s) = unat (std_buf s) + n"
    using Cons.prems(3,4) l(8,9) by (simp_all add: end_of_buf_def unat_word_ariths)
  then have before: "?e < end_of_buf s" "?e \<noteq> end_of_buf s" using l(8,9) by (auto simp: word_less_nat_alt)
  show ?case
  proof (cases "name = w")
    case True
    then show ?thesis using inode before same a k l(1) by (intro exI [of _ ?e]) simp
  next
    case False
    have "next_entry s ?e = std_buf s + of_nat (p + ?sz)"
      by (simp add: next_entry_def size add.assoc)
    moreover have "n - (p + ?sz) < k'" using Cons.prems(6) k l(8,9) by simp
    ultimately show ?thesis
      using Cons.IH [OF l(10) Cons.prems(2-5)] False inode before same a k l(1) by simp
  qed
qed

subsection \<open>Directories on the disk\<close>

text \<open>The first block of the file \<open>i\<close> is on the volume and holds the entries \<open>es\<close>.\<close>

definition directory :: "'z filesystem_scheme \<Rightarrow> u32 \<Rightarrow> (bytes \<times> u32) list \<Rightarrow> bool" where
  "directory s i es \<longleftrightarrow> direct_ok s i 0 \<and>
     layout (\<lambda>j. disk (drv s) (block_pos s (direct_block s i 0) + j)) (unat (block_size s)) 0 es"

lemma load_directory:
  assumes "directory s i es"
  obtains m where "read_inode_data s i (std_buf s) 0 (block_size s) = Inr (block_size s, set_mem s m)"
    "\<And>j. j < unat (block_size s) \<Longrightarrow> m (std_buf s + of_nat j) = disk (drv s) (block_pos s (direct_block s i 0) + j)"
    "\<And>x. x \<notin> region (std_buf s) (unat (block_size s)) \<Longrightarrow> x \<notin> region (std_inode s) 128 \<Longrightarrow> m x = mem s x"
proof -
  have ok: "volume_ok s" "in_volume s (direct_block s i 0)" using assms by (simp_all add: directory_def direct_ok_def)
  have w: "part_width s 0 (block_size s) = block_size s" by (simp add: part_width_def)
  show ?thesis
    using read_direct [of s 0 i "std_buf s" "block_size s"] ok that unfolding w by auto
qed

text \<open>Reading a directory does not change what is in another one.\<close>

lemma directory_cong:
  assumes "directory s j es"
    "\<And>x. x \<notin> region (std_buf s) (unat (block_size s)) \<Longrightarrow> x \<notin> region (std_inode s) 128 \<Longrightarrow> m x = mem s x"
  shows "directory (set_mem s m) j es"
proof -
  let ?g = "bgp s ((j - 1) div inode_per_group (spb s))"
  have "separate (std_buf s) (unat (block_size s)) ?g 32" "separate (std_inode s) 128 ?g 32"
    using assms(1) by (auto simp: directory_def direct_ok_def Let_def)
  then have pos: "inode_pos (set_mem s m) j = inode_pos s j"
    using assms(2) separateD [OF separate_sym] by (intro inode_pos_cong) simp_all
  then have "direct_block (set_mem s m) j 0 = direct_block s j 0" by (intro direct_block_cong) simp_all
  then show ?thesis
    using assms(1) pos by (simp add: directory_def direct_ok_def Let_def bgp_def)
qed

subsection \<open>Paths\<close>

text \<open>
  The walk along a path through directories given as lists: an empty last word stands for the
  directory itself, and 0 for a name that is not there.
\<close>

fun walk :: "(u32 \<Rightarrow> (bytes \<times> u32) list) \<Rightarrow> bytes list \<Rightarrow> u32 \<Rightarrow> u32" where
  "walk D [] i = i"
| "walk D (w # ws) i =
     (if ws = [] \<and> w = [] then i
      else case map_of (D i) w of None \<Rightarrow> 0 | Some j \<Rightarrow> if ws = [] then j else walk D ws j)"

text \<open>All files that are searched on the way are directories.\<close>

fun walks_in :: "u32 set \<Rightarrow> (u32 \<Rightarrow> (bytes \<times> u32) list) \<Rightarrow> bytes list \<Rightarrow> u32 \<Rightarrow> bool" where
  "walks_in dirs D [] i \<longleftrightarrow> True"
| "walks_in dirs D (w # ws) i \<longleftrightarrow> ws = [] \<and> w = [] \<or>
     i \<in> dirs \<and> (case map_of (D i) w of None \<Rightarrow> True | Some j \<Rightarrow> ws = [] \<or> walks_in dirs D ws j)"

lemma find_path_walks:
  assumes "\<forall>i\<in>dirs. directory s i (D i)" "walks_in dirs D ws i" "ws \<noteq> []" "\<forall>w\<in>set ws. 0 \<notin> set w"
    "unat (std_buf s) + unat (block_size s) < 2 ^ 32"
  shows "\<exists>m. find_path s ws i = Inr (walk D ws i, set_mem s m)"
  using assms
proof (induction ws arbitrary: s i)
  case (Cons w ws)
  show ?case
  proof (cases "ws = [] \<and> w = []")
    case True
    then show ?thesis by (intro exI [of _ "mem s"]) simp
  next
    case False
    then have i: "i \<in> dirs" using Cons.prems(2) by auto
    then have dir: "directory s i (D i)" using Cons.prems(1) by blast
    obtain m where m: "read_inode_data s i (std_buf s) 0 (block_size s) = Inr (block_size s, set_mem s m)"
      "\<And>j. j < unat (block_size s) \<Longrightarrow> m (std_buf s + of_nat j) = disk (drv s) (block_pos s (direct_block s i 0) + j)"
      "\<And>x. x \<notin> region (std_buf s) (unat (block_size s)) \<Longrightarrow> x \<notin> region (std_inode s) 128 \<Longrightarrow> m x = mem s x"
      by (rule load_directory [OF dir]) (rule that)
    let ?t = "set_mem s m" and ?c = "\<lambda>j. disk (drv s) (block_pos s (direct_block s i 0) + j)"
    have lay: "layout ?c (unat (block_size s)) 0 (D i)" using dir by (simp add: directory_def)
    have "\<exists>e. find_entry ?t w (std_buf ?t + of_nat 0) (entry_steps s) = Inr (map_of (D i) w, e) \<and>
        (e = end_of_buf ?t \<longleftrightarrow> map_of (D i) w = None)"
      using Cons.prems(4,5) m(2) by (intro find_entry_layout [OF lay]) simp_all
    then obtain e where e: "find_entry ?t w (std_buf s) (entry_steps s) = Inr (map_of (D i) w, e)"
      "e = end_of_buf ?t \<longleftrightarrow> map_of (D i) w = None"
      by auto
    show ?thesis
    proof (cases "map_of (D i) w")
      case None
      then show ?thesis using m(1) e False by (intro exI [of _ m]) (auto simp del: find_entry.simps)
    next
      case (Some j)
      show ?thesis
      proof (cases "ws = []")
        case True
        then show ?thesis using m(1) e False Some by (intro exI [of _ m]) (auto simp del: find_entry.simps)
      next
        case rest: False
        have "\<forall>i\<in>dirs. directory ?t i (D i)" using Cons.prems(1) directory_cong [OF _ m(3)] by blast
        moreover have "walks_in dirs D ws j" using Cons.prems(2) False Some rest by auto
        ultimately obtain m' where "find_path ?t ws j = Inr (walk D ws j, set_mem ?t m')"
          using Cons.IH [of ?t j] rest Cons.prems(4,5) by auto
        then show ?thesis using m(1) e False Some rest by (intro exI [of _ m']) (auto simp del: find_entry.simps)
      qed
    qed
  qed
qed simp


subsection \<open>An example\<close>

text \<open>The root directory, in block 40, has a directory \<^verbatim>\<open>a\<close>, in block 41, which has a file \<^verbatim>\<open>b\<close>.\<close>

definition root_bytes :: "u8 list" where
  "root_bytes = [2, 0, 0, 0, 12, 0, 1, 2, 46, 0, 0, 0, 11, 0, 0, 0, 0xF4, 3, 1, 2, 97, 0, 0, 0]"

definition sub_bytes :: "u8 list" where
  "sub_bytes = [11, 0, 0, 0, 12, 0, 1, 2, 46, 0, 0, 0, 12, 0, 0, 0, 0xF4, 3, 1, 1, 98, 0, 0, 0]"

definition tree_disk :: "nat \<Rightarrow> u8" where
  "tree_disk k =
     (if k = 1048744 then 40 else if k = 1049896 then 41
      else if 1089536 \<le> k \<and> k < 1089560 then root_bytes ! (k - 1089536)
      else if 1090560 \<le> k \<and> k < 1090584 then sub_bytes ! (k - 1090560) else 0)"

definition example_tree :: filesystem where
  "example_tree = example_volume\<lparr>drv := \<lparr>disk_id = 0, disk = tree_disk, poll_status = (\<lambda>_. [8]), flush_status = (\<lambda>_. [0])\<rparr>\<rparr>"

definition tree_entries :: "u32 \<Rightarrow> (bytes \<times> u32) list" where
  "tree_entries i = (if i = 2 then [([46], 2), ([97], 11)] else [([46], 11), ([98], 12)])"

lemma example_tree_fields [simp]:
  "block_factor example_tree = 2" "block_size example_tree = 1024" "bgpt example_tree = 0x10000"
  "std_buf example_tree = 0x20000" "std_inode example_tree = 0x30000" "inode_per_group (spb example_tree) = 2048"
  "mem example_tree = (\<lambda>a. if a = 0x40000 then 65 else if a = 0x40001 then 66 else 0)"
  "drv example_tree = \<lparr>disk_id = 0, disk = tree_disk, poll_status = (\<lambda>_. [8]), flush_status = (\<lambda>_. [0])\<rparr>"
  by (simp_all add: example_tree_def)

lemma tree_inodes: "inode_pos example_tree 2 = 1048704" "inode_pos example_tree 11 = 1049856"
  by (simp_all add: inode_pos_def inode_table_address_def bgp_def BLOCK_def sector_address_def load32_def Let_def)

lemma tree_blocks: "direct_block example_tree 2 0 = 40" "direct_block example_tree 11 0 = 41"
  by (simp_all add: direct_block_def tree_inodes copied_def load32_def tree_disk_def)

lemma tree_positions: "block_pos example_tree 40 = 1089536" "block_pos example_tree 41 = 1090560"
  by (simp_all add: block_pos_def BLOCK_def sector_address_def)

lemma tree_directories: "\<forall>i\<in>{2, 11}. directory example_tree i (tree_entries i)"
proof -
  have "direct_ok example_tree 2 0" "direct_ok example_tree 11 0"
    by (simp_all add: direct_ok_def volume_ok_def drive_ready_def poll_def tree_blocks in_volume_def tree_positions tree_inodes
        bgp_def separate_before separate_after Let_def)
  then show ?thesis
    by (simp add: directory_def tree_entries_def tree_blocks tree_positions tree_disk_def root_bytes_def sub_bytes_def
        full_at_def half_at_def upt_rec)
qed


end
