(* ===== verification/Files.thy ===== *)
theory Files
  imports Directories
begin

text \<open>
  \<^verbatim>\<open>filesystem.c\<close>, third part: the blocks of a file, creation and deletion of files and
  directories, and the installation.  Freeing or allocating a block uses \<^verbatim>\<open>std_buf\<close>, also in
  loops that keep an indirect block there.
\<close>

subsection \<open>Freeing the blocks of a file\<close>

definition drop_block :: "'z filesystem_scheme \<Rightarrow> u32 \<Rightarrow> 'z filesystem_scheme result" where
  "drop_block s block = bindE (unallocate_block s block) (\<lambda>(_, s). Inr s)"

fun drop_direct :: "'z filesystem_scheme \<Rightarrow> u32 \<Rightarrow> nat \<Rightarrow> 'z filesystem_scheme result" where
  "drop_direct s i 0 = Inr s"
| "drop_direct s i (Suc n) = bindE (drop_block s (dbp s (std_inode s) i)) (\<lambda>s. drop_direct s (i + 1) n)"

fun drop_buf :: "'z filesystem_scheme \<Rightarrow> u32 \<Rightarrow> nat \<Rightarrow> 'z filesystem_scheme result" where
  "drop_buf s i 0 = Inr s"
| "drop_buf s i (Suc n) = bindE (drop_block s (buf_word s i)) (\<lambda>s. drop_buf s (i + 1) n)"

text \<open>Freeing until no block is left; the second component says how many are.\<close>

fun drop_leaves :: "'z filesystem_scheme \<Rightarrow> u32 \<Rightarrow> nat \<Rightarrow> u32 \<Rightarrow> (u32 \<times> 'z filesystem_scheme) result" where
  "drop_leaves s j 0 blocks = Inr (blocks, s)"
| "drop_leaves s j (Suc n) blocks =
     bindE (drop_block s (buf_word s j)) (\<lambda>s.
       if blocks - 1 = 0 then Inr (0, s) else drop_leaves s (j + 1) n (blocks - 1))"

fun drop_double :: "'z filesystem_scheme \<Rightarrow> u32 \<Rightarrow> nat \<Rightarrow> u32 \<Rightarrow> (u32 \<times> 'z filesystem_scheme) result" where
  "drop_double s i 0 blocks = Inr (blocks, s)"
| "drop_double s i (Suc n) blocks =
     bindE (read_lba s (BLOCK s (dibp s (std_inode s))) 4 (std_buf s)) (\<lambda>s.
     let curr_block = BLOCK s (buf_word s i)
     in bindE (read_lba s curr_block 4 (std_buf s)) (\<lambda>s.
        bindE (drop_leaves s 0 (unat (block_size s div 4)) blocks) (\<lambda>(blocks, s).
        bindE (drop_block s curr_block) (\<lambda>s.
          if blocks = 0 then bindE (drop_block s (BLOCK s (dibp s (std_inode s)))) (\<lambda>s. Inr (0, s))
          else drop_double s (i + 1) n blocks))))"

fun drop_square :: "'z filesystem_scheme \<Rightarrow> u32 \<Rightarrow> nat \<Rightarrow> u32 \<Rightarrow> (u32 \<times> 'z filesystem_scheme) result" where
  "drop_square s j 0 blocks = Inr (blocks, s)"
| "drop_square s j (Suc n) blocks =
     (let curr_block = BLOCK s (buf_word s j)
      in bindE (read_lba s curr_block 4 (std_buf s)) (\<lambda>s.
         bindE (drop_leaves s 0 (unat (block_size s div 4)) blocks) (\<lambda>(blocks, s).
         bindE (drop_block s curr_block) (\<lambda>s.
           if blocks = 0 then Inr (0, s) else drop_square s (j + 1) n blocks))))"

fun drop_triple :: "'z filesystem_scheme \<Rightarrow> u32 \<Rightarrow> nat \<Rightarrow> u32 \<Rightarrow> 'z filesystem_scheme result" where
  "drop_triple s i 0 blocks = drop_block s (BLOCK s (tibp s (std_inode s)))"
| "drop_triple s i (Suc n) blocks =
     bindE (read_lba s (BLOCK s (tibp s (std_inode s))) 4 (std_buf s)) (\<lambda>s.
     let curr_sq_block = BLOCK s (buf_word s i)
     in bindE (read_lba s curr_sq_block 4 (std_buf s)) (\<lambda>s.
        bindE (drop_square s 0 (unat (block_size s div 4)) blocks) (\<lambda>(blocks, s).
        bindE (drop_block s curr_sq_block) (\<lambda>s.
          if blocks = 0 then drop_block s (BLOCK s (tibp s (std_inode s)))
          else drop_triple s (i + 1) n blocks))))"

definition erase_file_data :: "'z filesystem_scheme \<Rightarrow> u32 \<Rightarrow> 'z filesystem_scheme result" where
  "erase_file_data s inode =
     (if inode = 0 then Inr s
      else bindE (set_inode s inode (std_inode s)) (\<lambda>s.
        if size_low s (std_inode s) = 0 then Inr s
        else bindE (udiv (size_low s (std_inode s) - 1) (block_size s)) (\<lambda>q.
          let blocks = 1 + q; s = write32 s (std_inode s + 4) 0
          in bindE (update_inode s inode (std_inode s)) (\<lambda>s.
             if blocks \<le> 12 then drop_direct s 0 (unat blocks)
             else bindE (drop_direct s 0 12) (\<lambda>s.
               bindE (read_lba s (BLOCK s (sibp s (std_inode s))) (block_factor s) (std_buf s)) (\<lambda>s.
               let blocks = blocks - 12; addr_per_block = block_size s div 4
               in if blocks \<le> addr_per_block then
                    bindE (drop_buf s 0 (unat blocks)) (\<lambda>s. drop_block s (BLOCK s (sibp s (std_inode s))))
                  else
                    bindE (drop_block s (BLOCK s (sibp s (std_inode s)))) (\<lambda>s.
                    bindE (drop_buf s 0 (unat addr_per_block)) (\<lambda>s.
                    bindE (drop_double s 0 (unat addr_per_block) (blocks - addr_per_block)) (\<lambda>(blocks, s).
                      if blocks = 0 then Inr s
                      else bindE (drop_block s (BLOCK s (dibp s (std_inode s)))) (\<lambda>s.
                           drop_triple s 0 (unat addr_per_block) blocks))))))))))"

subsection \<open>Allocating blocks for a file\<close>

text \<open>
  Every part returns the number of blocks allocated so far, the last block, whether it is done,
  and the state.  \<open>used\<close> and \<open>to_use\<close> count from the beginning of the part.
\<close>

fun fill_direct ::
  "'z filesystem_scheme \<Rightarrow> u32 \<Rightarrow> u32 \<Rightarrow> u32 \<Rightarrow> u32 \<Rightarrow> u32 \<Rightarrow> nat \<Rightarrow> (bool \<times> u32 \<times> u32 \<times> u32 \<times> 'z filesystem_scheme) result"
where
  "fill_direct s inode used to_use addr count 0 = Inr (False, used, addr, count, s)"
| "fill_direct s inode used to_use addr count (Suc n) =
     (if used < 12 then
        bindE (allocate_block s addr) (\<lambda>(addr, s).
          if addr = 0 then bindE (update_inode s inode (std_inode s)) (\<lambda>s. Inr (True, used, addr, count, s))
          else let s = write32 s (std_inode s + 40 + 4 * used) addr
               in if used + 1 = to_use
                  then bindE (update_inode s inode (std_inode s)) (\<lambda>s. Inr (True, used + 1, addr, count + 1, s))
                  else fill_direct s inode (used + 1) to_use addr (count + 1) n)
      else Inr (False, used, addr, count, s))"

text \<open>Filling the table of addresses in \<^verbatim>\<open>std_buf\<close> from position \<open>j\<close> on, and writing it to \<open>block\<close>.\<close>

fun fill_table ::
  "'z filesystem_scheme \<Rightarrow> u32 \<Rightarrow> u32 \<Rightarrow> u32 \<Rightarrow> u32 \<Rightarrow> u32 \<Rightarrow> u32 \<Rightarrow> u32 \<Rightarrow> nat
     \<Rightarrow> (bool \<times> u32 \<times> u32 \<times> u32 \<times> 'z filesystem_scheme) result"
where
  "fill_table s block sectors j used to_use addr count 0 =
     bindE (write_lba s block sectors (std_buf s)) (\<lambda>s. Inr (False, used, addr, count, s))"
| "fill_table s block sectors j used to_use addr count (Suc n) =
     bindE (allocate_block s addr) (\<lambda>(addr, s).
       if addr = 0 then bindE (write_lba s block sectors (std_buf s)) (\<lambda>s. Inr (True, used, addr, count, s))
       else let s = write32 s (std_buf s + 4 * j) addr
            in if used + 1 = to_use
               then bindE (write_lba s block sectors (std_buf s)) (\<lambda>s. Inr (True, used + 1, addr, count + 1, s))
               else fill_table s block sectors (j + 1) (used + 1) to_use addr (count + 1) n)"

fun fill_double ::
  "'z filesystem_scheme \<Rightarrow> u32 \<Rightarrow> u32 \<Rightarrow> u32 \<Rightarrow> u32 \<Rightarrow> u32 \<Rightarrow> nat
     \<Rightarrow> (bool \<times> u32 \<times> u32 \<times> u32 \<times> 'z filesystem_scheme) result"
where
  "fill_double s i used to_use addr count 0 = Inr (False, used, addr, count, s)"
| "fill_double s i used to_use addr count (Suc n) =
     (let addr_per_block = block_size s div 4
      in bindE (read_lba s (BLOCK s (dibp s (std_inode s))) 4 (std_buf s)) (\<lambda>s.
         bindE (umod used addr_per_block) (\<lambda>j.
         bindE (if j = 0 then
                  bindE (allocate_block s addr) (\<lambda>(addr, s).
                    if addr = 0 then Inr (True, addr, s)
                    else let s = write32 s (std_buf s + 4 * i) addr
                         in bindE (write_lba s (BLOCK s (dibp s (std_inode s))) 4 (std_buf s)) (\<lambda>s. Inr (False, addr, s)))
                else Inr (False, addr, s)) (\<lambda>(stop, addr, s).
           if stop then Inr (True, used, addr, count, s)
           else let curr_block = BLOCK s (buf_word s i)
                in bindE (read_lba s curr_block 4 (std_buf s)) (\<lambda>s.
                   bindE (fill_table s curr_block 4 j used to_use addr count (unat addr_per_block - unat j))
                     (\<lambda>(stop, used, addr, count, s).
                       if stop then Inr (True, used, addr, count, s)
                       else fill_double s (i + 1) used to_use addr count n))))))"

fun fill_square ::
  "'z filesystem_scheme \<Rightarrow> u32 \<Rightarrow> u32 \<Rightarrow> u32 \<Rightarrow> u32 \<Rightarrow> u32 \<Rightarrow> u32 \<Rightarrow> nat
     \<Rightarrow> (bool \<times> u32 \<times> u32 \<times> u32 \<times> 'z filesystem_scheme) result"
where
  "fill_square s curr_sq_block j used to_use addr count 0 = Inr (False, used, addr, count, s)"
| "fill_square s curr_sq_block j used to_use addr count (Suc n) =
     (let addr_per_block = block_size s div 4
      in bindE (umod used addr_per_block) (\<lambda>k.
         bindE (if k = 0 then
                  bindE (allocate_block s addr) (\<lambda>(addr, s).
                    if addr = 0 then Inr (True, addr, s)
                    else let s = write32 s (std_buf s + 4 * j) addr
                         in bindE (write_lba s curr_sq_block 4 (std_buf s)) (\<lambda>s. Inr (False, addr, s)))
                else Inr (False, addr, s)) (\<lambda>(stop, addr, s).
           if stop then Inr (True, used, addr, count, s)
           else let curr_block = BLOCK s (buf_word s j)
                in bindE (read_lba s curr_block 4 (std_buf s)) (\<lambda>s.
                   bindE (fill_table s curr_block 4 k used to_use addr count (unat addr_per_block - unat k))
                     (\<lambda>(stop, used, addr, count, s).
                       if stop then Inr (True, used, addr, count, s)
                       else fill_square s curr_sq_block (j + 1) used to_use addr count n)))))"

fun fill_triple ::
  "'z filesystem_scheme \<Rightarrow> u32 \<Rightarrow> u32 \<Rightarrow> u32 \<Rightarrow> u32 \<Rightarrow> u32 \<Rightarrow> nat
     \<Rightarrow> (u32 \<times> 'z filesystem_scheme) result"
where
  "fill_triple s i used to_use addr count 0 = Inr (count, s)"
| "fill_triple s i used to_use addr count (Suc n) =
     (let addr_per_block = block_size s div 4; sq_addr_per_block = addr_per_block * addr_per_block
      in bindE (read_lba s (BLOCK s (tibp s (std_inode s))) 4 (std_buf s)) (\<lambda>s.
         bindE (umod used sq_addr_per_block) (\<lambda>r.
         bindE (if r = 0 then
                  bindE (allocate_block s addr) (\<lambda>(addr, s).
                    if addr = 0 then Inr (True, addr, s)
                    else let s = write32 s (std_buf s + 4 * i) addr
                         in bindE (write_lba s (BLOCK s (tibp s (std_inode s))) 4 (std_buf s)) (\<lambda>s. Inr (False, addr, s)))
                else Inr (False, addr, s)) (\<lambda>(stop, addr, s).
           if stop then Inr (count, s)
           else let curr_sq_block = BLOCK s (buf_word s i); j = r div addr_per_block
                in bindE (read_lba s curr_sq_block 4 (std_buf s)) (\<lambda>s.
                   bindE (fill_square s curr_sq_block j used to_use addr count (unat addr_per_block - unat j))
                     (\<lambda>(stop, used, addr, count, s).
                       if stop then Inr (count, s)
                       else fill_triple s (i + 1) used to_use addr count n))))))"

text \<open>The triply indirect part; \<open>used\<close> and \<open>to_use\<close> may have wrapped around before.\<close>

definition prepare_triple ::
  "'z filesystem_scheme \<Rightarrow> u32 \<Rightarrow> u32 \<Rightarrow> u32 \<Rightarrow> u32 \<Rightarrow> u32 \<Rightarrow> (u32 \<times> 'z filesystem_scheme) result"
where
  "prepare_triple s inode used to_use addr count =
     (let addr_per_block = block_size s div 4; sq_addr_per_block = addr_per_block * addr_per_block
      in bindE (if used = 0 then
               bindE (allocate_block s addr) (\<lambda>(addr, s).
                 if addr = 0 then Inr (True, addr, s) else Inr (False, addr, write32 s (std_inode s + 96) addr))
             else Inr (False, addr, s)) (\<lambda>(stop, addr, s).
           bindE (update_inode s inode (std_inode s)) (\<lambda>s.
             if stop then Inr (count, s)
             else bindE (udiv used sq_addr_per_block) (\<lambda>i.
               fill_triple s i used to_use addr count (unat addr_per_block - unat i)))))"

definition prepare_double ::
  "'z filesystem_scheme \<Rightarrow> u32 \<Rightarrow> u32 \<Rightarrow> u32 \<Rightarrow> u32 \<Rightarrow> u32 \<Rightarrow> (u32 \<times> 'z filesystem_scheme) result"
where
  "prepare_double s inode used to_use addr count =
     (let addr_per_block = block_size s div 4; sq_addr_per_block = addr_per_block * addr_per_block
      in if used < sq_addr_per_block then
           bindE (if used = 0 then
                    bindE (allocate_block s addr) (\<lambda>(addr, s).
                      if addr = 0 then Inr (True, addr, s) else Inr (False, addr, write32 s (std_inode s + 92) addr))
                  else Inr (False, addr, s)) (\<lambda>(stop, addr, s).
             if stop then Inr (count, s)
             else bindE (update_inode s inode (std_inode s)) (\<lambda>s.
               let i = used div addr_per_block
               in bindE (fill_double s i used to_use addr count (unat addr_per_block - unat i)) (\<lambda>(stop, used, addr, count, s).
                    if stop then Inr (count, s)
                    else prepare_triple s inode (used - sq_addr_per_block) (to_use - sq_addr_per_block) addr count)))
         else prepare_triple s inode (used - sq_addr_per_block) (to_use - sq_addr_per_block) addr count)"

definition prepare_blocks :: "'z filesystem_scheme \<Rightarrow> u32 \<Rightarrow> u32 \<Rightarrow> u32 \<Rightarrow> (u32 \<times> 'z filesystem_scheme) result" where
  "prepare_blocks s inode used to_use =
     (let addr_per_block = block_size s div 4
      in if inode = 0 \<or> to_use \<le> used then Inr (0, s)
      else if to_use > addr_per_block * addr_per_block * addr_per_block + addr_per_block * addr_per_block
             + addr_per_block + 12 then Inr (0, s)
      else bindE (fill_direct s inode used to_use 1 0 12) (\<lambda>(stop, used, addr, count, s).
        if stop then Inr (count, s)
        else bindE (update_inode s inode (std_inode s)) (\<lambda>s.
          let used = used - 12; to_use = to_use - 12
          in bindE (if used = 0 then
                 bindE (allocate_block s addr) (\<lambda>(addr, s).
                   if addr = 0 then Inr (True, addr, s)
                   else bindE (update_inode (write32 s (std_inode s + 88) addr) inode (std_inode s)) (\<lambda>s. Inr (False, addr, s)))
               else Inr (False, addr, s)) (\<lambda>(stop, addr, s).
             if stop then Inr (count, s)
             else bindE (read_lba s (BLOCK s (sibp s (std_inode s))) (block_factor s) (std_buf s)) (\<lambda>s.
               bindE (fill_table s (BLOCK s (sibp s (std_inode s))) (block_factor s) used used to_use addr count
                        (unat addr_per_block - unat used)) (\<lambda>(stop, used, addr, count, s).
                 if stop then Inr (count, s)
                 else prepare_double s inode (used - addr_per_block) (to_use - addr_per_block) addr count))))))"

subsection \<open>Files and directories\<close>

definition delete_file :: "'z filesystem_scheme \<Rightarrow> u32 \<Rightarrow> u32 \<Rightarrow> (u8 \<times> 'z filesystem_scheme) result" where
  "delete_file s dir inode =
     bindE (remove_file s dir inode) (\<lambda>(error, s).
       if error \<noteq> 0 then Inr (error, s)
       else bindE (erase_file_data s inode) (\<lambda>s.
         bindE (unallocate_inode s inode) (\<lambda>(error, s).
           if error \<noteq> 0 then Inl (Throw ''The file to delete was not allocated'') else Inr (0, s))))"

fun clear_direct :: "'z filesystem_scheme \<Rightarrow> u32 \<Rightarrow> nat \<Rightarrow> 'z filesystem_scheme" where
  "clear_direct s i 0 = s"
| "clear_direct s i (Suc n) = clear_direct (write32 s (std_inode s + 40 + 4 * i) 0) (i + 1) n"

definition create_file ::
  "'z filesystem_scheme \<Rightarrow> u32 \<Rightarrow> bytes \<Rightarrow> u16 \<Rightarrow> u8 \<Rightarrow> (u32 \<times> 'z filesystem_scheme) result"
where
  "create_file s father name kind ftype =
     (if father = 0 then Inr (0, s)
      else bindE (allocate_inode s) (\<lambda>(num, s).
        if num = 0 then Inr (0, s)
        else bindE (add_file s father num ftype name) (\<lambda>(error, s).
          if error \<noteq> 0 then bindE (unallocate_inode s num) (\<lambda>(_, s). Inr (0, s))
          else let is_a_dir = (kind AND TYPE_DIR \<noteq> 0); i = std_inode s;
                   s = write16 s i kind;
                   s = write16 s (i + 26) (1 + of_bool is_a_dir);
                   s = write32 s (i + 28) (block_factor s * of_bool is_a_dir);
                   s = write32 s (i + 4) (block_size s * of_bool is_a_dir);
                   s = clear_direct s 0 12;
                   s = write32 (write32 (write32 s (i + 88) 0) (i + 92) 0) (i + 96) 0
               in bindE (if is_a_dir then
                    bindE (allocate_block s 1) (\<lambda>(block, s).
                      if block = 0 then bindE (unallocate_inode s num) (\<lambda>(_, s). Inr (True, s))
                      else let s = write32 s (i + 40) block;
                               (sz, s) = set_dir_entry s (std_buf s) num FILE_DIR [46] 0;
                               (_, s) = set_dir_entry s (std_buf s + ucast sz) father FILE_DIR [46, 46]
                                          (ucast (block_size s - ucast sz))
                           in bindE (write_lba s (BLOCK s block) 1 (std_buf s)) (\<lambda>s. Inr (False, s)))
                    else Inr (False, s)) (\<lambda>(stop, s).
                  if stop then Inr (0, s)
                  else bindE (update_inode s num (std_inode s)) (\<lambda>s. Inr (num, s))))))"

definition create_dir :: "'z filesystem_scheme \<Rightarrow> u32 \<Rightarrow> bytes \<Rightarrow> (u32 \<times> 'z filesystem_scheme) result" where
  "create_dir s father name = create_file s father name (TYPE_DIR OR PERM_ALL) FILE_DIR"

subsection \<open>Listing and removing directories\<close>

fun ls_name :: "'z filesystem_scheme \<Rightarrow> u32 \<Rightarrow> nat \<Rightarrow> 'z filesystem_scheme result" where
  "ls_name s a 0 = Inr s"
| "ls_name s a (Suc n) = bindE (print s (ascii ''%c'') [Word_Arg (ucast (mem s a))]) (\<lambda>s. ls_name s (a + 1) n)"

fun ls_entries :: "'z filesystem_scheme \<Rightarrow> u32 \<Rightarrow> nat \<Rightarrow> 'z filesystem_scheme result" where
  "ls_entries s e 0 = Inl Hang"
| "ls_entries s e (Suc n) =
     (if e < end_of_buf s then
        bindE (print s (ascii ''%c '') [Word_Arg 195]) (\<lambda>s.
        bindE (ls_name s (e + 8) (unat (e_name_length s e))) (\<lambda>s.
        bindE (set_inode s (e_inode s e) (std_inode s)) (\<lambda>s.
        bindE (print s ([9] @ ascii ''<-- inode = %u\<newline>'') [Word_Arg (e_inode s e)]) (\<lambda>s.
          ls_entries s (next_entry s e) n))))
      else Inr s)"

definition ls_dir :: "'z filesystem_scheme \<Rightarrow> u32 \<Rightarrow> 'z filesystem_scheme result" where
  "ls_dir s inode =
     (if inode = 0 then print s (ascii ''Invalid address\<newline>'') []
      else bindE (read_inode_data s inode (std_buf s) 0 (block_size s)) (\<lambda>(_, s).
        ls_entries s (std_buf s) (entry_steps s)))"

text \<open>The regular files of a directory, up to the first subdirectory; the result is where it stopped.\<close>

fun rm_files :: "'z filesystem_scheme \<Rightarrow> u32 \<Rightarrow> u32 \<Rightarrow> nat \<Rightarrow> (u8 \<times> u32 \<times> 'z filesystem_scheme) result" where
  "rm_files s current e 0 = Inl Hang"
| "rm_files s current e (Suc n) =
     (if e < end_of_buf s \<and> e_file_type s e AND FILE_DIR = 0 then
        let tmp = next_entry s e
        in bindE (delete_file s current (e_inode s e)) (\<lambda>(res, s).
             if res \<noteq> 0 then Inr (res, e, s)
             else bindE (read_inode_data s current (std_buf s) 0 (block_size s)) (\<lambda>(_, s). rm_files s current tmp n))
      else Inr (0, e, s))"

fun rm_dir_loop :: "nat \<Rightarrow> 'z filesystem_scheme \<Rightarrow> u32 \<Rightarrow> u32 \<Rightarrow> (u8 \<times> 'z filesystem_scheme) result" where
  "rm_dir_loop 0 s inode current = Inl Hang"
| "rm_dir_loop (Suc fuel) s inode current =
     bindE (read_inode_data s current (std_buf s) 0 (block_size s)) (\<lambda>(_, s).
     let parent = std_buf s + 12
     in if ucast (e_size s parent) = block_size s - 12 then
          if current = inode then delete_file s (e_inode s parent) inode
          else let tmp = current; current = e_inode s parent
               in bindE (delete_file s current tmp) (\<lambda>(res, s).
                    if res \<noteq> 0 then Inr (res, s) else rm_dir_loop fuel s inode current)
        else
          bindE (rm_files s current (next_entry s parent) (entry_steps s)) (\<lambda>(res, e, s).
            if res \<noteq> 0 then Inr (res, s)
            else if e = end_of_buf s then rm_dir_loop fuel s inode current
            else rm_dir_loop fuel s inode (e_inode s e)))"

text \<open>\<open>fuel\<close> bounds the iterations of the endless loop.\<close>

definition rm_dir :: "nat \<Rightarrow> 'z filesystem_scheme \<Rightarrow> u32 \<Rightarrow> (u8 \<times> 'z filesystem_scheme) result" where
  "rm_dir fuel s inode =
     (if inode = 0 then bindE (print s (ascii ''Invalid address\<newline>'') []) (\<lambda>s. Inr (5, s))
      else bindE (read_inode_data s inode (std_buf s) 0 (block_size s)) (\<lambda>(_, s). rm_dir_loop fuel s inode inode))"

subsection \<open>Installation\<close>

definition set_disk :: "identification \<Rightarrow> bool \<Rightarrow> 'z filesystem_scheme \<Rightarrow> 'z filesystem_scheme result" where
  "set_disk ports debug s = bindE (identify ports debug s) (\<lambda>(e, s). Inr (s\<lparr>drv := (drv s)\<lparr>disk_id := e\<rparr>\<rparr>))"

text \<open>The fields of the super block that are used, from its 236 bytes.\<close>

definition superblock_at :: "memory \<Rightarrow> superblock" where
  "superblock_at m = \<lparr>inode_num = load32 m 0, block_num = load32 m 4, unalloc_block_num = load32 m 12,
     unalloc_inode_num = load32 m 16, spb_block_size = load32 m 24, block_per_group = load32 m 32,
     inode_per_group = load32 m 40, signature = load16 m 56, first_free_inode = load32 m 84\<rparr>"

definition filesystem_install ::
  "'z filesystem_scheme allocator \<Rightarrow> identification \<Rightarrow> 'z filesystem_scheme \<Rightarrow> 'z filesystem_scheme result"
where
  "filesystem_install A ports s =
     bindE (set_disk ports False s) (\<lambda>s.
     bindE (readPIO (drv s) (\<lambda>_. 0) 2 0 236 0) (\<lambda>m.
     let b = superblock_at m; s = s\<lparr>spb := b\<rparr>
     in if signature b \<noteq> 0xEF53 then Inl (Throw ''Wrong superblock signature : is this ext2 ?'')
        else let s = s\<lparr>block_size := push_bit (unat (spb_block_size b)) 1024, block_factor := push_bit (unat (spb_block_size b)) 2\<rparr>
        in bindE (alloc_aligned A s (block_size s) 1) (\<lambda>(p, s).
           let s = s\<lparr>std_buf := p\<rparr>
           in bindE (udiv (block_num b + block_per_group b - 1) (block_per_group b)) (\<lambda>block_group_num.
              bindE (udiv (inode_num b + inode_per_group b - 1) (inode_per_group b)) (\<lambda>inode_group_num.
              if block_group_num \<noteq> inode_group_num then Inl (Throw ''Incoherent number of block groups'')
              else bindE (udiv (block_group_num * SIZE_BGP - 1) (block_size s)) (\<lambda>q.
                let s = s\<lparr>bgpt_size := block_size s * (1 + q)\<rparr>
                in bindE (alloc_aligned A s (bgpt_size s) 1) (\<lambda>(p, s).
                   let s = s\<lparr>bgpt := p\<rparr>
                   in bindE (read_lba s (BLOCK s 1) (block_factor s * (bgpt_size s div block_size s)) (bgpt s)) (\<lambda>s.
                      bindE (alloc_aligned A s SIZE_INODE 1) (\<lambda>(p, s).
                      let s = s\<lparr>std_inode := p\<rparr>
                      in bindE (allocate_inode s) (\<lambda>(_, s).
                         bindE (create_dir s 2 (ascii ''test1'')) (\<lambda>(test1, s).
                         bindE (create_dir s 2 (ascii ''test2'')) (\<lambda>(test2, s).
                         bindE (create_dir s test1 (ascii ''subtest'')) (\<lambda>(_, s).
                         bindE (create_file s test2 (ascii ''filetest'') (PERM_ALL OR TYPE_FILE) FILE_REGULAR) (\<lambda>(_, s).
                           Inr s))))))))))))))"

end
