(* ===== verification/File_Table.thy ===== *)
theory File_Table
  imports Files
begin

text \<open>
  \<^verbatim>\<open>fs_inter.c\<close>: the table of open files, an array of 18-byte structures that grows and shrinks, and
  the operations on file descriptors.  A descriptor is a pointer to the index of its entry.
\<close>

subsection \<open>Entries of the table\<close>

abbreviation (input) O_RDONLY :: u8 where "O_RDONLY \<equiv> 0x01"
abbreviation (input) O_WRONLY :: u8 where "O_WRONLY \<equiv> 0x02"
abbreviation (input) O_RDWR :: u8 where "O_RDWR \<equiv> 0x03"
abbreviation (input) O_APPEND :: u8 where "O_APPEND \<equiv> 0x04"
abbreviation (input) O_CREAT :: u8 where "O_CREAT \<equiv> 0x08"
abbreviation (input) O_TRUNC :: u8 where "O_TRUNC \<equiv> 0x10"
abbreviation (input) O_EXCL :: u8 where "O_EXCL \<equiv> 0x20"
abbreviation (input) SEEK_SET :: u8 where "SEEK_SET \<equiv> 0x1"
abbreviation (input) SEEK_CUR :: u8 where "SEEK_CUR \<equiv> 0x2"
abbreviation (input) SEEK_END :: u8 where "SEEK_END \<equiv> 0x4"
abbreviation (input) SIZE_FDT_E :: u32 where "SIZE_FDT_E \<equiv> 18"

definition fd_inode :: "'z machine_scheme \<Rightarrow> u32 \<Rightarrow> u32" where "fd_inode s e = load32 (mem s) e"
definition fd_pos :: "'z machine_scheme \<Rightarrow> u32 \<Rightarrow> u32" where "fd_pos s e = load32 (mem s) (e + 4)"
definition fd_size :: "'z machine_scheme \<Rightarrow> u32 \<Rightarrow> u32" where "fd_size s e = load32 (mem s) (e + 8)"
definition fd_mode :: "'z machine_scheme \<Rightarrow> u32 \<Rightarrow> u16" where "fd_mode s e = load16 (mem s) (e + 12)"
definition fd_this :: "'z machine_scheme \<Rightarrow> u32 \<Rightarrow> u32" where "fd_this s e = load32 (mem s) (e + 14)"

definition fd_index :: "'z machine_scheme \<Rightarrow> u32 \<Rightarrow> u32" where
  "fd_index s f = load32 (mem s) f"

definition fd_entry :: "'z filesystem_scheme \<Rightarrow> u32 \<Rightarrow> u32" where
  "fd_entry s f = fdt s + SIZE_FDT_E * fd_index s f"

definition set_fd_pos :: "'z filesystem_scheme \<Rightarrow> u32 \<Rightarrow> u32 \<Rightarrow> 'z filesystem_scheme" where
  "set_fd_pos s f p = write32 s (fd_entry s f + 4) p"

text \<open>The test of \<^verbatim>\<open>read\<close> and \<^verbatim>\<open>write\<close>, which lets the index one behind the table pass.\<close>

definition valid_fd :: "'z filesystem_scheme \<Rightarrow> u32 \<Rightarrow> bool" where
  "valid_fd s f =
     (f \<noteq> 0 \<and> fd_index s f \<le> fdt_size s \<and> fd_this s (fd_entry s f) = f \<and> fd_inode s (fd_entry s f) \<noteq> 0)"

subsection \<open>Opening\<close>

fun free_entry :: "'z filesystem_scheme \<Rightarrow> u32 \<Rightarrow> nat \<Rightarrow> u32" where
  "free_entry s i 0 = i"
| "free_entry s i (Suc n) = (if fd_inode s (fdt s + SIZE_FDT_E * i) \<noteq> 0 then free_entry s (i + 1) n else i)"

fun clear_entries :: "'z machine_scheme \<Rightarrow> u32 \<Rightarrow> u32 \<Rightarrow> nat \<Rightarrow> 'z machine_scheme" where
  "clear_entries s table j 0 = s"
| "clear_entries s table j (Suc n) = clear_entries (write32 s (table + SIZE_FDT_E * j) 0) table (j + 1) n"

text \<open>The table doubles; structures are copied one by one, which is a copy of all their bytes.\<close>

definition expand_table :: "'z filesystem_scheme allocator \<Rightarrow> 'z filesystem_scheme \<Rightarrow> 'z filesystem_scheme result" where
  "expand_table A s =
     bindE (alloc_aligned A s (2 * fdt_size s * SIZE_FDT_E) 1) (\<lambda>(tmp, s).
       let s = set_mem s (mem_copy_loop (mem s) tmp (fdt s) (unat (fdt_size s) * 18));
           s = clear_entries s tmp (fdt_size s) (unat (2 * fdt_size s) - unat (fdt_size s))
       in bindE (release A s (fdt s)) (\<lambda>s. Inr (s\<lparr>fdt := tmp, fdt_size := fdt_size s * 2\<rparr>)))"

text \<open>
  A file that does not exist is created in the directory whose block \<^verbatim>\<open>find_inode\<close> has left in
  \<^verbatim>\<open>std_buf\<close>, under the last word of the path.
\<close>

definition openfile ::
  "'z filesystem_scheme allocator \<Rightarrow> 'z filesystem_scheme \<Rightarrow> bytes \<Rightarrow> u8 \<Rightarrow> u16 \<Rightarrow> (u32 \<times> 'z filesystem_scheme) result"
where
  "openfile A s str_path oflag fperm =
     bindE (find_inode s str_path 2) (\<lambda>(inode, s).
       if \<not> (oflag AND O_CREAT \<noteq> 0 \<or> inode \<noteq> 0) then Inr (0, s)
       else if oflag AND O_EXCL \<noteq> 0 \<and> inode \<noteq> 0 then Inr (0, s)
       else let i = free_entry s 0 (unat (fdt_size s))
       in bindE (if i = fdt_size s then expand_table A s else Inr s) (\<lambda>s.
          bindE (alloc_aligned A s 4 1) (\<lambda>(f, s).
          let s = write32 s f i; s = s\<lparr>fdt_num := fdt_num s + 1\<rparr>
          in bindE (if inode = 0 then
                 bindE (str_split str_path 47 False) (\<lambda>l.
                   if l = [] then Inl OutOfBounds
                   else create_file s (load32 (mem s) (std_buf s)) (last l) (TYPE_FILE OR fperm) FILE_REGULAR)
               else Inr (inode, s)) (\<lambda>(inode, s).
             if inode = 0 then Inr (0, s)
             else bindE (if oflag AND O_TRUNC \<noteq> 0 then erase_file_data s inode else Inr s) (\<lambda>s.
               bindE (set_inode s inode (std_inode s)) (\<lambda>s.
                 let s = set_fd_pos s f (if oflag AND O_APPEND \<noteq> 0 then size_low s (std_inode s) else 0);
                     s = write32 s (fd_entry s f + 8) (size_low s (std_inode s));
                     s = write32 s (fd_entry s f) inode;
                     s = write16 s (fd_entry s f + 12) (ucast (oflag AND 3));
                     s = write32 s (fd_entry s f + 14) f
                 in Inr (f, s)))))))"

definition openker :: "'z filesystem_scheme allocator \<Rightarrow> 'z filesystem_scheme \<Rightarrow> bytes \<Rightarrow> (u32 \<times> 'z filesystem_scheme) result" where
  "openker A s str_path = openfile A s str_path O_RDWR 0xFFFF"

subsection \<open>Reading and writing\<close>

definition read_c :: "'z filesystem_scheme \<Rightarrow> u32 \<Rightarrow> u32 \<Rightarrow> u32 \<Rightarrow> u32 \<Rightarrow> (u32 \<times> 'z filesystem_scheme) result" where
  "read_c s f buffer offset len =
     (if \<not> valid_fd s f then bindE (print s (ascii ''Invalid file descriptor\<newline>'') []) (\<lambda>s. Inr (- 1, s))
      else let e = fd_entry s f
      in if fd_mode s e AND ucast O_RDONLY = 0
         then bindE (print s (ascii ''Could not write on file without the appropriate flag\<newline>'') []) (\<lambda>s. Inr (- 2, s))
      else if fd_pos s e \<ge> fd_size s e then Inr (0, s)
      else let len = (if fd_pos s e + len > fd_size s e then fd_size s e - fd_pos s e else len)
      in bindE (read_inode_data s (fd_inode s e) (buffer + offset) (fd_pos s e) len) (\<lambda>(count, s).
           Inr (count, set_fd_pos s f (fd_pos s (fd_entry s f) + count))))"

text \<open>The number of blocks in use for a size, and the blocks that a write needs.\<close>

definition used_blocks :: "'z filesystem_scheme \<Rightarrow> u32 \<Rightarrow> u32 result" where
  "used_blocks s sz = (if sz \<noteq> 0 then bindE (udiv (sz - 1) (block_size s)) (\<lambda>q. Inr (1 + q)) else Inr 0)"

lemma write_inode_data_at_most:
  assumes "write_inode_data s inode buffer offset len = Inr (count, s')"
  shows "count \<le> len"
  using assms by (auto simp: write_inode_data_def bindE_eq_Inr Let_def not_less)

lemma remaining_shrinks:
  fixes count :: u32
  assumes "count \<le> len - written" "count \<noteq> 0"
  shows "unat (len - (written + count)) < unat (len - written)"
proof -
  have "unat (len - written - count) = unat (len - written) - unat count" using assms(1) by (rule unat_sub)
  moreover have "0 < unat count" using assms(2) by (simp add: unat_gt_0)
  moreover have "unat count \<le> unat (len - written)" using assms(1) by (simp add: word_le_nat_alt)
  ultimately show ?thesis by (simp add: diff_diff_eq)
qed

text \<open>The loop ends because a round that writes nothing ends it and no round writes more than is left.\<close>

function write_loop ::
  "'z filesystem_scheme \<Rightarrow> u32 \<Rightarrow> u32 \<Rightarrow> u32 \<Rightarrow> u32 \<Rightarrow> u32 \<Rightarrow> (u32 \<times> 'z filesystem_scheme) result"
where
  "write_loop s f buffer offset len written =
     (if written \<noteq> len then
        bindE (write_inode_data s (fd_inode s (fd_entry s f)) (buffer + offset) (fd_pos s (fd_entry s f)) (len - written)) (\<lambda>(count, s).
          if count = 0 then Inr (written, s)
          else write_loop (set_fd_pos s f (fd_pos s (fd_entry s f) + count)) f buffer (offset + count) len (written + count))
      else Inr (written, s))"
  by pat_completeness auto
termination
proof (relation "measure (\<lambda>(s, f, buffer, offset, len, written). unat (len - written))", goal_cases)
  case (2 s f buffer offset len written x count t)
  then have "count \<le> len - written" by (auto dest: write_inode_data_at_most)
  with 2 show ?case by (simp add: remaining_shrinks)
qed simp

declare write_loop.simps [simp del]

definition write_c :: "'z filesystem_scheme \<Rightarrow> u32 \<Rightarrow> u32 \<Rightarrow> u32 \<Rightarrow> u32 \<Rightarrow> (u32 \<times> 'z filesystem_scheme) result" where
  "write_c s f buffer offset len =
     (if \<not> valid_fd s f then bindE (print s (ascii ''Invalid file descriptor\<newline>'') []) (\<lambda>s. Inr (- 1, s))
      else let e = fd_entry s f
      in if fd_mode s e AND ucast O_WRONLY = 0
         then bindE (print s (ascii ''Could not write on file without the appropriate flag\<newline>'') []) (\<lambda>s. Inr (- 2, s))
      else if len = 0 then Inr (0, s)
      else bindE (udiv (fd_pos s e + len - 1) (block_size s)) (\<lambda>q.
        let to_use = 1 + q
        in bindE (used_blocks s (fd_size s e)) (\<lambda>used.
           bindE (prepare_blocks s (fd_inode s e) used to_use) (\<lambda>(alloc, s).
             if to_use > used \<and> alloc \<noteq> to_use - used then
               bindE (print s (ascii ''The block allocation failed\<newline>'') []) (\<lambda>s.
               bindE (print s (ascii ''Could only allocate %u instead of %u\<newline>'') [Word_Arg alloc, Word_Arg (to_use - used)]) (\<lambda>s.
                 Inr (- 3, s)))
             else bindE (write_loop s f buffer offset len 0) (\<lambda>(written, s).
               let e = fd_entry s f
               in if fd_pos s e > fd_size s e then
                    let s = write32 s (e + 8) (fd_pos s e);
                        s = write32 s (std_inode s + 4) (fd_size s e)
                    in bindE (update_inode s (fd_inode s e) (std_inode s)) (\<lambda>s. Inr (written, s))
                  else Inr (written, s))))))"

subsection \<open>Status and position\<close>

definition fstat :: "'z filesystem_scheme \<Rightarrow> u32 \<Rightarrow> u32 \<Rightarrow> 'z filesystem_scheme result" where
  "fstat s f st =
     bindE (if f = 0 then print s (ascii ''Invalid file descriptor\<newline>'') [] else Inr s) (\<lambda>s.
     bindE (set_inode s (fd_inode s (fd_entry s f)) (std_inode s)) (\<lambda>s.
       let s = write32 s st (fd_inode s (fd_entry s f));
           s = write8 s (st + 4) (ucast (drop_bit 12 (inode_type s (std_inode s))));
           s = write16 s (st + 6) (inode_type s (std_inode s) AND 0x0FFF);
           s = write16 s (st + 8) (hard_links s (std_inode s))
       in Inr (write32 s (st + 12) (size_low s (std_inode s)))))"

text \<open>The new position, from the old one and the size; sums and differences wrap around.\<close>

definition seek_position :: "u32 \<Rightarrow> u32 \<Rightarrow> u32 \<Rightarrow> u8 \<Rightarrow> u32" where
  "seek_position p sz offset seek =
     (if seek AND SEEK_SET \<noteq> 0 then
        (if sint offset < 0 then 0 else if offset > sz then sz else offset)
      else if seek AND SEEK_CUR \<noteq> 0 then
        (if sint offset < 0 \<and> - offset > p then 0
         else if sint offset > 0 \<and> offset + p > sz then sz
         else p + offset)
      else
        (if sint offset < 0 then sz else if offset > sz then 0 else p - offset))"

definition lseek :: "'z filesystem_scheme \<Rightarrow> u32 \<Rightarrow> u32 \<Rightarrow> u8 \<Rightarrow> (u32 \<times> 'z filesystem_scheme) result" where
  "lseek s f offset seek =
     (if seek \<noteq> SEEK_SET \<and> seek \<noteq> SEEK_CUR \<and> seek \<noteq> SEEK_END
      then bindE (print s (ascii ''Invalid seek command\<newline>'') []) (\<lambda>s. Inr (0, s))
      else let e = fd_entry s f;
               s = set_fd_pos s f (seek_position (fd_pos s e) (fd_size s e) offset seek)
           in Inr (fd_pos s (fd_entry s f), s))"

subsection \<open>Closing\<close>

text \<open>
  Moving an entry of the upper part of the table to the free entry \<open>i\<close>; the search counts \<open>n\<close>
  entries down from \<open>j\<close>.  The test \<^verbatim>\<open>j == fdt_size\<close> behind it never holds, so that \<^verbatim>\<open>copy\<close>
  stays true, and an entry for which nothing is found is not written.
\<close>

fun move_entry :: "'z filesystem_scheme \<Rightarrow> u32 \<Rightarrow> u32 \<Rightarrow> u32 \<Rightarrow> nat \<Rightarrow> 'z filesystem_scheme" where
  "move_entry s tmp i j 0 = s"
| "move_entry s tmp i j (Suc n) =
     (let e = fdt s + SIZE_FDT_E * j; new = tmp + SIZE_FDT_E * i
      in if fd_inode s e \<noteq> 0 then
           let s = set_mem s (mem_copy_loop (mem s) new e 18);
               s = write32 s (fd_this s new) i
           in write32 s e 0
         else move_entry s tmp i (j - 1) n)"

fun shrink_table :: "'z filesystem_scheme \<Rightarrow> u32 \<Rightarrow> u32 \<Rightarrow> nat \<Rightarrow> 'z filesystem_scheme" where
  "shrink_table s tmp i 0 = s"
| "shrink_table s tmp i (Suc n) =
     (let e = fdt s + SIZE_FDT_E * i;
          s = (if fd_inode s e \<noteq> 0 then set_mem s (mem_copy_loop (mem s) (tmp + SIZE_FDT_E * i) e 18)
               else move_entry s tmp i (fdt_size s - 1) (unat (fdt_size s - 1) - unat i))
      in shrink_table s tmp (i + 1) n)"

definition close_c :: "'z filesystem_scheme allocator \<Rightarrow> 'z filesystem_scheme \<Rightarrow> u32 \<Rightarrow> 'z filesystem_scheme result" where
  "close_c A s f =
     (if f = 0 \<or> fd_inode s (fd_entry s f) = 0 then Inr s
      else let s = write32 s (fd_entry s f) 0;
               s = write32 s (fd_entry s f + 14) 0
      in bindE (release A s f) (\<lambda>s.
         let s = s\<lparr>fdt_num := fdt_num s - 1\<rparr>
         in if fdt_num s > 64 \<and> fdt_num s < fdt_size s div 4 then
              bindE (alloc_aligned A s (fdt_size s div 2 * SIZE_FDT_E) 1) (\<lambda>(tmp, s).
              let s = shrink_table s tmp 0 (unat (fdt_size s div 4))
              in bindE (release A s (fdt s)) (\<lambda>s. Inr (s\<lparr>fdt := tmp, fdt_size := fdt_size s div 2\<rparr>)))
            else Inr s))"

definition fs_inter_install :: "'z filesystem_scheme allocator \<Rightarrow> 'z filesystem_scheme \<Rightarrow> 'z filesystem_scheme result" where
  "fs_inter_install A s =
     (let s = s\<lparr>fdt_size := 256\<rparr>
      in bindE (alloc_aligned A s (fdt_size s * SIZE_FDT_E) 1) (\<lambda>(p, s).
           Inr (clear_entries (s\<lparr>fdt := p\<rparr>) p 0 256)))"

end
