(* ===== verification/File_Props.thy ===== *)
theory File_Props
  imports File_Table Ata_Props Regions
begin

text \<open>
  Properties of the operations on open files: reads and writes end, also when they allocate blocks
  through all levels of indirection, and the positions that \<^verbatim>\<open>lseek\<close> sets.
\<close>

subsection \<open>Ending\<close>

text \<open>
  \<open>returns Q r\<close>: the computation does not run for ever, and if it gives a value, \<open>Q\<close> holds for it.
  The rules are weakest preconditions, one for each operation, for goals on an arbitrary \<open>Q\<close>.
\<close>

definition returns :: "('a \<Rightarrow> bool) \<Rightarrow> 'a result \<Rightarrow> bool" where
  "returns Q r = (case r of Inl e \<Rightarrow> e \<noteq> Hang | Inr a \<Rightarrow> Q a)"

named_theorems ends \<open>operations of the file system end when the drive gets ready\<close>

lemma returns_simps [simp]:
  "returns Q (Inr a) = Q a" "returns Q (Inl e) = (e \<noteq> Hang)"
  "returns Q (bindE r f) = returns (\<lambda>a. returns Q (f a)) r"
  by (auto simp: returns_def bindE_def split: sum.splits)

lemma returns_mono: "returns P r \<Longrightarrow> (\<And>a. P a \<Longrightarrow> Q a) \<Longrightarrow> returns Q r"
  by (auto simp: returns_def split: sum.splits)

lemma returns_udiv [ends]: "(\<And>q. Q q) \<Longrightarrow> returns Q (udiv a b)"
  by (simp add: udiv_def)

lemma returns_umod [ends]: "(\<And>q. Q q) \<Longrightarrow> returns Q (umod a b)"
  by (simp add: umod_def)

abbreviation (input) ready :: "'z filesystem_scheme \<Rightarrow> bool" where
  "ready s \<equiv> drive_ready (drv s)"

lemma ready_updates [simp]:
  fixes s :: "'z filesystem_scheme"
  shows "drv (set_mem s m) = drv s" "drv (write32 s a v) = drv s" "drv (write16 s a w) = drv s" "drv (write8 s a b) = drv s"
    "drv (s\<lparr>spb := x\<rparr>) = drv s" "drv (s\<lparr>scr := c\<rparr>) = drv s"
  by (simp_all add: set_mem_def write32_def write16_def write8_def)

lemma read_sectors_ends: "drive_ready d \<Longrightarrow> returns (\<lambda>_. True) (read_sectors d m buffer sector n)"
  by (induction n arbitrary: m buffer sector) (simp_all add: drive_ready_def)

lemma write_sectors_ends: "drive_ready d \<Longrightarrow> returns drive_ready (write_sectors d m buffer sector n)"
proof (induction n arbitrary: d buffer sector)
  case (Suc n)
  let ?d = "write_sector d m buffer sector"
  have r: "drive_ready ?d" using Suc.prems by (simp add: write_sector_def)
  then have "\<exists>r. poll_busy (flush_status ?d sector) = Inr r" "poll (poll_status d sector) = Inr 0"
    using Suc.prems by (auto simp: drive_ready_def)
  then show ?case using Suc.IH [OF r] by (auto simp: Let_def)
qed simp

lemma pio_loop_ends: "drive_ready d \<Longrightarrow> returns (\<lambda>_. True) (pio_loop d sector buffer ofs len i m)"
proof (induction d sector buffer ofs len i m rule: pio_loop.induct)
  case (1 d sector buffer ofs len i m)
  have "(if (i + ofs) mod 512 = 0 then poll (poll_status d (sector + of_int ((i + ofs) div 512))) else Inr 0) = Inr 0"
    using "1.prems" by (simp add: drive_ready_def)
  then show ?case using "1.IH" "1.prems" by (subst pio_loop.simps) (simp add: Let_def)
qed

lemma read_lba_ends [ends]:
  assumes "ready s" "\<And>t. ready t \<Longrightarrow> Q t"
  shows "returns Q (read_lba s lba count buffer)"
  using assms read_sectors_ends [OF assms(1)]
  by (auto simp: read_lba_def readLBA_def drive_ready_def elim!: returns_mono)

lemma write_lba_ends [ends]:
  assumes "ready s" "\<And>t. ready t \<Longrightarrow> Q t"
  shows "returns Q (write_lba s lba count buffer)"
proof -
  have "returns (\<lambda>d. Q (s\<lparr>drv := d\<rparr>)) (write_sectors (drv s) m buffer sector n)" for m buffer sector n
    by (rule returns_mono [OF write_sectors_ends [OF assms(1)]]) (simp add: assms(2))
  moreover have "disk_id (drv s) = 0" using assms(1) by (simp add: drive_ready_def)
  ultimately show ?thesis by (simp add: write_lba_def writeLBA_def)
qed

lemma read_pio_ends [ends]:
  assumes "ready s" "\<And>t. ready t \<Longrightarrow> Q t"
  shows "returns Q (read_pio s lba offset len buffer)"
proof -
  have "returns P (pio_loop (drv s) sector buffer ofs len i m)" if "\<And>r. P r" for P sector buffer ofs len i m
    by (rule returns_mono [OF pio_loop_ends [OF assms(1)]]) (rule that)
  moreover have "disk_id (drv s) = 0" using assms(1) by (simp add: drive_ready_def)
  ultimately show ?thesis using assms by (simp add: read_pio_def readPIO_def Let_def split_def)
qed

lemma update_block_ends [ends]:
  assumes "ready s" "\<And>t. ready t \<Longrightarrow> Q t"
  shows "returns Q (update_block s buffer ofs len address)"
  using assms by (auto simp: update_block_def Let_def intro!: ends)

lemma set_inode_ends [ends]:
  assumes "ready s" "\<And>t. ready t \<Longrightarrow> Q t"
  shows "returns Q (set_inode s inode buffer)"
  using assms by (auto simp: set_inode_def Let_def intro!: ends)

lemma update_inode_ends [ends]:
  assumes "ready s" "\<And>t. ready t \<Longrightarrow> Q t"
  shows "returns Q (update_inode s inode buffer)"
  using assms by (auto simp: update_inode_def Let_def intro!: ends)

lemma flush_bgpt_ends [ends]:
  assumes "ready s" "\<And>t. ready t \<Longrightarrow> Q t"
  shows "returns Q (flush_bgpt s)"
  using assms by (auto simp: flush_bgpt_def Let_def intro!: ends)

subsection \<open>Allocation of blocks\<close>

lemma free_block_loop_ready: "ready s \<Longrightarrow> returns (\<lambda>(k, p, t). ready t) (free_block_loop s b k n p)"
  by (induction n arbitrary: s k p) (auto simp: Let_def intro!: ends)

lemma free_block_loop_ends [ends]:
  assumes "ready s" "\<And>k p t. ready t \<Longrightarrow> Q (k, p, t)"
  shows "returns Q (free_block_loop s b k n p)"
  using free_block_loop_ready [OF assms(1)] by (rule returns_mono) (auto intro: assms(2))

lemma allocate_block_from_ends [ends]:
  assumes "ready s" "\<And>r t. ready t \<Longrightarrow> Q (r, t)"
  shows "returns Q (allocate_block_from s prec)"
  using assms by (auto simp: allocate_block_from_def Let_def intro!: ends)

lemma allocate_block_ends [ends]:
  assumes "ready s" "\<And>r t. ready t \<Longrightarrow> Q (r, t)"
  shows "returns Q (allocate_block s prec)"
  using assms by (auto simp: allocate_block_def Let_def intro!: ends split: option.split)

text \<open>The loops of \<^verbatim>\<open>prepare_blocks\<close>, from the innermost one outwards.\<close>

lemma fill_direct_ready:
  "ready s \<Longrightarrow> returns (\<lambda>(stop, used, addr, count, t). ready t) (fill_direct s inode used to_use addr count n)"
  by (induction n arbitrary: s used addr count) (auto simp: Let_def intro!: ends)

lemma fill_direct_ends [ends]:
  assumes "ready s" "\<And>stop used addr count t. ready t \<Longrightarrow> Q (stop, used, addr, count, t)"
  shows "returns Q (fill_direct s inode used to_use addr count n)"
  using fill_direct_ready [OF assms(1)] by (rule returns_mono) (auto intro: assms(2))

lemma fill_table_ready:
  "ready s \<Longrightarrow> returns (\<lambda>(stop, used, addr, count, t). ready t) (fill_table s block sectors j used to_use addr count n)"
  by (induction n arbitrary: s j used addr count) (auto simp: Let_def intro!: ends)

lemma fill_table_ends [ends]:
  assumes "ready s" "\<And>stop used addr count t. ready t \<Longrightarrow> Q (stop, used, addr, count, t)"
  shows "returns Q (fill_table s block sectors j used to_use addr count n)"
  using fill_table_ready [OF assms(1)] by (rule returns_mono) (auto intro: assms(2))

lemma fill_double_ready:
  "ready s \<Longrightarrow> returns (\<lambda>(stop, used, addr, count, t). ready t) (fill_double s i used to_use addr count n)"
  by (induction n arbitrary: s i used addr count) (auto simp: Let_def intro!: ends)

lemma fill_double_ends [ends]:
  assumes "ready s" "\<And>stop used addr count t. ready t \<Longrightarrow> Q (stop, used, addr, count, t)"
  shows "returns Q (fill_double s i used to_use addr count n)"
  using fill_double_ready [OF assms(1)] by (rule returns_mono) (auto intro: assms(2))

lemma fill_square_ready:
  "ready s \<Longrightarrow> returns (\<lambda>(stop, used, addr, count, t). ready t) (fill_square s c j used to_use addr count n)"
  by (induction n arbitrary: s j used addr count) (auto simp: Let_def intro!: ends)

lemma fill_square_ends [ends]:
  assumes "ready s" "\<And>stop used addr count t. ready t \<Longrightarrow> Q (stop, used, addr, count, t)"
  shows "returns Q (fill_square s c j used to_use addr count n)"
  using fill_square_ready [OF assms(1)] by (rule returns_mono) (auto intro: assms(2))

lemma fill_triple_ready:
  "ready s \<Longrightarrow> returns (\<lambda>(count, t). ready t) (fill_triple s i used to_use addr count n)"
  by (induction n arbitrary: s i used addr count) (auto simp: Let_def intro!: ends)

lemma fill_triple_ends [ends]:
  assumes "ready s" "\<And>count t. ready t \<Longrightarrow> Q (count, t)"
  shows "returns Q (fill_triple s i used to_use addr count n)"
  using fill_triple_ready [OF assms(1)] by (rule returns_mono) (auto intro: assms(2))

lemma prepare_triple_ends [ends]:
  assumes "ready s" "\<And>count t. ready t \<Longrightarrow> Q (count, t)"
  shows "returns Q (prepare_triple s inode used to_use addr count)"
  using assms by (auto simp: prepare_triple_def Let_def intro!: ends)

lemma prepare_double_ends [ends]:
  assumes "ready s" "\<And>count t. ready t \<Longrightarrow> Q (count, t)"
  shows "returns Q (prepare_double s inode used to_use addr count)"
  using assms by (auto simp: prepare_double_def Let_def intro!: ends)

lemma prepare_blocks_ends [ends]:
  assumes "ready s" "\<And>count t. ready t \<Longrightarrow> Q (count, t)"
  shows "returns Q (prepare_blocks s inode used to_use)"
  using assms by (auto simp: prepare_blocks_def Let_def intro!: ends)

subsection \<open>Reading and writing\<close>

lemma data_block_ends [ends]:
  assumes "ready s" "\<And>b t. ready t \<Longrightarrow> Q (b, t)"
  shows "returns Q (data_block s n)"
  using assms by (auto simp: data_block_def read_indirect_def Let_def intro!: ends)

lemma read_inode_data_ends [ends]:
  assumes "ready s" "\<And>b t. ready t \<Longrightarrow> Q (b, t)"
  shows "returns Q (read_inode_data s inode buffer offset len)"
  using assms by (auto simp: read_inode_data_def Let_def intro!: ends)

lemma write_inode_data_ends [ends]:
  assumes "ready s" "\<And>b t. ready t \<Longrightarrow> Q (b, t)"
  shows "returns Q (write_inode_data s inode buffer offset len)"
  using assms by (auto simp: write_inode_data_def Let_def intro!: ends)

lemma returns_eq: "returns Q r \<longleftrightarrow> r \<noteq> Inl Hang \<and> (\<forall>a. r = Inr a \<longrightarrow> Q a)"
  by (cases r) auto

lemma write_loop_ready:
  "ready s \<Longrightarrow> returns (\<lambda>(w, t). ready t) (write_loop s f buffer offset len written)"
proof (induction s f buffer offset len written rule: write_loop.induct)
  case (1 s f buffer offset len written)
  show ?case
  proof (cases "written = len")
    case False
    let ?r = "write_inode_data s (fd_inode s (fd_entry s f)) (buffer + offset) (fd_pos s (fd_entry s f)) (len - written)"
    have ends: "returns (\<lambda>(count, t). ready t) ?r" using "1.prems" by (auto intro!: ends)
    show ?thesis
    proof (cases ?r)
      case (Inl e)
      then have "e \<noteq> Hang" using ends by simp
      then show ?thesis using False Inl by (subst write_loop.simps) simp
    next
      case (Inr a)
      obtain count t where a: "a = (count, t)" by (cases a)
      have t: "ready t" using ends Inr a by simp
      show ?thesis
      proof (cases "count = 0")
        case True
        then show ?thesis using False Inr a t by (subst write_loop.simps) simp
      next
        case more: False
        have "ready (set_fd_pos t f (fd_pos t (fd_entry t f) + count))" using t by (simp add: set_fd_pos_def)
        then show ?thesis using "1.IH" [OF False Inr a [symmetric] more] False Inr a more by (subst write_loop.simps) simp
      qed
    qed
  qed (use "1.prems" in \<open>simp add: write_loop.simps\<close>)
qed

lemma write_loop_ends [ends]:
  assumes "ready s" "\<And>w t. ready t \<Longrightarrow> Q (w, t)"
  shows "returns Q (write_loop s f buffer offset len written)"
  using write_loop_ready [OF assms(1)] by (rule returns_mono) (auto intro: assms(2))

text \<open>Printing a message ends because the bases of the conversions are 10 and 16.\<close>

lemma int_len_ends: "\<bar>base\<bar> \<noteq> 1 \<Longrightarrow> returns (\<lambda>_. True) (int_len n base)"
  by (induction n base rule: int_len.induct) (subst int_len.simps, simp)

lemma u_int_len_ends: "base \<noteq> 1 \<Longrightarrow> returns (\<lambda>_. True) (u_int_len n base)"
  by (induction n base rule: u_int_len.induct) (subst u_int_len.simps, simp)

lemma store_digits_ends: "returns (\<lambda>_. True) (store_digits str num base len n)"
  by (induction n arbitrary: str num len) simp_all

lemma store_digits_signed_ends: "returns (\<lambda>_. True) (store_digits_signed str num base len n)"
  by (induction n arbitrary: str num len) simp_all

lemma u_int_to_string_ends: "base \<noteq> 1 \<Longrightarrow> returns (\<lambda>_. True) (u_int_to_string str num base)"
  unfolding u_int_to_string_def returns_simps
  by (rule returns_mono [OF u_int_len_ends], assumption, rule returns_mono [OF store_digits_ends]) simp

lemma int_to_string_ends: "\<bar>sint base\<bar> \<noteq> 1 \<Longrightarrow> returns (\<lambda>_. True) (int_to_string str num base)"
  unfolding int_to_string_def Let_def returns_simps
  by (rule returns_mono [OF int_len_ends], assumption) (auto intro: returns_mono [OF store_digits_signed_ends])

lemma write_string_ends: "returns (\<lambda>_. True) (write_string s cs)"
  by (induction s cs rule: write_string.induct) (auto simp: utf8_char_def split: list.splits)

lemma to_string_ends:
  assumes "\<And>a. Q a"
  shows "returns Q (int_to_string str num 10)" "returns Q (u_int_to_string str num 10)"
    "returns Q (u_int_to_string str num 16)"
  by (rule returns_mono [OF int_to_string_ends] returns_mono [OF u_int_to_string_ends], simp, rule assms)+

lemma write_string_returns: "(\<And>a. Q a) \<Longrightarrow> returns Q (write_string s cs)"
  by (rule returns_mono [OF write_string_ends])

lemma pop_ends: "(\<And>a. Q a) \<Longrightarrow> returns Q (pop_word args)" "(\<And>b. P b) \<Longrightarrow> returns P (pop_str args)"
  by (auto simp: pop_word_def pop_str_def split: list.split arg.split)

lemma write_conversion_ends: "returns (\<lambda>_. True) (write_conversion s c args)"
  by (auto simp: write_conversion_def Let_def intro!: to_string_ends write_string_returns pop_ends)

lemma writef_ends: "returns (\<lambda>_. True) (writef s fmt args)"
proof (induction s fmt args rule: writef.induct)
  case (3 s c d cs args)
  have conv: "returns Q (write_conversion s d args)" if "\<And>t as. write_conversion s d args = Inr (t, as) \<Longrightarrow> Q (t, as)" for Q
    using that write_conversion_ends [of s d args] by (cases "write_conversion s d args") auto
  show ?case using "3.IH" by (auto simp: utf8_char_def intro!: conv)
qed auto

lemma print_ends [ends]:
  fixes s :: "'z filesystem_scheme"
  assumes "ready s" "\<And>t. ready t \<Longrightarrow> Q t"
  shows "returns Q (print s fmt args)"
  unfolding print_def returns_simps by (rule returns_mono [OF writef_ends]) (simp add: assms)

lemma write_c_ends:
  assumes "ready s"
  shows "returns (\<lambda>_. True) (write_c s f buffer offset len)"
  using assms by (auto simp: write_c_def used_blocks_def Let_def intro!: ends)

lemma read_c_ends:
  assumes "ready s"
  shows "returns (\<lambda>_. True) (read_c s f buffer offset len)"
  using assms by (auto simp: read_c_def Let_def intro!: ends)


text \<open>An open file with inode 7, ten bytes long, at position 2.\<close>

definition example_files :: filesystem where
  "example_files = (boot_filesystem \<lparr>disk_id = 0, disk = (\<lambda>_. 0), poll_status = (\<lambda>_. [8]), flush_status = (\<lambda>_. [0])\<rparr>)
     \<lparr>kmem := store32 (store32 (store32 (store32 (\<lambda>_. 0) 0x60000 7) 0x60004 2) 0x60008 10) 0x6000E 0x70000,
      block_factor := 2, block_size := 1024, std_buf := 0x20000, std_inode := 0x30000, fdt := 0x60000, fdt_size := 256,
      fdt_num := 1\<rparr>"


subsection \<open>Positions\<close>

lemma uint_range: "0 \<le> uint w" "uint w < 4294967296" for w :: u32
  using uint_bounded [of w] by auto

lemma mod_once: "0 \<le> x \<Longrightarrow> x < 2 * n \<Longrightarrow> x mod n = (if x < n then x else x - n)" for x n :: int
proof (cases "x < n")
  case False
  assume "x < 2 * n"
  then have "(x - n) mod n = x - n" using False by (intro mod_pos_pos_trivial) auto
  moreover have "(x - n) mod n = x mod n" by simp
  ultimately show ?thesis using False by simp
qed simp

lemma sint_cases: "sint w = (if uint w < 2147483648 then uint w else uint w - 4294967296)" for w :: u32
proof -
  have "sint w = signed_take_bit 31 (uint w)" by (simp add: sint_uint)
  also have "\<dots> = (uint w + 2147483648) mod 4294967296 - 2147483648"
    by (simp add: signed_take_bit_eq_take_bit_shift take_bit_eq_mod)
  finally show ?thesis using uint_range [of w] by (simp add: mod_once)
qed

lemma uint_minus: "uint (- w) = (if uint w = 0 then 0 else 4294967296 - uint w)" for w :: u32
proof -
  have eq: "uint (- w) = (4294967296 - uint w) mod 4294967296" by (simp add: uint_word_ariths)
  show ?thesis
  proof (cases "uint w = 0")
    case False
    then have "(4294967296 - uint w) mod 4294967296 = 4294967296 - uint w"
      using uint_range [of w] by (intro mod_pos_pos_trivial) linarith+
    then show ?thesis using False eq by simp
  qed (simp add: eq)
qed

lemma uint_plus: "uint (a + b) = (if uint a + uint b < 4294967296 then uint a + uint b else uint a + uint b - 4294967296)" for a b :: u32
proof -
  have "uint (a + b) = (uint a + uint b) mod 4294967296" by (simp add: uint_word_ariths)
  then show ?thesis using uint_range [of a] uint_range [of b] by (simp add: mod_once)
qed

lemma uint_diff: "uint (a - b) = (uint a - uint b) mod 4294967296" for a b :: u32
  by (simp add: uint_word_ariths)

lemma seek_set: "uint sz < 2147483648 \<Longrightarrow> uint (seek_position p sz offset 1) = max 0 (min (sint offset) (uint sz))"
  using uint_range [of offset] by (auto simp: seek_position_def sint_cases word_less_def)

lemma seek_cur:
  "uint sz < 2147483648 \<Longrightarrow> uint p \<le> uint sz \<Longrightarrow>
     uint (seek_position p sz offset 2) = max 0 (min (uint p + sint offset) (uint sz))"
  using uint_range [of offset] uint_range [of p]
  by (auto simp: seek_position_def sint_cases word_less_def uint_minus uint_plus)

lemma seek_end:
  "uint sz < 2147483648 \<Longrightarrow> uint (seek_position p sz offset 4) =
     (if sint offset < 0 then uint sz else if sint offset > uint sz then 0 else (uint p - sint offset) mod 4294967296)"
  using uint_range [of offset] by (auto simp: seek_position_def sint_cases word_less_def uint_diff)

lemma set_fd_pos_reads:
  assumes "separate f 4 (fd_entry s f + 4) 4"
  shows "fd_entry (set_fd_pos s f p) f = fd_entry s f" "fd_pos (set_fd_pos s f p) (fd_entry s f) = p"
proof -
  have same: "fdt (set_mem s m) = fdt s" for m by (simp add: set_mem_def)
  show "fd_entry (set_fd_pos s f p) f = fd_entry s f" "fd_pos (set_fd_pos s f p) (fd_entry s f) = p"
    using load32_store32_separate [OF separate_sym [OF assms], of "mem s" p]
    by (simp_all add: set_fd_pos_def write32_def fd_entry_def fd_index_def fd_pos_def same)
qed

text \<open>
  C39: \<^verbatim>\<open>lseek\<close> returns the position that it sets.  From the beginning and from the current position the
  result is the sum, cut off at 0 and at the end of the file.  With \<^verbatim>\<open>SEEK_END\<close> the offset is
  subtracted from the current position and not from the end, so that the position can wrap around.
\<close>
theorem lseek_positions:
  assumes "separate f 4 (fd_entry s f + 4) 4" "seek \<in> {SEEK_SET, SEEK_CUR, SEEK_END}"
    and "uint (fd_pos s (fd_entry s f)) \<le> uint (fd_size s (fd_entry s f))" "uint (fd_size s (fd_entry s f)) < 2 ^ 31"
  shows "\<exists>p t. lseek s f offset seek = Inr (p, t) \<and> fd_pos t (fd_entry t f) = p \<and>
    uint p =
      (let old = uint (fd_pos s (fd_entry s f)); sz = uint (fd_size s (fd_entry s f)); ofs = sint offset
       in if seek = SEEK_SET then max 0 (min ofs sz)
          else if seek = SEEK_CUR then max 0 (min (old + ofs) sz)
          else if ofs < 0 then sz else if ofs > sz then 0 else (old - ofs) mod 2 ^ 32)"
proof -
  let ?p = "seek_position (fd_pos s (fd_entry s f)) (fd_size s (fd_entry s f)) offset seek"
  have "lseek s f offset seek = Inr (?p, set_fd_pos s f ?p)"
    using assms(1,2) by (auto simp: lseek_def Let_def set_fd_pos_reads)
  then show ?thesis
    using assms by (auto simp: set_fd_pos_reads seek_set seek_cur seek_end Let_def)
qed

theorem lseek_positions_witness:
  "\<exists>p t. lseek example_files 0x70000 5 SEEK_END = Inr (p, t) \<and> p = 0xFFFFFFFD"
proof -
  have m: "mem example_files = store32 (store32 (store32 (store32 (\<lambda>_. 0) 0x60000 7) 0x60004 2) 0x60008 10) 0x6000E 0x70000"
    by (simp add: example_files_def boot_filesystem_def mem_def)
  have e: "fd_entry example_files 0x70000 = 0x60000"
    by (simp add: fd_entry_def fd_index_def m load32_def store32_def) (simp add: example_files_def)
  have r: "fd_pos example_files 0x60000 = 2" "fd_size example_files 0x60000 = 10"
    by (simp_all add: fd_pos_def fd_size_def m load32_def store32_def)
  have "sint (5 :: u32) = 5" by (simp add: sint_cases)
  then obtain p t where "lseek example_files 0x70000 5 SEEK_END = Inr (p, t)" "uint p = (2 - 5) mod 2 ^ 32"
    using lseek_positions [of "0x70000" example_files SEEK_END 5] e r by (auto simp: separate_after)
  then show ?thesis by (intro exI [of _ p] exI [of _ t]) (simp add: word_uint_eq_iff)
qed

end
