(* ===== verification/Klist.thy ===== *)
theory Klist
  imports Paging
begin

text \<open>
  \<^verbatim>\<open>list.c\<close> and \<^verbatim>\<open>queue.c\<close>: singly linked lists and circular doubly linked queues of words, in cells
  that the allocator provides.  A list or queue is a pointer to the address of its first cell.
  The other theories use the lists of the elements in place of these structures.
\<close>

subsection \<open>Lists\<close>

definition head_of :: "'z machine_scheme \<Rightarrow> u32 \<Rightarrow> u32" where "head_of s c = load32 (mem s) c"
definition tail_of :: "'z machine_scheme \<Rightarrow> u32 \<Rightarrow> u32" where "tail_of s c = load32 (mem s) (c + 4)"
definition first_cell :: "'z machine_scheme \<Rightarrow> u32 \<Rightarrow> u32" where "first_cell s l = load32 (mem s) l"

definition empty_list :: "'z paged_scheme allocator \<Rightarrow> 'z paged_scheme \<Rightarrow> (u32 \<times> 'z paged_scheme) result" where
  "empty_list A s = bindE (alloc_aligned A s 4 1) (\<lambda>(l, s). Inr (l, write32 s l 0))"

definition is_empty_list :: "'z machine_scheme \<Rightarrow> u32 \<Rightarrow> bool" where
  "is_empty_list s l = (first_cell s l = 0)"

definition push :: "'z paged_scheme allocator \<Rightarrow> 'z paged_scheme \<Rightarrow> u32 \<Rightarrow> u32 \<Rightarrow> 'z paged_scheme result" where
  "push A s l x =
     bindE (alloc_aligned A s 8 1) (\<lambda>(u, s).
       let s = write32 s u x; s = write32 s (u + 4) (first_cell s l) in Inr (write32 s l u))"

definition pop :: "'z paged_scheme allocator \<Rightarrow> 'z paged_scheme \<Rightarrow> u32 \<Rightarrow> (u32 \<times> 'z paged_scheme) result" where
  "pop A s l =
     (let c = first_cell s l; x = head_of s c; tail = tail_of s c
      in bindE (release A s c) (\<lambda>s. Inr (x, write32 s l tail)))"

text \<open>The search for the cell before the first one with \<open>x\<close>; on a cyclic list it may not end.\<close>

partial_function (option) before_elt :: "'z machine_scheme \<Rightarrow> u32 \<Rightarrow> u32 \<Rightarrow> u32 option" where
  "before_elt s cell x =
     (if tail_of s cell \<noteq> 0 \<and> head_of s (tail_of s cell) \<noteq> x then before_elt s (tail_of s cell) x else Some cell)"

definition remove_elt :: "'z paged_scheme allocator \<Rightarrow> 'z paged_scheme \<Rightarrow> u32 \<Rightarrow> u32 \<Rightarrow> 'z paged_scheme result" where
  "remove_elt A s l x =
     (let c = first_cell s l
      in if c = 0 then Inr s
         else if head_of s c = x then
           let tail = tail_of s c in bindE (release A s c) (\<lambda>s. Inr (write32 s l tail))
         else bindE (of_option Hang (before_elt s c x)) (\<lambda>cell.
           if tail_of s cell = 0 then Inr s
           else let tail = tail_of s (tail_of s cell)
                in bindE (release A s (tail_of s cell)) (\<lambda>s. Inr (write32 s (cell + 4) tail))))"

partial_function (option) max_loop :: "'z machine_scheme \<Rightarrow> u32 \<Rightarrow> u32 \<Rightarrow> u32 option" where
  "max_loop s cell max_elt =
     (if cell = 0 then Some max_elt else max_loop s (tail_of s cell) (max_c max_elt (head_of s cell)))"

definition max_list :: "'z machine_scheme \<Rightarrow> u32 \<Rightarrow> u32 result" where
  "max_list s l = of_option Hang (max_loop s (tail_of s (first_cell s l)) (head_of s (first_cell s l)))"

definition extract_max :: "'z paged_scheme allocator \<Rightarrow> 'z paged_scheme \<Rightarrow> u32 \<Rightarrow> (u32 \<times> 'z paged_scheme) result" where
  "extract_max A s l =
     bindE (max_list s l) (\<lambda>max_elt. bindE (remove_elt A s l max_elt) (\<lambda>s. Inr (max_elt, s)))"

text \<open>The new list is built in a local variable; the cells of the old one are not released.\<close>

partial_function (option) reverse_loop ::
  "'z paged_scheme allocator \<Rightarrow> 'z paged_scheme \<Rightarrow> u32 \<Rightarrow> u32 \<Rightarrow> (u32 \<times> 'z paged_scheme) result option"
where
  "reverse_loop A s reversed cell =
     (if cell = 0 then Some (Inr (reversed, s))
      else case alloc_aligned A s 8 1 of
        Inl e \<Rightarrow> Some (Inl e)
      | Inr r \<Rightarrow>
          reverse_loop A (write32 (write32 (snd r) (fst r) (head_of (snd r) cell)) (fst r + 4) reversed) (fst r)
            (tail_of (write32 (write32 (snd r) (fst r) (head_of (snd r) cell)) (fst r + 4) reversed) cell))"

definition reverse_c :: "'z paged_scheme allocator \<Rightarrow> 'z paged_scheme \<Rightarrow> u32 \<Rightarrow> 'z paged_scheme result" where
  "reverse_c A s l =
     (case reverse_loop A s 0 (first_cell s l) of None \<Rightarrow> Inl Hang
      | Some r \<Rightarrow> bindE r (\<lambda>(reversed, s). Inr (write32 s l reversed)))"

partial_function (option) find_cell :: "'z machine_scheme \<Rightarrow> u32 \<Rightarrow> (u32 \<Rightarrow> bool) \<Rightarrow> u32 option" where
  "find_cell s cell p =
     (if cell = 0 then Some 0 else if p (head_of s cell) then Some cell else find_cell s (tail_of s cell) p)"

text \<open>The element is read again after its cell may have been released.\<close>

definition find_c ::
  "'z paged_scheme allocator \<Rightarrow> 'z paged_scheme \<Rightarrow> u32 \<Rightarrow> (u32 \<Rightarrow> bool) \<Rightarrow> bool \<Rightarrow> (u32 \<times> 'z paged_scheme) result"
where
  "find_c A s l p remove =
     bindE (of_option Hang (find_cell s (first_cell s l) p)) (\<lambda>cell.
       if cell = 0 then Inr (0, s)
       else bindE (if remove then remove_elt A s l (head_of s cell) else Inr s) (\<lambda>s. Inr (head_of s cell, s)))"

partial_function (option) delete_loop ::
  "'z paged_scheme allocator \<Rightarrow> 'z paged_scheme \<Rightarrow> u32 \<Rightarrow> bool \<Rightarrow> 'z paged_scheme result option"
where
  "delete_loop A s l free_elts =
     (if is_empty_list s l then Some (Inr s)
      else case bindE (pop A s l) (\<lambda>(x, s). if free_elts then release A s x else Inr s) of
        Inl e \<Rightarrow> Some (Inl e) | Inr s \<Rightarrow> delete_loop A s l free_elts)"

definition delete_list :: "'z paged_scheme allocator \<Rightarrow> 'z paged_scheme \<Rightarrow> u32 \<Rightarrow> bool \<Rightarrow> 'z paged_scheme result" where
  "delete_list A s l free_elts =
     (case delete_loop A s l free_elts of None \<Rightarrow> Inl Hang | Some r \<Rightarrow> bindE r (\<lambda>s. release A s l))"

subsection \<open>Queues\<close>

definition q_value :: "'z machine_scheme \<Rightarrow> u32 \<Rightarrow> u32" where "q_value s e = load32 (mem s) e"
definition q_prev :: "'z machine_scheme \<Rightarrow> u32 \<Rightarrow> u32" where "q_prev s e = load32 (mem s) (e + 4)"
definition q_next :: "'z machine_scheme \<Rightarrow> u32 \<Rightarrow> u32" where "q_next s e = load32 (mem s) (e + 8)"

definition empty_queue :: "'z paged_scheme allocator \<Rightarrow> 'z paged_scheme \<Rightarrow> (u32 \<times> 'z paged_scheme) result" where
  "empty_queue A s = bindE (alloc_aligned A s 4 1) (\<lambda>(q, s). Inr (q, write32 s q 0))"

definition is_empty_queue :: "'z machine_scheme \<Rightarrow> u32 \<Rightarrow> bool" where
  "is_empty_queue s q = (first_cell s q = 0)"

definition enqueue :: "'z paged_scheme allocator \<Rightarrow> 'z paged_scheme \<Rightarrow> u32 \<Rightarrow> u32 \<Rightarrow> 'z paged_scheme result" where
  "enqueue A s q v =
     bindE (alloc_aligned A s 12 1) (\<lambda>(elt, s).
       let s = write32 s elt v
       in if first_cell s q \<noteq> 0 then
            let s = write32 s (elt + 8) (first_cell s q);
                s = write32 s (elt + 4) (q_prev s (first_cell s q));
                s = write32 s (q_prev s (first_cell s q) + 8) elt
            in Inr (write32 s (first_cell s q + 4) elt)
          else
            let s = write32 s (elt + 8) elt; s = write32 s (elt + 4) elt in Inr (write32 s q elt))"

definition dequeue :: "'z paged_scheme allocator \<Rightarrow> 'z paged_scheme \<Rightarrow> u32 \<Rightarrow> (u32 \<times> 'z paged_scheme) result" where
  "dequeue A s q =
     (let elt = first_cell s q; v = q_value s elt; n = q_next s elt; p = q_prev s elt;
          s = write32 s (n + 4) p; s = write32 s (p + 8) n
      in bindE (release A s elt) (\<lambda>s. Inr (v, write32 s q (if n = elt then 0 else n))))"

end
