(* ===== verification/Klist_Props.thy ===== *)
theory Klist_Props
  imports Klist Regions Kernel
begin

text \<open>
  The queues of \<^verbatim>\<open>queue.c\<close> implement lists with insertion at the end and removal at the front, which
  is what the models of the scheduler and of the system calls use in their place.
\<close>

subsection \<open>Fields of cells\<close>

lemma region_4: "region a 4 = {a, a + 1, a + 2, a + 3}"
proof -
  have "region a (Suc (Suc (Suc (Suc 0)))) = {a, a + 1, a + 1 + 1, a + 1 + 1 + 1}"
    by (simp add: region_Suc) (auto simp: region_iff)
  then show ?thesis by (simp add: numeral_eq_Suc add.assoc)
qed

lemma field_region: "i \<in> {0, 4, 8} \<Longrightarrow> region (c + i) 4 \<subseteq> region c 12" for i :: u32
  by (rule region_shift) auto

lemma same_cell: "i \<in> {0, 4, 8} \<Longrightarrow> j \<in> {0, 4, 8} \<Longrightarrow> i \<noteq> j \<Longrightarrow> separate (c + i) 4 (c + j) 4" for i j :: u32
  by (auto simp: separate_def region_4 add.assoc)

lemma other_cell: "separate c 12 e 12 \<Longrightarrow> i \<in> {0, 4, 8} \<Longrightarrow> j \<in> {0, 4, 8} \<Longrightarrow> separate (c + i) 4 (e + j) 4" for i j :: u32
  by (erule separate_mono) (simp_all add: field_region)

lemma queue_field: "separate q 4 c 12 \<Longrightarrow> i \<in> {0, 4, 8} \<Longrightarrow> separate q 4 (c + i) 4" for i :: u32
  by (erule separate_mono) (simp_all add: field_region)

text \<open>The cells of a queue: not null, apart from each other and from the queue's own pointer.\<close>

definition cells_ok :: "u32 \<Rightarrow> u32 list \<Rightarrow> bool" where
  "cells_ok q cs \<longleftrightarrow> distinct cs \<and> 0 \<notin> set cs \<and> (\<forall>c\<in>set cs. separate q 4 c 12) \<and>
     (\<forall>c\<in>set cs. \<forall>e\<in>set cs. c \<noteq> e \<longrightarrow> separate c 12 e 12)"

lemma mem_write32 [simp]: "mem (write32 s a v) = store32 (mem s) a v"
  by (simp add: write32_def)

lemma cells_ok_pointer:
  assumes "cells_ok q cs" "c \<in> set cs" "j \<in> {0, 4, 8}"
  shows "load32 (store32 m q v) (c + j) = load32 m (c + j)" "load32 (store32 m (c + j) v) q = load32 m q"
  using assms queue_field [of q c j] by (auto simp: cells_ok_def load32_store32_separate separate_sym)

lemma cells_ok_field:
  assumes "cells_ok q cs" "c \<in> set cs" "e \<in> set cs" "i \<in> {0, 4, 8}" "j \<in> {0, 4, 8}"
  shows "load32 (store32 m (c + i) v) (e + j) = (if c = e \<and> i = j then v else load32 m (e + j))"
proof (cases "c = e")
  case True
  then show ?thesis using same_cell [OF assms(4,5), of e] by (auto simp: load32_store32_separate)
next
  case False
  then have "separate (c + i) 4 (e + j) 4" using assms by (intro other_cell) (auto simp: cells_ok_def)
  then show ?thesis using False by (simp add: load32_store32_separate)
qed

lemma cells_ok_reads:
  assumes "cells_ok q cs" "c \<in> set cs" "e \<in> set cs"
  shows "q_value (write32 s c v) e = (if c = e then v else q_value s e)"
    "q_value (write32 s (c + 4) v) e = q_value s e" "q_value (write32 s (c + 8) v) e = q_value s e"
    "q_prev (write32 s c v) e = q_prev s e" "q_prev (write32 s (c + 4) v) e = (if c = e then v else q_prev s e)"
    "q_prev (write32 s (c + 8) v) e = q_prev s e"
    "q_next (write32 s c v) e = q_next s e" "q_next (write32 s (c + 4) v) e = q_next s e"
    "q_next (write32 s (c + 8) v) e = (if c = e then v else q_next s e)"
    "first_cell (write32 s c v) q = first_cell s q" "first_cell (write32 s (c + 4) v) q = first_cell s q"
    "first_cell (write32 s (c + 8) v) q = first_cell s q"
  using cells_ok_field [OF assms, of 0 0] cells_ok_field [OF assms, of 0 4] cells_ok_field [OF assms, of 0 8]
    cells_ok_field [OF assms, of 4 0] cells_ok_field [OF assms, of 4 4] cells_ok_field [OF assms, of 4 8]
    cells_ok_field [OF assms, of 8 0] cells_ok_field [OF assms, of 8 4] cells_ok_field [OF assms, of 8 8]
    cells_ok_pointer(2) [OF assms(1,2), of 0] cells_ok_pointer(2) [OF assms(1,2), of 4] cells_ok_pointer(2) [OF assms(1,2), of 8]
  by (simp_all add: q_value_def q_prev_def q_next_def first_cell_def)

lemma pointer_reads:
  assumes "cells_ok q cs" "e \<in> set cs"
  shows "q_value (write32 s q v) e = q_value s e" "q_prev (write32 s q v) e = q_prev s e"
    "q_next (write32 s q v) e = q_next s e" "first_cell (write32 s q v) q = v"
  using cells_ok_pointer(1) [OF assms, of 0] cells_ok_pointer(1) [OF assms, of 4] cells_ok_pointer(1) [OF assms, of 8]
  by (simp_all add: q_value_def q_prev_def q_next_def first_cell_def)

subsection \<open>Queues as lists\<close>

fun adjacent :: "u32 list \<Rightarrow> (u32 \<times> u32) list" where
  "adjacent (a # b # cs) = (a, b) # adjacent (b # cs)"
| "adjacent cs = []"

lemma adjacent_set: "(a, b) \<in> set (adjacent cs) \<Longrightarrow> a \<in> set cs \<and> b \<in> set cs"
  by (induction cs rule: adjacent.induct) auto

lemma adjacent_append: "cs \<noteq> [] \<Longrightarrow> adjacent (cs @ [e]) = adjacent cs @ [(last cs, e)]"
  by (induction cs rule: adjacent.induct) auto

lemma adjacent_first: "(a, b) \<in> set (adjacent cs) \<Longrightarrow> distinct cs \<Longrightarrow> b \<noteq> hd cs \<and> a \<noteq> last cs"
  by (induction cs rule: adjacent.induct) (auto dest: adjacent_set)

definition linked :: "'z machine_scheme \<Rightarrow> u32 list \<Rightarrow> bool" where
  "linked s cs \<longleftrightarrow> q_next s (last cs) = hd cs \<and> q_prev s (hd cs) = last cs \<and>
     (\<forall>(a, b) \<in> set (adjacent cs). q_next s a = b \<and> q_prev s b = a)"

definition queue_cells :: "'z machine_scheme \<Rightarrow> u32 \<Rightarrow> u32 list \<Rightarrow> u32 list \<Rightarrow> bool" where
  "queue_cells s q cs xs \<longleftrightarrow> cells_ok q cs \<and> map (q_value s) cs = xs \<and>
     (if cs = [] then first_cell s q = 0 else first_cell s q = hd cs \<and> linked s cs)"

text \<open>A new cell from the allocator: apart from the queue, which it leaves as it is.\<close>

definition fresh_cell :: "'z machine_scheme \<Rightarrow> 'z machine_scheme \<Rightarrow> u32 \<Rightarrow> u32 list \<Rightarrow> u32 \<Rightarrow> bool" where
  "fresh_cell s t q cs e \<longleftrightarrow> e \<noteq> 0 \<and> separate q 4 e 12 \<and> (\<forall>c\<in>set cs. separate c 12 e 12) \<and>
     (\<forall>x \<in> region q 4 \<union> (\<Union>c\<in>set cs. region c 12). mem t x = mem s x)"

lemma cells_ok_append:
  assumes "cells_ok q cs" "fresh_cell s t q cs e"
  shows "cells_ok q (cs @ [e])"
proof -
  have "e \<notin> set cs"
  proof
    assume "e \<in> set cs"
    then have "separate e 12 e 12" using assms(2) by (simp add: fresh_cell_def)
    then show False by (auto simp: separate_def region_iff dest: arg_cong [where f = "\<lambda>A. e \<in> A"])
  qed
  then show ?thesis using assms by (auto simp: cells_ok_def fresh_cell_def separate_sym)
qed

lemma same_fields:
  assumes "\<And>x. x \<in> region c 12 \<Longrightarrow> mem t x = mem s x"
  shows "q_value t c = q_value s c" "q_prev t c = q_prev s c" "q_next t c = q_next s c"
proof -
  have "load32 (mem t) (c + i) = load32 (mem s) (c + i)" if "i \<in> {0, 4, 8}" for i
    using field_region [OF that, of c] assms by (intro load32_cong_region) blast
  from this [of 0] this [of 4] this [of 8]
  show "q_value t c = q_value s c" "q_prev t c = q_prev s c" "q_next t c = q_next s c"
    by (simp_all add: q_value_def q_prev_def q_next_def)
qed

lemma linked_cong:
  assumes "\<And>c. c \<in> set cs \<Longrightarrow> q_next t c = q_next s c \<and> q_prev t c = q_prev s c" "cs \<noteq> []"
  shows "linked t cs = linked s cs"
proof -
  have "(\<forall>(a, b) \<in> set (adjacent cs). q_next t a = b \<and> q_prev t b = a) \<longleftrightarrow>
      (\<forall>(a, b) \<in> set (adjacent cs). q_next s a = b \<and> q_prev s b = a)"
    by (rule ball_cong [OF refl]) (use assms(1) in \<open>auto dest: adjacent_set\<close>)
  then show ?thesis using assms by (simp add: linked_def)
qed

lemma queue_cells_cong:
  assumes "queue_cells s q cs xs" "\<And>x. x \<in> region q 4 \<Longrightarrow> mem t x = mem s x"
    "\<And>c x. c \<in> set cs \<Longrightarrow> x \<in> region c 12 \<Longrightarrow> mem t x = mem s x"
  shows "queue_cells t q cs xs"
proof -
  have "first_cell t q = first_cell s q" unfolding first_cell_def using assms(2) by (rule load32_cong_region)
  then show ?thesis
    using assms(1) same_fields [OF assms(3)] linked_cong [of cs t s] by (auto simp: queue_cells_def)
qed

lemma queue_cells_enqueue:
  assumes "queue_cells s q cs xs" "alloc_aligned A s 12 1 = Inr (e, t)" "fresh_cell s t q cs e"
  shows "\<exists>u. enqueue A s q v = Inr u \<and> queue_cells u q (cs @ [e]) (xs @ [v])"
proof -
  have ok: "cells_ok q (cs @ [e])" using assms(1,3) cells_ok_append by (auto simp: queue_cells_def)
  have t: "queue_cells t q cs xs" using assms(1,3) by (auto intro: queue_cells_cong simp: fresh_cell_def)
  have e: "e \<in> set (cs @ [e])" "e \<notin> set cs" using ok by (auto simp: cells_ok_def)
  show ?thesis
  proof (cases "cs = []")
    case True
    let ?u = "write32 (write32 (write32 (write32 t e v) (e + 8) e) (e + 4) e) q e"
    have "enqueue A s q v = Inr ?u"
      using assms(2) t True by (simp add: enqueue_def queue_cells_def cells_ok_reads [OF ok e(1) e(1)] Let_def)
    moreover have "queue_cells ?u q (cs @ [e]) (xs @ [v])"
      using ok t True
      by (simp add: queue_cells_def linked_def pointer_reads [OF ok e(1)] cells_ok_reads [OF ok e(1) e(1)])
    ultimately show ?thesis by blast
  next
    case False
    let ?f = "hd cs" and ?l = "last cs"
    have mem: "?f \<in> set (cs @ [e])" "?l \<in> set (cs @ [e])" using False by auto
    have "?f \<noteq> 0" using ok mem(1) unfolding cells_ok_def by metis
    then have first: "first_cell t q = ?f" "?f \<noteq> 0" "q_prev t ?f = ?l" "q_next t ?l = ?f"
      and adj: "\<And>a b. (a, b) \<in> set (adjacent cs) \<Longrightarrow> q_next t a = b \<and> q_prev t b = a"
      and vals: "map (q_value t) cs = xs"
      using t False by (auto simp: queue_cells_def linked_def)
    let ?u = "write32 (write32 (write32 (write32 (write32 t e v) (e + 8) ?f) (e + 4) ?l) (?l + 8) e) (?f + 4) e"
    have reads: "q_value ?u c = (if c = e then v else q_value t c)"
      "q_prev ?u c = (if c = ?f then e else if c = e then ?l else q_prev t c)"
      "q_next ?u c = (if c = ?l then e else if c = e then ?f else q_next t c)"
      if "c \<in> set (cs @ [e])" for c
      using mem e(2) False that
      by (auto simp: cells_ok_reads [OF ok e(1) that] cells_ok_reads [OF ok mem(1) that] cells_ok_reads [OF ok mem(2) that])
    have "?f \<noteq> e" using e(2) False by auto
    then have "enqueue A s q v = Inr ?u"
      using assms(2) first by (simp add: enqueue_def Let_def cells_ok_reads [OF ok e(1) e(1)] cells_ok_reads [OF ok e(1) mem(1)]
          cells_ok_reads [OF ok mem(2) e(1)])
    moreover have "queue_cells ?u q (cs @ [e]) (xs @ [v])"
    proof -
      have "map (q_value ?u) cs = xs" using reads(1) e(2) vals by (auto cong: map_cong)
      moreover have "first_cell ?u q = ?f"
        using first by (simp add: cells_ok_reads [OF ok e(1) e(1)] cells_ok_reads [OF ok mem(1) mem(1)] cells_ok_reads [OF ok mem(2) mem(2)])
      moreover have "linked ?u (cs @ [e])"
      proof -
        have "q_next ?u a = b \<and> q_prev ?u b = a" if "(a, b) \<in> set (adjacent cs)" for a b
        proof -
          have "a \<noteq> ?l" "b \<noteq> ?f" "a \<noteq> e" "b \<noteq> e" "a \<in> set (cs @ [e])" "b \<in> set (cs @ [e])"
            using that e(2) ok adjacent_first [OF that] adjacent_set [OF that] by (auto simp: cells_ok_def)
          then show ?thesis using reads adj [OF that] by simp
        qed
        then show ?thesis using reads mem e False
          by (auto simp: linked_def adjacent_append)
      qed
      ultimately show ?thesis using ok reads(1) [OF e(1)] False by (simp add: queue_cells_def)
    qed
    ultimately show ?thesis by blast
  qed
qed

text \<open>
  What is asked of the release of the first cell: it succeeds whatever the cells of the queue hold,
  and leaves the rest of the queue as it is.
\<close>

definition releases_cell :: "'z paged_scheme allocator \<Rightarrow> 'z paged_scheme \<Rightarrow> u32 \<Rightarrow> u32 list \<Rightarrow> u32 \<Rightarrow> bool" where
  "releases_cell A s q cs c \<longleftrightarrow>
     (\<forall>m. (\<forall>x. x \<notin> (\<Union>e\<in>set (c # cs). region e 12) \<longrightarrow> m x = mem s x) \<longrightarrow>
       (\<exists>t. release A (set_mem s m) c = Inr t \<and>
         (\<forall>x \<in> region q 4 \<union> (\<Union>e\<in>set cs. region e 12). mem t x = m x)))"

lemma releases_after_writes:
  assumes "releases_cell A s q cs c" "a \<in> set (c # cs)" "b \<in> set (c # cs)" "i \<in> {0, 4, 8}" "j \<in> {0, 4, 8}"
  obtains t where "release A (write32 (write32 s (a + i) v) (b + j) w) c = Inr t"
    "\<And>x. x \<in> region q 4 \<Longrightarrow> mem t x = mem (write32 (write32 s (a + i) v) (b + j) w) x"
    "\<And>e x. e \<in> set cs \<Longrightarrow> x \<in> region e 12 \<Longrightarrow> mem t x = mem (write32 (write32 s (a + i) v) (b + j) w) x"
proof -
  let ?m = "store32 (store32 (mem s) (a + i) v) (b + j) w"
  have u: "write32 (write32 s (a + i) v) (b + j) w = set_mem s ?m" by (simp add: write32_def)
  have "?m x = mem s x" if "x \<notin> (\<Union>e\<in>set (c # cs). region e 12)" for x
  proof -
    have "x \<notin> region (a + i) 4" "x \<notin> region (b + j) 4"
      using that assms(2-) field_region [of i a] field_region [of j b] by blast+
    then show ?thesis by (simp add: store32_elsewhere)
  qed
  then obtain t where "release A (set_mem s ?m) c = Inr t"
    "\<forall>x \<in> region q 4 \<union> (\<Union>e\<in>set cs. region e 12). mem t x = ?m x"
    using assms(1) unfolding releases_cell_def by meson
  then show ?thesis using that unfolding u by auto
qed

lemma cells_ok_Cons: "cells_ok q (c # cs) \<Longrightarrow> cells_ok q cs"
  by (auto simp: cells_ok_def)

lemma queue_cells_dequeue:
  assumes "queue_cells s q (c # cs) (x # xs)" "releases_cell A s q cs c"
  shows "\<exists>u. dequeue A s q = Inr (x, u) \<and> queue_cells u q cs xs"
proof -
  let ?n = "q_next s c" and ?p = "q_prev s c"
  let ?s = "write32 (write32 s (?n + 4) ?p) (?p + 8) ?n"
  have ok: "cells_ok q (c # cs)" and first: "first_cell s q = c" and vals: "q_value s c = x" "map (q_value s) cs = xs"
    and l: "linked s (c # cs)"
    using assms(1) by (auto simp: queue_cells_def)
  have c: "c \<in> set (c # cs)" "c \<notin> set cs" using ok by (auto simp: cells_ok_def)
  have p: "?p = last (c # cs)" using l by (simp add: linked_def)
  have n: "?n = (if cs = [] then c else hd cs)" using l by (cases cs) (auto simp: linked_def)
  have mem: "?p \<in> set (c # cs)" "?n \<in> set (c # cs)" unfolding p n by simp_all
  obtain t where t: "release A ?s c = Inr t" "\<And>x. x \<in> region q 4 \<Longrightarrow> mem t x = mem ?s x"
    "\<And>e x. e \<in> set cs \<Longrightarrow> x \<in> region e 12 \<Longrightarrow> mem t x = mem ?s x"
    by (rule releases_after_writes [OF assms(2) mem(2,1), of 4 8]) (simp, simp, rule that)
  let ?u = "write32 t q (if ?n = c then 0 else ?n)"
  have "dequeue A s q = Inr (x, ?u)" using first vals t(1) by (simp add: dequeue_def Let_def)
  moreover have "queue_cells ?u q cs xs"
  proof (cases "cs = []")
    case True
    then show ?thesis using ok n vals
      by (simp add: queue_cells_def pointer_reads [OF ok c(1)] cells_ok_def)
  next
    case False
    have ok': "cells_ok q cs" by (rule cells_ok_Cons [OF ok])
    have hd: "hd cs \<in> set cs" "last cs \<in> set cs" "?n = hd cs" "?p = last cs" "?n \<noteq> c" using False n p c by auto
    have reads: "q_value ?u e = q_value s e" "q_prev ?u e = (if e = ?n then ?p else q_prev s e)"
      "q_next ?u e = (if e = ?p then ?n else q_next s e)" if e: "e \<in> set cs" for e
    proof -
      have e': "e \<in> set (c # cs)" using e by simp
      show "q_value ?u e = q_value s e" "q_prev ?u e = (if e = ?n then ?p else q_prev s e)"
        "q_next ?u e = (if e = ?p then ?n else q_next s e)"
        by (auto simp: pointer_reads [OF ok' e] same_fields [OF t(3) [OF e]] cells_ok_reads [OF ok mem(1) e']
            cells_ok_reads [OF ok mem(2) e'])
    qed
    have "first_cell ?u q = hd cs" using hd by (simp add: pointer_reads [OF ok c(1)])
    moreover have "linked ?u cs"
    proof -
      have "q_next ?u a = b \<and> q_prev ?u b = a" if "(a, b) \<in> set (adjacent cs)" for a b
      proof -
        have "a \<in> set cs" "b \<in> set cs" "a \<noteq> last cs" "b \<noteq> hd cs"
          using that adjacent_set adjacent_first [OF that] ok' by (auto simp: cells_ok_def)
        moreover have "(a, b) \<in> set (adjacent (c # cs))" using that False by (cases cs) auto
        ultimately show ?thesis using l reads hd by (auto simp: linked_def)
      qed
      then show ?thesis using reads hd by (auto simp: linked_def)
    qed
    moreover have "map (q_value ?u) cs = xs" using reads(1) vals by (auto cong: map_cong)
    ultimately show ?thesis using ok' False by (simp add: queue_cells_def)
  qed
  ultimately show ?thesis by blast
qed

text \<open>
  C13: A queue in memory behaves as the list of its elements: \<^verbatim>\<open>enqueue\<close> appends an element in a fresh
  cell, \<^verbatim>\<open>dequeue\<close> returns the first one and releases its cell, and the circular links are right again
  after both.
\<close>
theorem queue_refines_list:
  assumes "queue_cells s q cs xs"
  shows "(\<forall>e t. alloc_aligned A s 12 1 = Inr (e, t) \<and> fresh_cell s t q cs e \<longrightarrow>
      (\<exists>u. enqueue A s q v = Inr u \<and> queue_cells u q (cs @ [e]) (xs @ [v]))) \<and>
    (cs \<noteq> [] \<and> releases_cell A s q (tl cs) (hd cs) \<longrightarrow>
      (\<exists>u. dequeue A s q = Inr (hd xs, u) \<and> queue_cells u q (tl cs) (tl xs)))"
proof (intro conjI allI impI)
  fix e t
  assume "alloc_aligned A s 12 1 = Inr (e, t) \<and> fresh_cell s t q cs e"
  then show "\<exists>u. enqueue A s q v = Inr u \<and> queue_cells u q (cs @ [e]) (xs @ [v])"
    using queue_cells_enqueue [OF assms] by blast
next
  assume "cs \<noteq> [] \<and> releases_cell A s q (tl cs) (hd cs)"
  moreover have "length xs = length cs" using assms by (auto simp: queue_cells_def)
  ultimately show "\<exists>u. dequeue A s q = Inr (hd xs, u) \<and> queue_cells u q (tl cs) (tl xs)"
    using queue_cells_dequeue [of s q "hd cs" "tl cs" "hd xs" "tl xs" A] assms by (cases cs; cases xs) auto
qed

text \<open>An allocator with one cell.\<close>

definition one_cell :: "kernel allocator" where
  "one_cell = \<lparr>alloc_aligned = (\<lambda>s _ _. Inr (0x1000, s)), release = (\<lambda>s _. Inr s)\<rparr>"

theorem queue_refines_list_witness:
  "\<exists>u u'. enqueue one_cell boot_state 0x500 7 = Inr u \<and> dequeue one_cell u 0x500 = Inr (7, u') \<and>
     queue_cells u' 0x500 [] []"
proof -
  have empty: "queue_cells boot_state 0x500 [] []"
    by (simp add: queue_cells_def cells_ok_def first_cell_def load32_def boot_state_def mem_def)
  have "fresh_cell boot_state boot_state 0x500 [] 0x1000"
    by (simp add: fresh_cell_def separate_before)
  then obtain u where u: "enqueue one_cell boot_state 0x500 7 = Inr u" "queue_cells u 0x500 [0x1000] [7]"
    using queue_refines_list [OF empty, of one_cell 7] by (auto simp: one_cell_def)
  have "releases_cell one_cell u 0x500 [] 0x1000" by (simp add: releases_cell_def one_cell_def)
  then obtain u' where "dequeue one_cell u 0x500 = Inr (7, u')" "queue_cells u' 0x500 [] []"
    using queue_refines_list [OF u(2), of one_cell 0] by auto
  then show ?thesis using u(1) by blast
qed

end
