(* ===== verification/Loader.thy ===== *)
theory Loader
  imports File_Table
begin

text \<open>
  \<^verbatim>\<open>elf.c\<close> and \<^verbatim>\<open>load_code\<close> of \<^verbatim>\<open>scheduler.c\<close>: a program file is read into a buffer, the code pages
  of the new process are mapped into the kernel, and the loadable segments are copied to them.
\<close>

subsection \<open>Pages of the new process\<close>

text \<open>The kernel's address for an address of the process; \<open>virtuals\<close> has one address for each page.\<close>

definition ADR :: "'z paged_scheme \<Rightarrow> u32 list \<Rightarrow> u32 \<Rightarrow> u32 result" where
  "ADR s virtuals v =
     (let k = unat ((v - START_OF_USER_CODE s) div 0x1000)
      in if k < length virtuals then Inr (virtuals ! k + (v - START_OF_USER_CODE s) mod 0x1000) else Inl OutOfBounds)"

fun mem_set_page :: "'z paged_scheme \<Rightarrow> u32 \<Rightarrow> u8 \<Rightarrow> nat \<Rightarrow> u32 list \<Rightarrow> 'z paged_scheme result" where
  "mem_set_page s str c 0 virtuals = Inr s"
| "mem_set_page s str c (Suc n) virtuals =
     bindE (ADR s virtuals str) (\<lambda>a. mem_set_page (set_mem s ((mem s)(a := c))) (str + 1) c n virtuals)"

fun mem_copy_page :: "'z paged_scheme \<Rightarrow> u32 \<Rightarrow> u32 \<Rightarrow> nat \<Rightarrow> u32 list \<Rightarrow> 'z paged_scheme result" where
  "mem_copy_page s dest src 0 virtuals = Inr s"
| "mem_copy_page s dest src (Suc n) virtuals =
     bindE (ADR s virtuals dest) (\<lambda>a. mem_copy_page (set_mem s ((mem s)(a := mem s src))) (dest + 1) (src + 1) n virtuals)"

subsection \<open>The ELF file\<close>

definition nb_bits :: "memory \<Rightarrow> u32 \<Rightarrow> u8" where "nb_bits m e = m (e + 4)"
definition endian :: "memory \<Rightarrow> u32 \<Rightarrow> u8" where "endian m e = m (e + 5)"
definition elf_type :: "memory \<Rightarrow> u32 \<Rightarrow> u16" where "elf_type m e = load16 m (e + 16)"
definition instruction_set :: "memory \<Rightarrow> u32 \<Rightarrow> u16" where "instruction_set m e = load16 m (e + 18)"
definition entry_point :: "memory \<Rightarrow> u32 \<Rightarrow> u32" where "entry_point m e = load32 m (e + 24)"
definition program_header_table :: "memory \<Rightarrow> u32 \<Rightarrow> u32" where "program_header_table m e = load32 m (e + 28)"
definition pht_entry_size :: "memory \<Rightarrow> u32 \<Rightarrow> u16" where "pht_entry_size m e = load16 m (e + 42)"
definition pht_entry_nb :: "memory \<Rightarrow> u32 \<Rightarrow> u16" where "pht_entry_nb m e = load16 m (e + 44)"

definition segment_type :: "memory \<Rightarrow> u32 \<Rightarrow> u32" where "segment_type m p = load32 m p"
definition segment_offset :: "memory \<Rightarrow> u32 \<Rightarrow> u32" where "segment_offset m p = load32 m (p + 4)"
definition segment_virtual_address :: "memory \<Rightarrow> u32 \<Rightarrow> u32" where "segment_virtual_address m p = load32 m (p + 8)"
definition segment_size_in_file :: "memory \<Rightarrow> u32 \<Rightarrow> u32" where "segment_size_in_file m p = load32 m (p + 16)"
definition segment_size_in_memory :: "memory \<Rightarrow> u32 \<Rightarrow> u32" where "segment_size_in_memory m p = load32 m (p + 20)"

text \<open>One segment: a loadable one is cleared and then copied.\<close>

definition load_segment :: "'z paged_scheme \<Rightarrow> u32 \<Rightarrow> u16 \<Rightarrow> u32 list \<Rightarrow> 'z paged_scheme result" where
  "load_segment s elf_file segment_number virtuals =
     (let segment = elf_file + program_header_table (mem s) elf_file
            + ucast segment_number * ucast (pht_entry_size (mem s) elf_file)
      in if segment_type (mem s) segment = 1 then
           let address = segment_virtual_address (mem s) segment
           in bindE (mem_set_page s address 0 (unat (segment_size_in_memory (mem s) segment)) virtuals) (\<lambda>s.
                mem_copy_page s address (elf_file + segment_offset (mem s) segment)
                  (unat (segment_size_in_file (mem s) segment)) virtuals)
         else Inr s)"

function load_segments :: "'z paged_scheme \<Rightarrow> u32 \<Rightarrow> u16 \<Rightarrow> u32 list \<Rightarrow> 'z paged_scheme result" where
  "load_segments s elf_file segment_number virtuals =
     (if segment_number < pht_entry_nb (mem s) elf_file then
        bindE (load_segment s elf_file segment_number virtuals) (\<lambda>s.
          load_segments s elf_file (segment_number + 1) virtuals)
      else Inr s)"
  by pat_completeness auto
termination
proof (relation "measure (\<lambda>(s, elf_file, segment_number, virtuals). 0x10000 - unat segment_number)", goal_cases)
  case (2 s elf_file k virtuals t)
  then have less: "unat k < unat (pht_entry_nb (mem s) elf_file)" by (simp add: word_less_nat_alt)
  moreover have "unat (pht_entry_nb (mem s) elf_file) < 0x10000"
    using unsigned_less [of "pht_entry_nb (mem s) elf_file"] by simp
  ultimately have "unat (k + 1) = unat k + 1" by (simp add: unat_word_ariths)
  then show ?case using less \<open>unat (pht_entry_nb (mem s) elf_file) < 0x10000\<close> by simp
qed simp

declare load_segments.simps [simp del]

definition check_and_load :: "'z kernel_scheme \<Rightarrow> u32 \<Rightarrow> u32 list \<Rightarrow> (u32 \<times> 'z kernel_scheme) result" where
  "check_and_load s elf_file virtuals =
     (let m = mem s
      in if \<not> (m elf_file = 0x7F \<and> m (elf_file + 1) = 69 \<and> m (elf_file + 2) = 76 \<and> m (elf_file + 3) = 70)
         then Inl (Throw ''Not a ELF file'')
         else if nb_bits m elf_file \<noteq> 1 then Inl (Throw ''Not a 32 bits executable'')
         else if endian m elf_file \<noteq> 1 then Inl (Throw ''Not a little endian executable'')
         else if elf_type m elf_file \<noteq> 2 then Inl (Throw ''Not an executable'')
         else if instruction_set m elf_file \<noteq> 3 then Inl (Throw ''Not a x86 executable'')
         else if \<not> entry_point m elf_file \<ge> START_OF_USER_CODE s then
           bindE (print s (ascii ''Wrong entry point: %x compared to %x\<newline>'')
               [Word_Arg (entry_point m elf_file), Word_Arg (START_OF_USER_CODE s)])
             (\<lambda>_. Inl (Throw ''Wrong entry point''))
         else bindE (load_segments s elf_file 0 virtuals) (\<lambda>s. Inr (entry_point (mem s) elf_file, s)))"

subsection \<open>Loading a program\<close>

text \<open>\<^verbatim>\<open>str_cat\<close> of \<^verbatim>\<open>string.c\<close>, for strings in memory.\<close>

definition str_cat :: "'z machine_scheme allocator \<Rightarrow> 'z machine_scheme \<Rightarrow> u32 \<Rightarrow> u32 \<Rightarrow> (u32 \<times> 'z machine_scheme) result" where
  "str_cat A s a b =
     bindE (of_option Hang (str_length (mem s) a)) (\<lambda>a_len.
     bindE (of_option Hang (str_length (mem s) b)) (\<lambda>b_len.
     bindE (alloc_aligned A s (a_len + b_len + 1) 1) (\<lambda>(c, s).
     bindE (of_option Hang (str_copy (mem s) a c)) (\<lambda>(_, m).
     bindE (of_option Hang (str_copy m b (c + a_len))) (\<lambda>(_, m).
       Inr (c, set_mem s m))))))"

text \<open>
  The two strings that \<^verbatim>\<open>load_code\<close> builds from literals and the name of the program, which have no
  addresses here: a block is allocated and filled as \<^verbatim>\<open>str_cat\<close> does.
\<close>

definition new_string :: "'z machine_scheme allocator \<Rightarrow> 'z machine_scheme \<Rightarrow> bytes \<Rightarrow> (u32 \<times> 'z machine_scheme) result" where
  "new_string A s text =
     bindE (alloc_aligned A s (of_nat (length text) + 1) 1) (\<lambda>(c, s).
       Inr (c, set_mem s (store_bytes (mem s) c (text @ [0]))))"

lemma read_inode_data_amount:
  assumes "read_inode_data s inode buffer offset len = Inr (count, s')" "len \<noteq> 0"
  shows "count \<le> len" "count \<noteq> 0"
proof -
  let ?rest = "block_size s - offset mod block_size s"
  obtain s1 where s1: "set_inode s inode (std_inode s) = Inr s1" and b: "block_size s \<noteq> 0"
    and c: "count = (let ofs = offset mod block_size s1 in if len > block_size s1 - ofs then block_size s1 - ofs else len)"
    using assms(1) by (auto simp: read_inode_data_def bindE_eq_Inr Let_def udiv_def split: if_splits)
  have "block_size s1 = block_size s"
    using s1 by (auto simp: set_inode_def read_pio_def bindE_eq_Inr Let_def set_mem_def split: if_splits)
  moreover have "?rest \<noteq> 0" using b by (metis eq_iff_diff_eq_0 word_mod_less_divisor word_gt_0 less_irrefl)
  ultimately show "count \<le> len" "count \<noteq> 0" using c assms(2) by (auto simp: Let_def not_less split: if_splits)
qed

text \<open>Reading the whole file block by block; every round reads something.\<close>

function read_file :: "'z filesystem_scheme \<Rightarrow> u32 \<Rightarrow> u32 \<Rightarrow> u32 \<Rightarrow> u32 \<Rightarrow> 'z filesystem_scheme result" where
  "read_file s inode elf_buffer sz current =
     (if current < elf_buffer + sz then
        bindE (read_inode_data s inode current (current - elf_buffer) (elf_buffer + sz - current)) (\<lambda>(count, s).
          read_file s inode elf_buffer sz (current + count))
      else Inr s)"
  by pat_completeness auto
termination
proof (relation "measure (\<lambda>(s, inode, elf_buffer, sz, current). unat (elf_buffer + sz - current))", goal_cases)
  case (2 s inode elf_buffer sz current x count t)
  then have "elf_buffer + sz - current \<noteq> 0" by auto
  with 2 have "count \<le> elf_buffer + sz - current" "count \<noteq> 0" by (auto dest: read_inode_data_amount)
  then show ?case by (simp add: remaining_shrinks)
qed simp

declare read_file.simps [simp del]

fun map_code_pages ::
  "'z paged_scheme allocator \<Rightarrow> 'z paged_scheme \<Rightarrow> u32 \<Rightarrow> u32 \<Rightarrow> nat \<Rightarrow> (u32 list \<times> 'z paged_scheme) result"
where
  "map_code_pages A s dir page 0 = Inr ([], s)"
| "map_code_pages A s dir page (Suc n) =
     bindE (request_physical_space A s (current_directory s)
         (get_physical_address (mem s) dir (START_OF_USER_CODE s + page * 0x1000)) True False) (\<lambda>(v, s).
       if v = 0 then Inl (Throw ''Unable to load user code'')
       else bindE (map_code_pages A s dir (page + 1) n) (\<lambda>(vs, s). Inr (v # vs, s)))"

fun unmap_code_pages :: "'z paged_scheme allocator \<Rightarrow> 'z paged_scheme \<Rightarrow> u32 list \<Rightarrow> 'z paged_scheme result" where
  "unmap_code_pages A s [] = Inr s"
| "unmap_code_pages A s (v # vs) =
     bindE (free_virtual_space_c A s (current_directory s) v False) (\<lambda>s. unmap_code_pages A s vs)"

text \<open>
  The inode is read into a structure on the stack, of which only the size is used; the structure
  has no address here, so that it is read in a copy of the state.
\<close>

definition load_code ::
  "'z filesystem_scheme allocator \<Rightarrow> bytes \<Rightarrow> proc_context \<Rightarrow> 'z filesystem_scheme \<Rightarrow> (bool \<times> 'z filesystem_scheme) result"
where
  "load_code A program_name c s =
     bindE (new_string A s (ascii ''/progs/'' @ program_name)) (\<lambda>(temp, s).
     bindE (new_string A s (ascii ''/progs/'' @ program_name @ ascii ''.elf'')) (\<lambda>(p, s).
     bindE (release A s temp) (\<lambda>s.
     bindE (find_inode s (ascii ''/progs/'' @ program_name @ ascii ''.elf'') 2) (\<lambda>(inode, s).
       if inode = 0 then Inr (False, s)
       else bindE (release A s p) (\<lambda>s.
         bindE (set_inode s inode 0) (\<lambda>t.
         let sz = size_low t 0
         in bindE (alloc_aligned A s sz 1) (\<lambda>(elf_buffer, s).
            bindE (read_file s inode elf_buffer sz elf_buffer) (\<lambda>s.
            let nb_pages = (0xFFFFFFFF - START_OF_USER_CODE s + 1) div 0x1000
            in bindE (map_code_pages A s (page_dir c) 0 (unat nb_pages)) (\<lambda>(virtuals, s).
               bindE (check_and_load s elf_buffer virtuals) (\<lambda>(entry, s).
               let s = set_reg s (regs_at c) Eip entry
               in bindE (release A s elf_buffer) (\<lambda>s.
                  bindE (unmap_code_pages A s virtuals) (\<lambda>s. Inr (True, s)))))))))))))"

end
