(* ===== verification/Loader_Props.thy ===== *)
theory Loader_Props
  imports Loader Regions
begin

text \<open>
  What loading an ELF file does to memory: a segment ends up at its addresses in the process, and
  nothing but the pages of the process is written.
\<close>

subsection \<open>Addresses of the process\<close>

definition pages :: "u32 list \<Rightarrow> u32 set" where
  "pages virtuals = (\<Union>v\<in>set virtuals. region v 0x1000)"

definition pages_apart :: "u32 list \<Rightarrow> bool" where
  "pages_apart virtuals \<longleftrightarrow> (\<forall>i j. i < length virtuals \<longrightarrow> j < length virtuals \<longrightarrow> i \<noteq> j \<longrightarrow>
     separate (virtuals ! i) 0x1000 (virtuals ! j) 0x1000)"

definition page_address :: "'z paged_scheme \<Rightarrow> u32 list \<Rightarrow> u32 \<Rightarrow> u32" where
  "page_address s virtuals v =
     virtuals ! unat ((v - START_OF_USER_CODE s) div 0x1000) + (v - START_OF_USER_CODE s) mod 0x1000"

text \<open>A range of addresses of the process that lies in its pages.\<close>

definition in_pages :: "'z paged_scheme \<Rightarrow> u32 list \<Rightarrow> u32 \<Rightarrow> nat \<Rightarrow> bool" where
  "in_pages s virtuals v n \<longleftrightarrow> unat (v - START_OF_USER_CODE s) + n \<le> 0x1000 * length virtuals \<and>
     unat (v - START_OF_USER_CODE s) + n \<le> 2 ^ 32"

lemma set_mem_paged [simp]:
  fixes s :: "'z paged_scheme"
  shows "START_OF_USER_CODE (set_mem s m) = START_OF_USER_CODE s"
  by (simp add: set_mem_def)

lemma page_number:
  assumes "in_pages s virtuals v n" "0 < n"
  shows "unat ((v - START_OF_USER_CODE s) div 0x1000) < length virtuals"
  using assms by (simp add: in_pages_def unat_div less_mult_imp_div_less)

lemma ADR_in_pages:
  assumes "in_pages s virtuals v n" "0 < n"
  shows "ADR s virtuals v = Inr (page_address s virtuals v)" "page_address s virtuals v \<in> pages virtuals"
proof -
  note k = page_number [OF assms]
  then show "ADR s virtuals v = Inr (page_address s virtuals v)" by (simp add: ADR_def page_address_def Let_def)
  have "unat ((v - START_OF_USER_CODE s) mod 0x1000) < 0x1000" by (simp add: unat_mod)
  then show "page_address s virtuals v \<in> pages virtuals"
    using nth_mem [OF k] unfolding pages_def
    by (intro UN_I [of "virtuals ! unat ((v - START_OF_USER_CODE s) div 0x1000)"]) (simp_all add: region_iff page_address_def)
qed

lemma in_pages_next:
  assumes "in_pages s virtuals v (Suc n)" "0 < n"
  shows "in_pages s virtuals (v + 1) n"
proof -
  have "v + 1 - START_OF_USER_CODE s = v - START_OF_USER_CODE s + 1" by simp
  then have "unat (v + 1 - START_OF_USER_CODE s) = unat (v - START_OF_USER_CODE s + 1)" by (rule arg_cong)
  moreover have "unat (v - START_OF_USER_CODE s + 1) = unat (v - START_OF_USER_CODE s) + 1"
    using assms by (simp add: in_pages_def unat_word_ariths)
  ultimately show ?thesis using assms by (simp add: in_pages_def)
qed

lemma in_pages_shift:
  assumes "in_pages s virtuals v n" "j < n"
  shows "in_pages s virtuals (v + of_nat j) (n - j)"
proof -
  have "v + of_nat j - START_OF_USER_CODE s = v - START_OF_USER_CODE s + of_nat j" by simp
  then have "unat (v + of_nat j - START_OF_USER_CODE s) = unat (v - START_OF_USER_CODE s + of_nat j)" by (rule arg_cong)
  moreover have "unat (v - START_OF_USER_CODE s + of_nat j) = unat (v - START_OF_USER_CODE s) + j"
    using assms by (simp add: in_pages_def unat_word_ariths unat_of_nat)
  ultimately show ?thesis using assms by (simp add: in_pages_def)
qed

text \<open>Different addresses of the process are different addresses of the kernel.\<close>

lemma page_address_inj:
  assumes "pages_apart virtuals" "unat ((v - START_OF_USER_CODE s) div 0x1000) < length virtuals"
    "unat ((w - START_OF_USER_CODE s) div 0x1000) < length virtuals" "v \<noteq> w"
  shows "page_address s virtuals v \<noteq> page_address s virtuals w"
proof (cases "(v - START_OF_USER_CODE s) div 0x1000 = (w - START_OF_USER_CODE s) div 0x1000")
  case True
  have "v - START_OF_USER_CODE s \<noteq> w - START_OF_USER_CODE s" using assms(4) by simp
  then have "(v - START_OF_USER_CODE s) mod 0x1000 \<noteq> (w - START_OF_USER_CODE s) mod 0x1000"
    using True by (metis div_mult_mod_eq)
  then show ?thesis using True by (simp add: page_address_def)
next
  case False
  let ?i = "unat ((v - START_OF_USER_CODE s) div 0x1000)" and ?j = "unat ((w - START_OF_USER_CODE s) div 0x1000)"
  have "?i \<noteq> ?j" using False by (simp only: u32_eq_iff_unat not_False_eq_True)
  then have "separate (virtuals ! ?i) 0x1000 (virtuals ! ?j) 0x1000" using assms by (simp add: pages_apart_def)
  moreover have "page_address s virtuals v \<in> region (virtuals ! ?i) 0x1000" "page_address s virtuals w \<in> region (virtuals ! ?j) 0x1000"
    by (simp_all add: page_address_def region_iff unat_mod)
  ultimately show ?thesis by (auto simp: separate_def)
qed

lemma page_address_cong: "START_OF_USER_CODE t = START_OF_USER_CODE s \<Longrightarrow> page_address t virtuals v = page_address s virtuals v"
  by (simp add: page_address_def)

subsection \<open>Filling and copying\<close>

text \<open>Both loops store a list of bytes, one after the other.\<close>

fun fill_pages :: "'z paged_scheme \<Rightarrow> u32 \<Rightarrow> u8 list \<Rightarrow> u32 list \<Rightarrow> 'z paged_scheme result" where
  "fill_pages s dest [] virtuals = Inr s"
| "fill_pages s dest (b # bs) virtuals =
     bindE (ADR s virtuals dest) (\<lambda>a. fill_pages (set_mem s ((mem s)(a := b))) (dest + 1) bs virtuals)"

lemma mem_set_page_fill: "mem_set_page s dest c n virtuals = fill_pages s dest (replicate n c) virtuals"
  by (induction n arbitrary: s dest) simp_all

lemma mem_copy_page_fill:
  assumes "region src n \<inter> pages virtuals = {}" "n = 0 \<or> in_pages s virtuals dest n"
  shows "mem_copy_page s dest src n virtuals = fill_pages s dest (map (\<lambda>j. mem s (src + of_nat j)) [0..<n]) virtuals"
  using assms
proof (induction n arbitrary: s dest src)
  case (Suc n)
  have ok: "in_pages s virtuals dest (Suc n)" using Suc.prems(2) by simp
  let ?a = "page_address s virtuals dest"
  let ?s = "set_mem s ((mem s)(?a := mem s src))"
  have small: "Suc n \<le> 2 ^ 32" using ok by (simp add: in_pages_def)
  have a: "ADR s virtuals dest = Inr ?a" "?a \<in> pages virtuals" using ADR_in_pages [OF ok] by simp_all
  have src: "region (src + 1) n \<subseteq> region src (Suc n)" using small by (auto simp: region_Suc)
  have rest: "n = 0 \<or> in_pages ?s virtuals (dest + 1) n"
    using in_pages_next [OF ok] by (cases "n = 0") (simp_all add: in_pages_def)
  have sep: "region (src + 1) n \<inter> pages virtuals = {}" using Suc.prems(1) src by blast
  have "mem ?s (src + 1 + of_nat j) = mem s (src + of_nat (Suc j))" if "j < n" for j
  proof -
    have "src + 1 + of_nat j \<in> region (src + 1) n" using that small by (simp add: region_iff)
    then have "src + 1 + of_nat j \<noteq> ?a" using sep a(2) by auto
    then show ?thesis by (simp add: add.assoc)
  qed
  then have "map (\<lambda>j. mem ?s (src + 1 + of_nat j)) [0..<n] = map (\<lambda>j. mem s (src + of_nat (Suc j))) [0..<n]"
    by (intro map_cong) simp_all
  then have "mem_copy_page ?s (dest + 1) (src + 1) n virtuals =
      fill_pages ?s (dest + 1) (map (\<lambda>j. mem s (src + of_nat (Suc j))) [0..<n]) virtuals"
    using Suc.IH [OF sep rest] by (simp only:)
  moreover have "map (\<lambda>j. mem s (src + of_nat j)) [0..<Suc n] = mem s src # map (\<lambda>j. mem s (src + of_nat (Suc j))) [0..<n]"
    by (simp add: upt_conv_Cons map_Suc_upt [symmetric] del: upt_Suc of_nat_Suc)
  ultimately show ?case using a(1) by (simp del: upt_Suc of_nat_Suc)
qed simp

lemma fill_pages_image:
  assumes "pages_apart virtuals" "bs = [] \<or> in_pages s virtuals dest (length bs)"
  shows "\<exists>m. fill_pages s dest bs virtuals = Inr (set_mem s m) \<and>
    (\<forall>j < length bs. m (page_address s virtuals (dest + of_nat j)) = bs ! j) \<and>
    (\<forall>x. x \<notin> (\<lambda>j. page_address s virtuals (dest + of_nat j)) ` {..<length bs} \<longrightarrow> m x = mem s x)"
  using assms
proof (induction bs arbitrary: s dest)
  case Nil
  then show ?case by (intro exI [of _ "mem s"]) simp
next
  case (Cons b bs)
  let ?n = "length bs" and ?a = "page_address s virtuals dest"
  let ?s = "set_mem s ((mem s)(?a := b))"
  have ok: "in_pages s virtuals dest (Suc ?n)" using Cons.prems(2) by simp
  have small: "Suc ?n \<le> 2 ^ 32" using ok by (simp add: in_pages_def)
  have a: "ADR s virtuals dest = Inr ?a" using ADR_in_pages [OF ok] by simp
  have rest: "bs = [] \<or> in_pages ?s virtuals (dest + 1) ?n"
    using in_pages_next [OF ok] by (cases "bs = []") (simp_all add: in_pages_def)
  obtain m where m: "fill_pages ?s (dest + 1) bs virtuals = Inr (set_mem ?s m)"
    "\<And>j. j < ?n \<Longrightarrow> m (page_address s virtuals (dest + 1 + of_nat j)) = bs ! j"
    "\<And>x. x \<notin> (\<lambda>j. page_address s virtuals (dest + 1 + of_nat j)) ` {..<?n} \<Longrightarrow> m x = mem ?s x"
    using Cons.IH [OF Cons.prems(1) rest] by (auto simp: page_address_cong [of ?s s])
  have number: "unat ((dest + of_nat j - START_OF_USER_CODE s) div 0x1000) < length virtuals" if "j < Suc ?n" for j
    using in_pages_shift [OF ok that] that by (intro page_number) auto
  have distinct: "page_address s virtuals (dest + of_nat i) \<noteq> page_address s virtuals (dest + of_nat j)"
    if "i < Suc ?n" "j < Suc ?n" "i \<noteq> j" for i j
    using that small by (intro page_address_inj [OF Cons.prems(1) number number]) (simp_all add: of_nat_u32_eq_iff)
  have step: "dest + 1 + of_nat j = dest + of_nat (Suc j)" for j by simp
  have img: "(\<lambda>j. page_address s virtuals (dest + of_nat j)) ` {..<Suc ?n} =
      insert ?a ((\<lambda>j. page_address s virtuals (dest + 1 + of_nat j)) ` {..<?n})"
    by (simp add: lessThan_Suc_eq_insert_0 image_image step del: of_nat_Suc)
  have "m (page_address s virtuals (dest + of_nat j)) = (b # bs) ! j" if "j < Suc ?n" for j
  proof (cases j)
    case 0
    have "?a \<notin> (\<lambda>j. page_address s virtuals (dest + 1 + of_nat j)) ` {..<?n}"
      using distinct [of 0] by (auto simp: step simp del: of_nat_Suc)
    then show ?thesis using m(3) 0 by simp
  next
    case (Suc i)
    then show ?thesis using m(2) [of i] that by (simp add: step del: of_nat_Suc)
  qed
  moreover have "m x = mem s x" if "x \<notin> (\<lambda>j. page_address s virtuals (dest + of_nat j)) ` {..<Suc ?n}" for x
    using m(3) [of x] that by (simp add: img)
  ultimately show ?case using m(1) a by (intro exI [of _ m]) simp
qed

lemma page_addresses_in_pages:
  assumes "n = 0 \<or> in_pages s virtuals dest n"
  shows "(\<lambda>j. page_address s virtuals (dest + of_nat j)) ` {..<n} \<subseteq> pages virtuals"
proof -
  have "page_address s virtuals (dest + of_nat j) \<in> pages virtuals" if "j < n" for j
    using in_pages_shift [of s virtuals dest n j] assms that by (intro ADR_in_pages(2)) auto
  then show ?thesis by blast
qed

subsection \<open>Segments\<close>

definition segment_at :: "memory \<Rightarrow> u32 \<Rightarrow> u16 \<Rightarrow> u32" where
  "segment_at m elf k = elf + program_header_table m elf + ucast k * ucast (pht_entry_size m elf)"

text \<open>
  A segment that can be loaded: it lies in the pages of the process, is not larger in the file than
  in memory, and its description and its bytes in the file are not where it is loaded to.
\<close>

definition segment_ok :: "'z paged_scheme \<Rightarrow> u32 \<Rightarrow> u32 list \<Rightarrow> u32 \<Rightarrow> bool" where
  "segment_ok s elf virtuals p \<longleftrightarrow>
     (let m = mem s; v = segment_virtual_address m p; k = unat (segment_size_in_memory m p);
          n = unat (segment_size_in_file m p)
      in region p 32 \<inter> pages virtuals = {} \<and>
         (segment_type m p = 1 \<longrightarrow> n \<le> k \<and> (k = 0 \<or> in_pages s virtuals v k) \<and>
           region (elf + segment_offset m p) n \<inter> pages virtuals = {}))"

lemma in_pages_less: "in_pages s virtuals v k \<Longrightarrow> n \<le> k \<Longrightarrow> in_pages s virtuals v n"
  by (auto simp: in_pages_def)

lemma field_cong:
  assumes "region p 32 \<inter> P = {}" "\<And>x. x \<notin> P \<Longrightarrow> m x = m' x" "unat i + 4 \<le> 32"
  shows "load32 m (p + i) = load32 m' (p + i)"
proof (rule load32_cong_region)
  fix x assume "x \<in> region (p + i) 4"
  then have "x \<in> region p 32" using region_shift [OF assms(3), of p] by blast
  then show "m x = m' x" using assms(1,2) by blast
qed

lemma segment_fields_cong:
  assumes "region p 32 \<inter> P = {}" "\<And>x. x \<notin> P \<Longrightarrow> m x = m' x"
  shows "segment_type m p = segment_type m' p" "segment_offset m p = segment_offset m' p"
    "segment_virtual_address m p = segment_virtual_address m' p" "segment_size_in_file m p = segment_size_in_file m' p"
    "segment_size_in_memory m p = segment_size_in_memory m' p"
  using field_cong [OF assms, where i = 0] field_cong [OF assms, where i = 4] field_cong [OF assms, where i = 8]
    field_cong [OF assms, where i = 16] field_cong [OF assms, where i = 20]
  by (simp_all add: segment_type_def segment_offset_def segment_virtual_address_def segment_size_in_file_def
      segment_size_in_memory_def)

text \<open>The addresses a segment is loaded to, and what is there afterwards.\<close>

definition segment_target :: "'z paged_scheme \<Rightarrow> u32 list \<Rightarrow> u32 \<Rightarrow> u32 set" where
  "segment_target s virtuals p =
     (if segment_type (mem s) p = 1
      then (\<lambda>j. page_address s virtuals (segment_virtual_address (mem s) p + of_nat j)) ` {..<unat (segment_size_in_memory (mem s) p)}
      else {})"

definition segment_loaded :: "'z paged_scheme \<Rightarrow> u32 \<Rightarrow> u32 list \<Rightarrow> u32 \<Rightarrow> memory \<Rightarrow> bool" where
  "segment_loaded s elf virtuals p m \<longleftrightarrow>
     (segment_type (mem s) p = 1 \<longrightarrow>
       (\<forall>j < unat (segment_size_in_memory (mem s) p).
         m (page_address s virtuals (segment_virtual_address (mem s) p + of_nat j)) =
           (if j < unat (segment_size_in_file (mem s) p) then mem s (elf + segment_offset (mem s) p + of_nat j) else 0)))"

lemma segment_target_in_pages:
  "segment_ok s elf virtuals p \<Longrightarrow> segment_target s virtuals p \<subseteq> pages virtuals"
  using page_addresses_in_pages [of "unat (segment_size_in_memory (mem s) p)" s virtuals "segment_virtual_address (mem s) p"]
  by (auto simp: segment_ok_def segment_target_def Let_def image_subset_iff)

lemma load_segment_loads:
  assumes "pages_apart virtuals" "segment_ok s elf virtuals (segment_at (mem s) elf k)"
  shows "\<exists>m. load_segment s elf k virtuals = Inr (set_mem s m) \<and>
    (\<forall>x. x \<notin> segment_target s virtuals (segment_at (mem s) elf k) \<longrightarrow> m x = mem s x) \<and>
    segment_loaded s elf virtuals (segment_at (mem s) elf k) m"
proof -
  define p where "p = segment_at (mem s) elf k"
  let ?v = "segment_virtual_address (mem s) p" and ?k = "unat (segment_size_in_memory (mem s) p)"
  let ?n = "unat (segment_size_in_file (mem s) p)" and ?src = "elf + segment_offset (mem s) p"
  show ?thesis
  proof (cases "segment_type (mem s) p = 1")
    case False
    then have "load_segment s elf k virtuals = Inr (set_mem s (mem s))"
      by (simp add: load_segment_def segment_at_def [symmetric] p_def Let_def)
    then show ?thesis using False unfolding p_def by (intro exI [of _ "mem s"]) (simp add: segment_loaded_def)
  next
    case True
    have ok: "region p 32 \<inter> pages virtuals = {}" "?n \<le> ?k" "?k = 0 \<or> in_pages s virtuals ?v ?k"
      "region ?src ?n \<inter> pages virtuals = {}"
      using assms(2) True by (simp_all add: segment_ok_def Let_def p_def)
    obtain m1 where m1: "mem_set_page s ?v 0 ?k virtuals = Inr (set_mem s m1)"
      "\<And>j. j < ?k \<Longrightarrow> m1 (page_address s virtuals (?v + of_nat j)) = 0"
      "\<And>x. x \<notin> (\<lambda>j. page_address s virtuals (?v + of_nat j)) ` {..<?k} \<Longrightarrow> m1 x = mem s x"
      using fill_pages_image [OF assms(1), of "replicate ?k 0" s ?v] ok(3) by (auto simp: mem_set_page_fill)
    have frame1: "m1 x = mem s x" if "x \<notin> pages virtuals" for x
      using page_addresses_in_pages [OF ok(3)] that by (intro m1(3)) blast
    note same = segment_fields_cong [OF ok(1) frame1]
    let ?t = "set_mem s m1" and ?bs = "map (\<lambda>j. m1 (?src + of_nat j)) [0..<?n]"
    have in_n: "?n = 0 \<or> in_pages ?t virtuals ?v ?n"
      using ok(2,3) in_pages_less [of s virtuals ?v ?k ?n] by (auto simp: in_pages_def)
    have copy: "mem_copy_page ?t ?v ?src ?n virtuals = fill_pages ?t ?v ?bs virtuals"
      using mem_copy_page_fill [OF ok(4) in_n] by simp
    obtain m2 where m2: "fill_pages ?t ?v ?bs virtuals = Inr (set_mem ?t m2)"
      "\<And>j. j < ?n \<Longrightarrow> m2 (page_address s virtuals (?v + of_nat j)) = ?bs ! j"
      "\<And>x. x \<notin> (\<lambda>j. page_address s virtuals (?v + of_nat j)) ` {..<?n} \<Longrightarrow> m2 x = m1 x"
      using fill_pages_image [OF assms(1), of ?bs ?t ?v] in_n by (auto simp: page_address_cong [of ?t s])
    have "load_segment s elf k virtuals = Inr (set_mem s m2)"
      using True m1(1) copy m2(1) by (simp add: load_segment_def segment_at_def [symmetric] p_def [symmetric] Let_def same)
    moreover have "m2 x = mem s x" if "x \<notin> segment_target s virtuals p" for x
    proof -
      have "m1 x = mem s x" using that True by (intro m1(3)) (simp add: segment_target_def)
      moreover have "m2 x = m1 x" using that True ok(2) by (intro m2(3)) (force simp: segment_target_def)
      ultimately show ?thesis by simp
    qed
    moreover have "m2 (page_address s virtuals (?v + of_nat j)) = (if j < ?n then mem s (?src + of_nat j) else 0)" if "j < ?k" for j
    proof (cases "j < ?n")
      case True
      have "?src + of_nat j \<in> region ?src ?n" using True unat_u32_less [of "segment_size_in_file (mem s) p"] by (simp add: region_iff)
      then have "?src + of_nat j \<notin> pages virtuals" using ok(4) by blast
      then show ?thesis using True m2(2) frame1 by simp
    next
      case False
      have "page_address s virtuals (?v + of_nat j) \<noteq> page_address s virtuals (?v + of_nat i)" if "i < ?n" for i
      proof -
        have i: "i < ?k" "i \<noteq> j" using that ok(2) False by auto
        have in_k: "in_pages s virtuals ?v ?k" using ok(3) \<open>j < ?k\<close> by auto
        have "?v + of_nat j \<noteq> ?v + of_nat i"
          using i \<open>j < ?k\<close> unat_u32_less [of "segment_size_in_memory (mem s) p"] by (simp add: of_nat_u32_eq_iff)
        then show ?thesis
          using in_pages_shift [OF in_k \<open>j < ?k\<close>] in_pages_shift [OF in_k i(1)] i(1) \<open>j < ?k\<close>
          by (intro page_address_inj [OF assms(1)]) (auto intro: page_number)
      qed
      then have "m2 (page_address s virtuals (?v + of_nat j)) = m1 (page_address s virtuals (?v + of_nat j))"
        by (intro m2(3)) auto
      then show ?thesis using m1(2) that False by simp
    qed
    ultimately show ?thesis using True unfolding p_def [symmetric] segment_loaded_def by blast
  qed
qed

text \<open>
  An image that can be loaded: the file is not in the pages of the process, every segment can be
  loaded, and no two of them to the same address.
\<close>

definition segments_ok :: "'z paged_scheme \<Rightarrow> u32 \<Rightarrow> u32 list \<Rightarrow> bool" where
  "segments_ok s elf virtuals \<longleftrightarrow> pages_apart virtuals \<and> region elf 52 \<inter> pages virtuals = {} \<and>
     (\<forall>k < pht_entry_nb (mem s) elf. segment_ok s elf virtuals (segment_at (mem s) elf k)) \<and>
     (\<forall>k < pht_entry_nb (mem s) elf. \<forall>l < pht_entry_nb (mem s) elf. k \<noteq> l \<longrightarrow>
       segment_target s virtuals (segment_at (mem s) elf k) \<inter> segment_target s virtuals (segment_at (mem s) elf l) = {})"

lemma header_cong:
  assumes "region elf 52 \<inter> P = {}" "\<And>x. x \<notin> P \<Longrightarrow> m x = m' x"
  shows "pht_entry_nb m elf = pht_entry_nb m' elf" "segment_at m elf k = segment_at m' elf k"
    "entry_point m elf = entry_point m' elf"
proof -
  have byte: "m (elf + i) = m' (elf + i)" if "unat i < 52" for i
  proof -
    have "elf + i \<in> region elf 52" using that by (simp add: region_iff)
    then show ?thesis using assms by blast
  qed
  show "pht_entry_nb m elf = pht_entry_nb m' elf" "segment_at m elf k = segment_at m' elf k"
    "entry_point m elf = entry_point m' elf"
    by (simp_all add: pht_entry_nb_def segment_at_def entry_point_def program_header_table_def pht_entry_size_def
        load32_def load16_def add.assoc byte)
qed

text \<open>Loading other segments does not change what a segment says.\<close>

lemma segment_cong:
  assumes "segment_ok s elf virtuals p" "\<And>x. x \<notin> pages virtuals \<Longrightarrow> m x = mem s x"
  shows "segment_ok (set_mem s m) elf virtuals p" "segment_target (set_mem s m) virtuals p = segment_target s virtuals p"
    "segment_loaded (set_mem s m) elf virtuals p m' \<longleftrightarrow> segment_loaded s elf virtuals p m'"
proof -
  have p: "region p 32 \<inter> pages virtuals = {}" using assms(1) by (simp add: segment_ok_def Let_def)
  note same = segment_fields_cong [OF p assms(2)]
  show "segment_ok (set_mem s m) elf virtuals p"
    using assms(1) by (simp add: segment_ok_def Let_def same in_pages_def)
  show "segment_target (set_mem s m) virtuals p = segment_target s virtuals p"
    by (simp add: segment_target_def same page_address_cong [of "set_mem s m" s])
  have "m (elf + segment_offset (mem s) p + of_nat j) = mem s (elf + segment_offset (mem s) p + of_nat j)"
    if "segment_type (mem s) p = 1" "j < unat (segment_size_in_file (mem s) p)" for j
  proof -
    let ?src = "elf + segment_offset (mem s) p"
    have "?src + of_nat j \<in> region ?src (unat (segment_size_in_file (mem s) p))"
      using that(2) unat_u32_less [of "segment_size_in_file (mem s) p"] by (simp add: region_iff)
    then show ?thesis using assms that(1) by (auto simp: segment_ok_def Let_def)
  qed
  then show "segment_loaded (set_mem s m) elf virtuals p m' \<longleftrightarrow> segment_loaded s elf virtuals p m'"
    by (simp add: segment_loaded_def same page_address_cong [of "set_mem s m" s])
qed

lemma segments_ok_cong:
  assumes "segments_ok s elf virtuals" "\<And>x. x \<notin> pages virtuals \<Longrightarrow> m x = mem s x"
  shows "segments_ok (set_mem s m) elf virtuals"
proof -
  have h: "region elf 52 \<inter> pages virtuals = {}" using assms(1) by (simp add: segments_ok_def)
  note same = header_cong [OF h assms(2)]
  have target: "segment_target (set_mem s m) virtuals (segment_at (mem s) elf k) = segment_target s virtuals (segment_at (mem s) elf k)"
    if "k < pht_entry_nb (mem s) elf" for k
    using assms(1) that by (intro segment_cong(2) [where elf = elf] assms(2)) (simp_all add: segments_ok_def)
  show ?thesis using assms(1) by (simp add: segments_ok_def same segment_cong(1) [OF _ assms(2)] target)
qed

lemma segment_loaded_cong:
  assumes "segment_loaded s elf virtuals p m" "\<And>x. x \<in> segment_target s virtuals p \<Longrightarrow> m' x = m x"
  shows "segment_loaded s elf virtuals p m'"
  using assms by (auto simp: segment_loaded_def segment_target_def)

lemma load_segments_loads:
  assumes "segments_ok s elf virtuals"
  shows "\<exists>m. load_segments s elf i virtuals = Inr (set_mem s m) \<and>
    (\<forall>x. (\<forall>k. i \<le> k \<longrightarrow> k < pht_entry_nb (mem s) elf \<longrightarrow> x \<notin> segment_target s virtuals (segment_at (mem s) elf k)) \<longrightarrow> m x = mem s x) \<and>
    (\<forall>k. i \<le> k \<longrightarrow> k < pht_entry_nb (mem s) elf \<longrightarrow> segment_loaded s elf virtuals (segment_at (mem s) elf k) m)"
  using assms
proof (induction s elf i virtuals rule: load_segments.induct)
  case (1 s elf i virtuals)
  let ?n = "pht_entry_nb (mem s) elf" and ?p = "segment_at (mem s) elf"
  show ?case
  proof (cases "i < ?n")
    case False
    then have "load_segments s elf i virtuals = Inr (set_mem s (mem s))" by (simp add: load_segments.simps)
    then show ?thesis using False by (intro exI [of _ "mem s"]) (auto dest: le_less_trans)
  next
    case True
    have apart: "pages_apart virtuals" "region elf 52 \<inter> pages virtuals = {}" and ok: "\<And>k. k < ?n \<Longrightarrow> segment_ok s elf virtuals (?p k)"
      and disjoint: "\<And>k l. k < ?n \<Longrightarrow> l < ?n \<Longrightarrow> k \<noteq> l \<Longrightarrow> segment_target s virtuals (?p k) \<inter> segment_target s virtuals (?p l) = {}"
      using "1.prems" by (simp_all add: segments_ok_def)
    obtain m1 where m1: "load_segment s elf i virtuals = Inr (set_mem s m1)"
      "\<And>x. x \<notin> segment_target s virtuals (?p i) \<Longrightarrow> m1 x = mem s x" "segment_loaded s elf virtuals (?p i) m1"
      using load_segment_loads [OF apart(1) ok [OF True]] by blast
    have frame: "m1 x = mem s x" if "x \<notin> pages virtuals" for x
      using segment_target_in_pages [OF ok [OF True]] that by (intro m1(2)) blast
    let ?t = "set_mem s m1"
    note same = header_cong [OF apart(2) frame]
    note seg = segment_cong [OF ok frame]
    have next_le: "i + 1 \<le> k \<longleftrightarrow> i < k" if "k < ?n" for k
    proof -
      have "unat ?n < 0x10000" using unsigned_less [of ?n] by simp
      then have "unat (i + 1) = unat i + 1" using True by (simp add: unat_word_ariths word_less_nat_alt)
      then show ?thesis by (simp add: word_le_nat_alt word_less_nat_alt Suc_le_eq)
    qed
    obtain m2 where m2: "load_segments ?t elf (i + 1) virtuals = Inr (set_mem ?t m2)"
      "\<And>x. (\<And>k. i + 1 \<le> k \<Longrightarrow> k < ?n \<Longrightarrow> x \<notin> segment_target ?t virtuals (?p k)) \<Longrightarrow> m2 x = m1 x"
      "\<And>k. i + 1 \<le> k \<Longrightarrow> k < ?n \<Longrightarrow> segment_loaded ?t elf virtuals (?p k) m2"
      using "1.IH" [OF True m1(1) segments_ok_cong [OF "1.prems" frame]] by (auto simp: same)
    have "load_segments s elf i virtuals = Inr (set_mem s m2)"
      using True m1(1) m2(1) by (simp add: load_segments.simps [of s])
    moreover have "m2 x = mem s x"
      if "\<forall>k. i \<le> k \<longrightarrow> k < ?n \<longrightarrow> x \<notin> segment_target s virtuals (?p k)" for x
    proof -
      have "m2 x = m1 x" using that by (intro m2(2)) (simp add: seg(2) next_le)
      moreover have "m1 x = mem s x" using that True by (intro m1(2)) simp
      ultimately show ?thesis by simp
    qed
    moreover have "segment_loaded s elf virtuals (?p k) m2" if "i \<le> k" "k < ?n" for k
    proof (cases "k = i")
      case True
      have "m2 x = m1 x" if "x \<in> segment_target s virtuals (?p i)" for x
        using disjoint [OF \<open>i < ?n\<close>] that by (intro m2(2)) (auto simp: seg(2) next_le)
      then show ?thesis using True m1(3) by (blast intro: segment_loaded_cong)
    next
      case False
      then show ?thesis using m2(3) that by (simp add: next_le seg(3))
    qed
    ultimately show ?thesis by blast
  qed
qed

subsection \<open>Programs\<close>

definition elf_header_ok :: "memory \<Rightarrow> u32 \<Rightarrow> u32 \<Rightarrow> bool" where
  "elf_header_ok m elf start \<longleftrightarrow> m elf = 0x7F \<and> m (elf + 1) = 69 \<and> m (elf + 2) = 76 \<and> m (elf + 3) = 70 \<and>
     nb_bits m elf = 1 \<and> endian m elf = 1 \<and> elf_type m elf = 2 \<and> instruction_set m elf = 3 \<and> start \<le> entry_point m elf"

text \<open>
  C11: Loading an image with a proper header whose segments fit the pages of the process returns its
  entry point.  Afterwards every loadable segment is in place: the bytes of the file at its addresses
  in the process, followed by zeros up to its size in memory; no byte outside the pages of the process
  has changed.
\<close>
theorem check_and_load_image:
  fixes s :: "'z kernel_scheme"
  assumes "segments_ok s elf virtuals" "elf_header_ok (mem s) elf (START_OF_USER_CODE s)"
  shows "\<exists>m. check_and_load s elf virtuals = Inr (entry_point (mem s) elf, set_mem s m) \<and>
    (\<forall>x. x \<notin> pages virtuals \<longrightarrow> m x = mem s x) \<and>
    (\<forall>k < pht_entry_nb (mem s) elf. segment_loaded s elf virtuals (segment_at (mem s) elf k) m)"
proof -
  have ok: "region elf 52 \<inter> pages virtuals = {}"
    "\<And>k. k < pht_entry_nb (mem s) elf \<Longrightarrow> segment_ok s elf virtuals (segment_at (mem s) elf k)"
    using assms(1) by (simp_all add: segments_ok_def)
  obtain m where m: "load_segments s elf 0 virtuals = Inr (set_mem s m)"
    "\<And>x. (\<And>k. k < pht_entry_nb (mem s) elf \<Longrightarrow> x \<notin> segment_target s virtuals (segment_at (mem s) elf k)) \<Longrightarrow> m x = mem s x"
    "\<And>k. k < pht_entry_nb (mem s) elf \<Longrightarrow> segment_loaded s elf virtuals (segment_at (mem s) elf k) m"
    using load_segments_loads [OF assms(1), of 0] by auto
  have frame: "m x = mem s x" if "x \<notin> pages virtuals" for x
    using segment_target_in_pages [OF ok(2)] that by (intro m(2)) blast
  have "check_and_load s elf virtuals = Inr (entry_point (mem s) elf, set_mem s m)"
    using assms(2) m(1) header_cong(3) [OF ok(1) frame] by (simp add: check_and_load_def elf_header_ok_def)
  then show ?thesis using frame m(3) by blast
qed

text \<open>A program of two segments, one of code and one of data, the latter larger in memory than in the file.\<close>

definition example_elf :: "u8 list" where
  "example_elf =
    [127, 69, 76, 70, 1, 1, 1, 0, 0, 0, 0, 0, 0, 0, 0, 0, 2, 0, 3, 0, 1, 0, 0, 0, 0, 128, 4, 8, 52, 0, 0, 0,
     0, 0, 0, 0, 0, 0, 0, 0, 52, 0, 32, 0, 2, 0, 0, 0, 0, 0, 0, 0, 1, 0, 0, 0, 116, 0, 0, 0, 0, 128, 4, 8,
     0, 0, 0, 0, 2, 0, 0, 0, 2, 0, 0, 0, 5, 0, 0, 0, 0, 0, 0, 0, 1, 0, 0, 0, 118, 0, 0, 0, 0, 144, 4, 8,
     0, 0, 0, 0, 1, 0, 0, 0, 3, 0, 0, 0, 5, 0, 0, 0, 0, 0, 0, 0, 205, 128, 7]"

definition example_program :: kernel where
  "example_program = boot_state\<lparr>START_OF_USER_CODE := 0x8048000,
     kmem := (\<lambda>x. if unat (x - 0x100) < length example_elf then example_elf ! unat (x - 0x100) else 0)\<rparr>"

lemma mem_example_program:
  "mem example_program = (\<lambda>x. if unat (x - 0x100) < length example_elf then example_elf ! unat (x - 0x100) else 0)"
  by (simp add: example_program_def boot_state_def mem_def)

lemma example_start [simp]: "START_OF_USER_CODE example_program = 0x8048000"
  by (simp add: example_program_def)

lemma example_pages: "pages [0x2000, 0x4000] = region 0x2000 0x1000 \<union> region 0x4000 0x1000"
  by (auto simp: pages_def)

lemma example_separate: "unat a + n \<le> 0x2000 \<Longrightarrow> region a n \<inter> pages [0x2000, 0x4000] = {}"
  using separate_before [of a n "0x2000" "0x1000"] separate_before [of a n "0x4000" "0x1000"]
  by (auto simp: example_pages separate_def)

lemma example_fields:
  "segment_at (mem example_program) 0x100 0 = 0x134" "segment_at (mem example_program) 0x100 1 = 0x154"
  "pht_entry_nb (mem example_program) 0x100 = 2" "entry_point (mem example_program) 0x100 = 0x8048000"
  "segment_type (mem example_program) 0x134 = 1" "segment_type (mem example_program) 0x154 = 1"
  "segment_offset (mem example_program) 0x134 = 116" "segment_offset (mem example_program) 0x154 = 118"
  "segment_virtual_address (mem example_program) 0x134 = 0x8048000"
  "segment_virtual_address (mem example_program) 0x154 = 0x8049000"
  "segment_size_in_file (mem example_program) 0x134 = 2" "segment_size_in_file (mem example_program) 0x154 = 1"
  "segment_size_in_memory (mem example_program) 0x134 = 2" "segment_size_in_memory (mem example_program) 0x154 = 3"
  by (simp_all add: segment_at_def pht_entry_nb_def entry_point_def segment_type_def segment_offset_def
      segment_virtual_address_def segment_size_in_file_def segment_size_in_memory_def program_header_table_def
      pht_entry_size_def load32_def load16_def mem_example_program example_elf_def)

lemma numbers_below: "{..<2 :: nat} = {0, 1}" "{..<3 :: nat} = {0, 1, 2}" "n < 2 \<longleftrightarrow> n = 0 \<or> n = 1" for n :: nat
  by auto

lemma All_below: "(\<forall>j < 2. P j) \<longleftrightarrow> P 0 \<and> P 1" "(\<forall>j < 3. P j) \<longleftrightarrow> P 0 \<and> P 1 \<and> P 2" for P :: "nat \<Rightarrow> bool"
  using numbers_below(1,2) unfolding lessThan_iff [symmetric] by auto

lemma example_bytes: "mem example_program 0x174 = 0xCD" "mem example_program 0x175 = 0x80" "mem example_program 0x176 = 7"
  by (simp_all add: mem_example_program example_elf_def)

lemma example_targets:
  "segment_target example_program [0x2000, 0x4000] 0x134 = {0x2000, 0x2001}"
  "segment_target example_program [0x2000, 0x4000] 0x154 = {0x4000, 0x4001, 0x4002}"
  by (simp_all add: segment_target_def example_fields page_address_def numbers_below)

lemma example_segments_ok: "segments_ok example_program 0x100 [0x2000, 0x4000]"
proof -
  have two: "k = 0 \<or> k = 1" if "k < 2" for k :: u16
  proof -
    have "unat k = 0 \<or> unat k = 1" using that by (auto simp: word_less_nat_alt)
    then show ?thesis by (metis unsigned_0 unsigned_1 word_unat_eq_iff)
  qed
  have apart: "pages_apart [0x2000, 0x4000]"
    using separate_before [of "0x2000" "0x1000" "0x4000" "0x1000"]
    by (auto simp: pages_apart_def less_Suc_eq separate_sym)
  have "segment_ok example_program 0x100 [0x2000, 0x4000] (segment_at (mem example_program) 0x100 k)"
    if "k = 0 \<or> k = 1" for k
    using that
    by (elim disjE) (simp_all add: example_fields segment_ok_def Let_def in_pages_def example_separate)
  moreover have "segment_target example_program [0x2000, 0x4000] (segment_at (mem example_program) 0x100 k) \<inter>
      segment_target example_program [0x2000, 0x4000] (segment_at (mem example_program) 0x100 l) = {}"
    if "k = 0 \<or> k = 1" "l = 0 \<or> l = 1" "k \<noteq> l" for k l
    using that by (auto simp: example_fields example_targets)
  ultimately show ?thesis
    using apart two unfolding segments_ok_def example_fields by (auto intro!: example_separate)
qed

lemma check_and_load_image_witness:
  "\<exists>m. check_and_load example_program 0x100 [0x2000, 0x4000] = Inr (0x8048000, set_mem example_program m) \<and>
     m 0x2000 = 0xCD \<and> m 0x2001 = 0x80 \<and> m 0x4000 = 7 \<and> m 0x4001 = 0 \<and> m 0x4002 = 0 \<and> m 0x100 = 0x7F"
proof -
  have header: "elf_header_ok (mem example_program) 0x100 (START_OF_USER_CODE example_program)"
    by (simp add: elf_header_ok_def nb_bits_def endian_def elf_type_def instruction_set_def entry_point_def
        load32_def load16_def mem_example_program example_elf_def)
  obtain m where m: "check_and_load example_program 0x100 [0x2000, 0x4000] = Inr (0x8048000, set_mem example_program m)"
    "\<And>x. x \<notin> pages [0x2000, 0x4000] \<Longrightarrow> m x = mem example_program x"
    "segment_loaded example_program 0x100 [0x2000, 0x4000] 0x134 m"
    "segment_loaded example_program 0x100 [0x2000, 0x4000] 0x154 m"
  proof -
    obtain m where m: "check_and_load example_program 0x100 [0x2000, 0x4000] = Inr (0x8048000, set_mem example_program m)"
      "\<forall>x. x \<notin> pages [0x2000, 0x4000] \<longrightarrow> m x = mem example_program x"
      "\<forall>k < 2. segment_loaded example_program 0x100 [0x2000, 0x4000] (segment_at (mem example_program) 0x100 k) m"
      using check_and_load_image [OF example_segments_ok header] unfolding example_fields by blast
    have "segment_loaded example_program 0x100 [0x2000, 0x4000] 0x134 m" "segment_loaded example_program 0x100 [0x2000, 0x4000] 0x154 m"
      using m(3) [rule_format, of 0] m(3) [rule_format, of 1] by (simp_all add: example_fields)
    then show ?thesis using that m(1,2) by blast
  qed
  have "m 0x2000 = 0xCD \<and> m 0x2001 = 0x80"
    using m(3) by (simp add: segment_loaded_def example_fields page_address_def All_below example_bytes)
  moreover have "m 0x4000 = 7 \<and> m 0x4001 = 0 \<and> m 0x4002 = 0"
    using m(4) by (simp add: segment_loaded_def example_fields page_address_def All_below example_bytes)
  moreover have "m 0x100 = 0x7F"
  proof -
    have "(0x100 :: u32) \<in> region 0x100 1" by (simp add: region_iff)
    then have "(0x100 :: u32) \<notin> pages [0x2000, 0x4000]" using example_separate [of "0x100" 1] by auto
    then show ?thesis using m(2) by (simp add: mem_example_program example_elf_def)
  qed
  ultimately show ?thesis using m(1) by blast
qed

end
