(* ===== verification/File_Calls.thy ===== *)
theory File_Calls
  imports File_Table Syscall
begin

text \<open>
  The system calls of \<^verbatim>\<open>syscall.c\<close> on files.  The kernel works on its own memory and the disk and
  goes to the address space of the process only to copy bytes to or from \<^verbatim>\<open>sys_buf\<close>, a static
  buffer of 2048 bytes.
\<close>

definition set_eax :: "'z kernel_scheme \<Rightarrow> u32 \<Rightarrow> 'z kernel_scheme result" where
  "set_eax s v = bindE (curr_regs s) (\<lambda>regs. Inr (set_reg s regs Eax v))"

definition syscall_open :: "'z filesystem_scheme allocator \<Rightarrow> 'z filesystem_scheme \<Rightarrow> 'z filesystem_scheme result" where
  "syscall_open A s =
     bindE (curr_regs s) (\<lambda>regs.
     let str_path = get_reg s regs Ebx; oflag = ucast (get_reg s regs Ecx AND 0xFF) :: u8;
         fperm = ucast (get_reg s regs Edx AND 0xFFFF) :: u16
     in bindE (user_enter s) (\<lambda>s.
        bindE (of_option Hang (str_copy (mem s) str_path (sys_buf s))) (\<lambda>(_, m).
        bindE (user_leave (set_mem s m)) (\<lambda>s.
        bindE (of_option Hang (mem_string (mem s) (sys_buf s))) (\<lambda>p.
        bindE (openfile A s p oflag fperm) (\<lambda>(ret, s). set_eax s ret))))))"

definition syscall_close :: "'z filesystem_scheme allocator \<Rightarrow> 'z filesystem_scheme \<Rightarrow> 'z filesystem_scheme result" where
  "syscall_close A s = bindE (curr_regs s) (\<lambda>regs. close_c A s (get_reg s regs Ebx))"

definition syscall_read :: "'z filesystem_scheme \<Rightarrow> 'z filesystem_scheme result" where
  "syscall_read s =
     bindE (curr_regs s) (\<lambda>regs.
     let f = get_reg s regs Ebx; buffer = get_reg s regs Ecx; offset = get_reg s regs Edx; len = get_reg s regs Edi;
         e = fd_entry s f
     in if \<not> valid_fd s f then set_eax s 0
        else if fd_mode s e AND ucast O_RDONLY = 0 then set_eax s 0
        else if fd_pos s e \<ge> fd_size s e then set_eax s 0
        else let len = (if fd_pos s e + len > fd_size s e then fd_size s e - fd_pos s e else len)
        in bindE (read_inode_data s (fd_inode s e) (sys_buf s) (fd_pos s e) len) (\<lambda>(count, s).
           bindE (user_enter s) (\<lambda>s.
           let s = set_mem s (mem_copy (mem s) (buffer + offset) (sys_buf s) count)
           in bindE (user_leave s) (\<lambda>s.
                set_eax (set_fd_pos s f (fd_pos s (fd_entry s f) + count)) count))))"

text \<open>
  Every round copies the larger one of what is left and the size of the buffer into the buffer.
\<close>

function syscall_write_loop ::
  "'z filesystem_scheme \<Rightarrow> u32 \<Rightarrow> u32 \<Rightarrow> u32 \<Rightarrow> u32 \<Rightarrow> u32 \<Rightarrow> u32 \<Rightarrow> (u32 \<times> u32 \<times> 'z filesystem_scheme) result"
where
  "syscall_write_loop s inode p buffer offset len written =
     (if written \<noteq> len then
        bindE (user_enter s) (\<lambda>s.
        bindE (user_leave (set_mem s (mem_copy (mem s) (sys_buf s) (buffer + offset) (max_c (len - written) 2048)))) (\<lambda>s.
        bindE (write_inode_data s inode (sys_buf s) p (len - written)) (\<lambda>(count, s).
          if count = 0 then Inr (p, written, s)
          else syscall_write_loop s inode (p + count) buffer (offset + count) len (written + count))))
      else Inr (p, written, s))"
  by pat_completeness auto
termination
proof (relation "measure (\<lambda>(s, inode, p, buffer, offset, len, written). unat (len - written))", goal_cases)
  case (2 s inode p buffer offset len written s1 s2 x count t)
  then have "count \<le> len - written" by (auto dest: write_inode_data_at_most)
  with 2 show ?case by (simp add: remaining_shrinks)
qed simp

declare syscall_write_loop.simps [simp del]

definition syscall_write :: "'z filesystem_scheme \<Rightarrow> 'z filesystem_scheme result" where
  "syscall_write s =
     bindE (curr_regs s) (\<lambda>regs.
     let f = get_reg s regs Ebx; buffer = get_reg s regs Ecx; offset = get_reg s regs Edx; len = get_reg s regs Edi;
         e = fd_entry s f
     in if \<not> valid_fd s f then set_eax s 0
        else if fd_mode s e AND ucast O_WRONLY = 0 then set_eax s 0
        else if len = 0 then set_eax s 0
        else bindE (udiv (fd_pos s e + len - 1) (block_size s)) (\<lambda>q.
          let to_use = 1 + q
          in bindE (used_blocks s (fd_size s e)) (\<lambda>used.
             bindE (prepare_blocks s (fd_inode s e) used to_use) (\<lambda>(alloc, s).
               if to_use > used \<and> alloc \<noteq> to_use - used then set_eax s 0
               else let e = fd_entry s f
               in bindE (syscall_write_loop s (fd_inode s e) (fd_pos s e) buffer offset len 0) (\<lambda>(p, written, s).
                  let s = set_fd_pos s f p; e = fd_entry s f
                  in bindE (if p > fd_size s e then
                         let s = write32 s (e + 8) p;
                             s = write32 s (std_inode s + 4) (fd_size s e)
                         in update_inode s (fd_inode s e) (std_inode s)
                       else Inr s) (\<lambda>s. set_eax s written))))))"

definition syscall_lseek :: "'z filesystem_scheme \<Rightarrow> 'z filesystem_scheme result" where
  "syscall_lseek s =
     bindE (curr_regs s) (\<lambda>regs.
     bindE (lseek s (get_reg s regs Ebx) (get_reg s regs Ecx) (ucast (get_reg s regs Edx))) (\<lambda>(p, s). set_eax s p))"

definition syscall_fstat :: "'z filesystem_scheme \<Rightarrow> 'z filesystem_scheme result" where
  "syscall_fstat s =
     bindE (curr_regs s) (\<lambda>regs.
     bindE (fstat s (get_reg s regs Ebx) (sys_buf s)) (\<lambda>s.
     bindE (user_enter s) (\<lambda>s.
     bindE (curr_regs s) (\<lambda>regs.
       user_leave (set_mem s (mem_copy (mem s) (get_reg s regs Ecx) (sys_buf s) 16))))))"

text \<open>The part of the call table that \<^verbatim>\<open>syscall\<close> leaves to its environment.\<close>

definition run_file_call :: "'z filesystem_scheme allocator \<Rightarrow> syscall_routine \<Rightarrow> 'z filesystem_scheme \<Rightarrow> 'z filesystem_scheme result" where
  "run_file_call A r s =
     (case r of Sys_open \<Rightarrow> syscall_open A s | Sys_close \<Rightarrow> syscall_close A s | Sys_read \<Rightarrow> syscall_read s
      | Sys_write \<Rightarrow> syscall_write s | Sys_lseek \<Rightarrow> syscall_lseek s | Sys_fstat \<Rightarrow> syscall_fstat s | _ \<Rightarrow> Inl NullCall)"

definition kernel_environment ::
  "'z filesystem_scheme allocator \<Rightarrow> ('z filesystem_scheme \<Rightarrow> 'z filesystem_scheme result) list
     \<Rightarrow> 'z filesystem_scheme environment"
where
  "kernel_environment A irqs = \<lparr>file_call = run_file_call A, interrupts = irqs\<rparr>"

end
