(* ===== verification/File_Frame.thy ===== *)
theory File_Frame
  imports File_Calls Syscall_Props
begin

text \<open>
  What the operations on files leave alone: the process table.  With this the assumption about the
  calls on files in the invariant of the kernel holds for the calls of the model, and the kernel with
  its file system keeps the table.
\<close>

subsection \<open>Results\<close>

text \<open>
  \<open>yields Q r\<close>: a value that the computation gives satisfies \<open>Q\<close>.  As for \<open>returns\<close>, there is one rule
  for each operation.
\<close>

definition yields :: "('a \<Rightarrow> bool) \<Rightarrow> 'a result \<Rightarrow> bool" where
  "yields Q r = (case r of Inl e \<Rightarrow> True | Inr a \<Rightarrow> Q a)"

named_theorems keeps \<open>operations of the file system keep the process table\<close>

lemma yields_simps [simp]:
  "yields Q (Inr a) = Q a" "yields Q (Inl e)"
  "yields Q (bindE r f) = yields (\<lambda>a. yields Q (f a)) r"
  by (auto simp: yields_def bindE_def split: sum.splits)

lemma yields_mono: "yields P r \<Longrightarrow> (\<And>a. P a \<Longrightarrow> Q a) \<Longrightarrow> yields Q r"
  by (auto simp: yields_def split: sum.splits)

lemma yieldsD: "yields Q r \<Longrightarrow> r = Inr a \<Longrightarrow> Q a"
  by simp

text \<open>An operation whose result is no state yields anything.\<close>

lemma yields_any: "(\<And>a. Q a) \<Longrightarrow> yields Q r"
  by (cases r) simp_all

lemmas yields_pure [keeps] =
  yields_any [of _ "udiv a b" for a b] yields_any [of _ "umod a b" for a b]
  yields_any [of _ "str_split cs c b" for cs c b] yields_any [of _ "of_option e x" for e x]
  yields_any [of _ "find_entry s name e n" for s name e n] yields_any [of _ "last_entry s name e room n" for s name e room n]
  yields_any [of _ "find_removed s i p e n" for s i p e n] yields_any [of _ "curr_regs s" for s]
  yields_any [of _ "readPIO d m a b c e" for d m a b c e] yields_any [of _ "readLBA d m a b c" for d m a b c]
  yields_any [of _ "writeLBA d m a b c" for d m a b c] yields_any [of _ "writef c fmt args" for c fmt args]
  yields_any [of _ "used_blocks s n" for s n]

subsection \<open>States with a correct table\<close>

definition kept :: "u32 \<Rightarrow> 'z kernel_scheme \<Rightarrow> bool" where
  "kept c s \<longleftrightarrow> table_ok s \<and> curr_pid s = c"

lemma kept_cong:
  "processes s' = processes s \<Longrightarrow> runqueues s' = runqueues s \<Longrightarrow> curr_pid s' = curr_pid s \<Longrightarrow> kept c s' \<longleftrightarrow> kept c s"
  by (simp add: kept_def table_ok_cong [of s' s])

lemma kept_updates [simp]:
  fixes s :: "'z filesystem_scheme"
  shows "kept c (set_mem s m) \<longleftrightarrow> kept c s" "kept c (write32 s a v) \<longleftrightarrow> kept c s"
    "kept c (write16 s a v2) \<longleftrightarrow> kept c s" "kept c (write8 s a v3) \<longleftrightarrow> kept c s"
    "kept c (s\<lparr>drv := d\<rparr>) \<longleftrightarrow> kept c s" "kept c (s\<lparr>spb := x\<rparr>) \<longleftrightarrow> kept c s" "kept c (s\<lparr>scr := y\<rparr>) \<longleftrightarrow> kept c s"
    "kept c (s\<lparr>fdt := t\<rparr>) \<longleftrightarrow> kept c s" "kept c (s\<lparr>fdt_size := n\<rparr>) \<longleftrightarrow> kept c s" "kept c (s\<lparr>fdt_num := n\<rparr>) \<longleftrightarrow> kept c s"
    "kept c (set_reg s r q v) \<longleftrightarrow> kept c s"
  by (rule kept_cong; simp add: set_mem_def write32_def write16_def write8_def set_reg_def)+


subsection \<open>Blocks and bitmaps\<close>

lemma read_lba_keeps [keeps]:
  assumes "kept c s" "\<And>t. kept c t \<Longrightarrow> Q t"
  shows "yields Q (read_lba s lba cnt buffer)"
  using assms by (auto simp: read_lba_def Let_def intro!: keeps)

lemma write_lba_keeps [keeps]:
  assumes "kept c s" "\<And>t. kept c t \<Longrightarrow> Q t"
  shows "yields Q (write_lba s lba cnt buffer)"
  using assms by (auto simp: write_lba_def Let_def intro!: keeps)

lemma read_pio_keeps [keeps]:
  assumes "kept c s" "\<And>t. kept c t \<Longrightarrow> Q t"
  shows "yields Q (read_pio s lba offset len buffer)"
  using assms by (auto simp: read_pio_def Let_def intro!: keeps)

lemma update_block_keeps [keeps]:
  assumes "kept c s" "\<And>t. kept c t \<Longrightarrow> Q t"
  shows "yields Q (update_block s buffer ofs len address)"
  using assms by (auto simp: update_block_def Let_def intro!: keeps)

lemma set_inode_keeps [keeps]:
  assumes "kept c s" "\<And>t. kept c t \<Longrightarrow> Q t"
  shows "yields Q (set_inode s inode buffer)"
  using assms by (auto simp: set_inode_def Let_def intro!: keeps)

lemma update_inode_keeps [keeps]:
  assumes "kept c s" "\<And>t. kept c t \<Longrightarrow> Q t"
  shows "yields Q (update_inode s inode buffer)"
  using assms by (auto simp: update_inode_def Let_def intro!: keeps)

lemma flush_bgpt_keeps [keeps]:
  assumes "kept c s" "\<And>t. kept c t \<Longrightarrow> Q t"
  shows "yields Q (flush_bgpt s)"
  using assms by (auto simp: flush_bgpt_def Let_def intro!: keeps)

lemma free_inode_loop_kept: "kept c s \<Longrightarrow> yields (\<lambda>(k, p, t). kept c t) (free_inode_loop s b k n p)"
  by (induction n arbitrary: s k p) (auto simp: Let_def intro!: keeps)

lemma free_inode_loop_keeps [keeps]:
  assumes "kept c s" "\<And>k p t. kept c t \<Longrightarrow> Q (k, p, t)"
  shows "yields Q (free_inode_loop s b k n p)"
  using free_inode_loop_kept [OF assms(1)] by (rule yields_mono) (auto intro: assms(2))

lemma allocate_inode_keeps [keeps]:
  assumes "kept c s" "\<And>i t. kept c t \<Longrightarrow> Q (i, t)"
  shows "yields Q (allocate_inode s)"
  using assms by (auto simp: allocate_inode_def Let_def intro!: keeps)

lemma unallocate_inode_keeps [keeps]:
  assumes "kept c s" "\<And>i t. kept c t \<Longrightarrow> Q (i, t)"
  shows "yields Q (unallocate_inode s inode)"
  using assms by (auto simp: unallocate_inode_def Let_def intro!: keeps)

lemma free_block_loop_kept: "kept c s \<Longrightarrow> yields (\<lambda>(k, p, t). kept c t) (free_block_loop s b k n p)"
  by (induction n arbitrary: s k p) (auto simp: Let_def intro!: keeps)

lemma free_block_loop_keeps [keeps]:
  assumes "kept c s" "\<And>k p t. kept c t \<Longrightarrow> Q (k, p, t)"
  shows "yields Q (free_block_loop s b k n p)"
  using free_block_loop_kept [OF assms(1)] by (rule yields_mono) (auto intro: assms(2))

lemma allocate_block_from_keeps [keeps]:
  assumes "kept c s" "\<And>r t. kept c t \<Longrightarrow> Q (r, t)"
  shows "yields Q (allocate_block_from s prec)"
  using assms by (auto simp: allocate_block_from_def Let_def intro!: keeps)

lemma allocate_block_keeps [keeps]:
  assumes "kept c s" "\<And>r t. kept c t \<Longrightarrow> Q (r, t)"
  shows "yields Q (allocate_block s prec)"
  using assms by (auto simp: allocate_block_def Let_def intro!: keeps split: option.split)

lemma unallocate_block_keeps [keeps]:
  assumes "kept c s" "\<And>r t. kept c t \<Longrightarrow> Q (r, t)"
  shows "yields Q (unallocate_block s block)"
  using assms by (auto simp: unallocate_block_def Let_def intro!: keeps)

subsection \<open>The blocks of a file\<close>

lemma data_block_keeps [keeps]:
  assumes "kept c s" "\<And>b t. kept c t \<Longrightarrow> Q (b, t)"
  shows "yields Q (data_block s n)"
  using assms by (auto simp: data_block_def read_indirect_def Let_def intro!: keeps)

lemma read_inode_data_keeps [keeps]:
  assumes "kept c s" "\<And>b t. kept c t \<Longrightarrow> Q (b, t)"
  shows "yields Q (read_inode_data s inode buffer offset len)"
  using assms by (auto simp: read_inode_data_def Let_def intro!: keeps)

lemma write_inode_data_keeps [keeps]:
  assumes "kept c s" "\<And>b t. kept c t \<Longrightarrow> Q (b, t)"
  shows "yields Q (write_inode_data s inode buffer offset len)"
  using assms by (auto simp: write_inode_data_def Let_def intro!: keeps)

lemma drop_block_keeps [keeps]:
  assumes "kept c s" "\<And>t. kept c t \<Longrightarrow> Q t"
  shows "yields Q (drop_block s block)"
  using assms by (auto simp: drop_block_def Let_def intro!: keeps)

lemma drop_direct_kept: "kept c s \<Longrightarrow> yields (\<lambda>t. kept c t) (drop_direct s i n)"
  by (induction n arbitrary: s i) (auto simp: Let_def intro!: keeps)

lemma drop_direct_keeps [keeps]:
  assumes "kept c s" "\<And>t. kept c t \<Longrightarrow> Q t"
  shows "yields Q (drop_direct s i n)"
  using drop_direct_kept [OF assms(1)] by (rule yields_mono) (auto intro: assms(2))

lemma drop_buf_kept: "kept c s \<Longrightarrow> yields (\<lambda>t. kept c t) (drop_buf s i n)"
  by (induction n arbitrary: s i) (auto simp: Let_def intro!: keeps)

lemma drop_buf_keeps [keeps]:
  assumes "kept c s" "\<And>t. kept c t \<Longrightarrow> Q t"
  shows "yields Q (drop_buf s i n)"
  using drop_buf_kept [OF assms(1)] by (rule yields_mono) (auto intro: assms(2))

lemma drop_leaves_kept: "kept c s \<Longrightarrow> yields (\<lambda>(b, t). kept c t) (drop_leaves s j n blocks)"
  by (induction n arbitrary: s j blocks) (auto simp: Let_def intro!: keeps)

lemma drop_leaves_keeps [keeps]:
  assumes "kept c s" "\<And>b t. kept c t \<Longrightarrow> Q (b, t)"
  shows "yields Q (drop_leaves s j n blocks)"
  using drop_leaves_kept [OF assms(1)] by (rule yields_mono) (auto intro: assms(2))

lemma drop_double_kept: "kept c s \<Longrightarrow> yields (\<lambda>(b, t). kept c t) (drop_double s i n blocks)"
  by (induction n arbitrary: s i blocks) (auto simp: Let_def intro!: keeps)

lemma drop_double_keeps [keeps]:
  assumes "kept c s" "\<And>b t. kept c t \<Longrightarrow> Q (b, t)"
  shows "yields Q (drop_double s i n blocks)"
  using drop_double_kept [OF assms(1)] by (rule yields_mono) (auto intro: assms(2))

lemma drop_square_kept: "kept c s \<Longrightarrow> yields (\<lambda>(b, t). kept c t) (drop_square s j n blocks)"
  by (induction n arbitrary: s j blocks) (auto simp: Let_def intro!: keeps)

lemma drop_square_keeps [keeps]:
  assumes "kept c s" "\<And>b t. kept c t \<Longrightarrow> Q (b, t)"
  shows "yields Q (drop_square s j n blocks)"
  using drop_square_kept [OF assms(1)] by (rule yields_mono) (auto intro: assms(2))

lemma drop_triple_kept: "kept c s \<Longrightarrow> yields (\<lambda>t. kept c t) (drop_triple s i n blocks)"
  by (induction n arbitrary: s i blocks) (auto simp: Let_def intro!: keeps)

lemma drop_triple_keeps [keeps]:
  assumes "kept c s" "\<And>t. kept c t \<Longrightarrow> Q t"
  shows "yields Q (drop_triple s i n blocks)"
  using drop_triple_kept [OF assms(1)] by (rule yields_mono) (auto intro: assms(2))

lemma erase_file_data_keeps [keeps]:
  assumes "kept c s" "\<And>t. kept c t \<Longrightarrow> Q t"
  shows "yields Q (erase_file_data s inode)"
  using assms by (auto simp: erase_file_data_def Let_def intro!: keeps)

lemma fill_direct_kept: "kept c s \<Longrightarrow> yields (\<lambda>(stop, used, addr, cnt, t). kept c t) (fill_direct s inode used to_use addr cnt n)"
  by (induction n arbitrary: s used addr cnt) (auto simp: Let_def intro!: keeps)

lemma fill_direct_keeps [keeps]:
  assumes "kept c s" "\<And>stop used addr cnt t. kept c t \<Longrightarrow> Q (stop, used, addr, cnt, t)"
  shows "yields Q (fill_direct s inode used to_use addr cnt n)"
  using fill_direct_kept [OF assms(1)] by (rule yields_mono) (auto intro: assms(2))

lemma fill_table_kept: "kept c s \<Longrightarrow> yields (\<lambda>(stop, used, addr, cnt, t). kept c t) (fill_table s block sectors j used to_use addr cnt n)"
  by (induction n arbitrary: s j used addr cnt) (auto simp: Let_def intro!: keeps)

lemma fill_table_keeps [keeps]:
  assumes "kept c s" "\<And>stop used addr cnt t. kept c t \<Longrightarrow> Q (stop, used, addr, cnt, t)"
  shows "yields Q (fill_table s block sectors j used to_use addr cnt n)"
  using fill_table_kept [OF assms(1)] by (rule yields_mono) (auto intro: assms(2))

lemma fill_double_kept: "kept c s \<Longrightarrow> yields (\<lambda>(stop, used, addr, cnt, t). kept c t) (fill_double s i used to_use addr cnt n)"
  by (induction n arbitrary: s i used addr cnt) (auto simp: Let_def intro!: keeps)

lemma fill_double_keeps [keeps]:
  assumes "kept c s" "\<And>stop used addr cnt t. kept c t \<Longrightarrow> Q (stop, used, addr, cnt, t)"
  shows "yields Q (fill_double s i used to_use addr cnt n)"
  using fill_double_kept [OF assms(1)] by (rule yields_mono) (auto intro: assms(2))

lemma fill_square_kept: "kept c s \<Longrightarrow> yields (\<lambda>(stop, used, addr, cnt, t). kept c t) (fill_square s b j used to_use addr cnt n)"
  by (induction n arbitrary: s j used addr cnt) (auto simp: Let_def intro!: keeps)

lemma fill_square_keeps [keeps]:
  assumes "kept c s" "\<And>stop used addr cnt t. kept c t \<Longrightarrow> Q (stop, used, addr, cnt, t)"
  shows "yields Q (fill_square s b j used to_use addr cnt n)"
  using fill_square_kept [OF assms(1)] by (rule yields_mono) (auto intro: assms(2))

lemma fill_triple_kept: "kept c s \<Longrightarrow> yields (\<lambda>(cnt, t). kept c t) (fill_triple s i used to_use addr cnt n)"
  by (induction n arbitrary: s i used addr cnt) (auto simp: Let_def intro!: keeps)

lemma fill_triple_keeps [keeps]:
  assumes "kept c s" "\<And>cnt t. kept c t \<Longrightarrow> Q (cnt, t)"
  shows "yields Q (fill_triple s i used to_use addr cnt n)"
  using fill_triple_kept [OF assms(1)] by (rule yields_mono) (auto intro: assms(2))

lemma prepare_triple_keeps [keeps]:
  assumes "kept c s" "\<And>cnt t. kept c t \<Longrightarrow> Q (cnt, t)"
  shows "yields Q (prepare_triple s inode used to_use addr cnt)"
  using assms by (auto simp: prepare_triple_def Let_def intro!: keeps)

lemma prepare_double_keeps [keeps]:
  assumes "kept c s" "\<And>cnt t. kept c t \<Longrightarrow> Q (cnt, t)"
  shows "yields Q (prepare_double s inode used to_use addr cnt)"
  using assms by (auto simp: prepare_double_def Let_def intro!: keeps)

lemma prepare_blocks_keeps [keeps]:
  assumes "kept c s" "\<And>cnt t. kept c t \<Longrightarrow> Q (cnt, t)"
  shows "yields Q (prepare_blocks s inode used to_use)"
  using assms by (auto simp: prepare_blocks_def Let_def intro!: keeps)

subsection \<open>Directories\<close>

lemma find_path_kept: "kept c s \<Longrightarrow> yields (\<lambda>(i, t). kept c t) (find_path s words inode)"
  by (induction words arbitrary: s inode) (auto simp: Let_def intro!: keeps split: option.split)

lemma find_path_keeps [keeps]:
  assumes "kept c s" "\<And>i t. kept c t \<Longrightarrow> Q (i, t)"
  shows "yields Q (find_path s words inode)"
  using find_path_kept [OF assms(1)] by (rule yields_mono) (auto intro: assms(2))

lemma find_inode_keeps [keeps]:
  assumes "kept c s" "\<And>i t. kept c t \<Longrightarrow> Q (i, t)"
  shows "yields Q (find_inode s str_path root)"
  using assms by (auto simp: find_inode_def Let_def intro!: keeps)

lemma set_dir_entry_keeps [simp]: "kept c (snd (set_dir_entry s e inode ft name sz)) \<longleftrightarrow> kept c s"
  by (simp add: set_dir_entry_def Let_def)

lemma set_dir_entry_result: "set_dir_entry s e inode ft name sz = (a, t) \<Longrightarrow> kept c t \<longleftrightarrow> kept c s"
  using set_dir_entry_keeps [of c s e inode ft name sz] by simp

lemma shrink_entries_kept: "kept c s \<Longrightarrow> yields (\<lambda>(r, t). kept c t) (shrink_entries s e ref n)"
  by (induction n arbitrary: s e ref) (auto simp: Let_def intro!: keeps)

lemma shrink_entries_keeps [keeps]:
  assumes "kept c s" "\<And>r t. kept c t \<Longrightarrow> Q (r, t)"
  shows "yields Q (shrink_entries s e ref n)"
  using shrink_entries_kept [OF assms(1)] by (rule yields_mono) (auto intro: assms(2))

text \<open>Rules that follow the structure of a definition without simplifying its conditions.\<close>

lemma yields_cases:
  "(b \<Longrightarrow> yields Q x) \<Longrightarrow> (\<not> b \<Longrightarrow> yields Q y) \<Longrightarrow> yields Q (if b then x else y)"
  "yields (\<lambda>a. yields Q (f a)) r \<Longrightarrow> yields Q (bindE r f)"
  "(\<And>a d. p = (a, d) \<Longrightarrow> yields Q (g a d)) \<Longrightarrow> yields Q (case p of (a, d) \<Rightarrow> g a d)"
  "(o' = None \<Longrightarrow> yields Q x) \<Longrightarrow> (\<And>v. o' = Some v \<Longrightarrow> yields Q (h v)) \<Longrightarrow>
     yields Q (case o' of None \<Rightarrow> x | Some v \<Rightarrow> h v)"
  "Q v \<Longrightarrow> yields Q (Inr v)"
  by (simp_all split: prod.split option.split)

lemma add_file_keeps [keeps]:
  assumes "kept c s" "\<And>r t. kept c t \<Longrightarrow> Q (r, t)"
  shows "yields Q (add_file s dir inode ft name)"
  unfolding add_file_def Let_def
  by (intro yields_cases keeps assms; (rule assms)?; simp)


lemma clear_direct_keeps [simp]: "kept c (clear_direct s i n) \<longleftrightarrow> kept c s"
  by (induction n arbitrary: s i) simp_all

lemma create_file_keeps [keeps]:
  assumes "kept c s" "\<And>i t. kept c t \<Longrightarrow> Q (i, t)"
  shows "yields Q (create_file s father name kind ft)"
  using assms by (auto simp: create_file_def Let_def intro!: keeps dest!: set_dir_entry_result [where c = c] split: prod.split)

subsection \<open>The table of open files\<close>

lemma print_keeps [keeps]:
  fixes s :: "'z filesystem_scheme"
  assumes "kept c s" "\<And>t. kept c t \<Longrightarrow> Q t"
  shows "yields Q (print s fmt args)"
  using assms by (auto simp: print_def intro!: keeps)

lemma clear_entries_keeps [simp]:
  fixes s :: "'z filesystem_scheme"
  shows "kept c (clear_entries s table j n) \<longleftrightarrow> kept c s"
  by (induction n arbitrary: s j) simp_all

lemma set_fd_pos_keeps [simp]: "kept c (set_fd_pos s f p) \<longleftrightarrow> kept c s"
  by (simp add: set_fd_pos_def)

lemma move_entry_keeps [simp]: "kept c (move_entry s tmp i j n) \<longleftrightarrow> kept c s"
  by (induction n arbitrary: j) (simp_all add: Let_def)

lemma shrink_table_keeps [simp]: "kept c (shrink_table s tmp i n) \<longleftrightarrow> kept c s"
  by (induction n arbitrary: s i) (simp_all add: Let_def)

lemma lseek_keeps [keeps]:
  assumes "kept c s" "\<And>p t. kept c t \<Longrightarrow> Q (p, t)"
  shows "yields Q (lseek s f offset seek)"
  using assms by (auto simp: lseek_def Let_def intro!: keeps)

lemma fstat_keeps [keeps]:
  assumes "kept c s" "\<And>t. kept c t \<Longrightarrow> Q t"
  shows "yields Q (fstat s f st)"
  using assms by (auto simp: fstat_def Let_def intro!: keeps)

subsection \<open>Going to the process and back\<close>

lemma kept_user_enter [keeps]:
  assumes "kept c s" "\<And>t. kept c t \<Longrightarrow> Q t"
  shows "yields Q (user_enter s)"
proof (cases "user_enter s")
  case (Inr t)
  then show ?thesis using assms user_enter_keeps [OF Inr] kept_cong [of t s c] by simp
qed simp

lemma kept_user_leave [keeps]:
  assumes "kept c s" "\<And>t. kept c t \<Longrightarrow> Q t"
  shows "yields Q (user_leave s)"
proof (cases "user_leave s")
  case (Inr t)
  then have "kept c t"
    using assms(1) user_leave_keeps [OF _ Inr] user_leave_curr [OF Inr] user_leave_state [OF Inr]
    by (auto simp: kept_def table_ok_def)
  then show ?thesis using assms(2) Inr by simp
qed simp

lemma set_eax_keeps [keeps]:
  fixes s :: "'z filesystem_scheme"
  assumes "kept c s" "\<And>t. kept c t \<Longrightarrow> Q t"
  shows "yields Q (set_eax s v)"
  using assms by (auto simp: set_eax_def intro!: keeps)


lemma yields_known: "yields P r \<Longrightarrow> (\<And>a. r = Inr a \<Longrightarrow> P a \<Longrightarrow> Q a) \<Longrightarrow> yields Q r"
  by (cases r) simp_all

lemma syscall_write_loop_kept:
  "kept c s \<Longrightarrow> yields (\<lambda>(p, w, t). kept c t) (syscall_write_loop s inode p buffer offset len written)"
proof (induction s inode p buffer offset len written rule: syscall_write_loop.induct)
  case (1 s inode p buffer offset len written)
  show ?case
  proof (cases "written = len")
    case False
    show ?thesis
    proof (subst syscall_write_loop.simps, simp only: False not_False_eq_True if_True yields_simps,
        rule yields_known [where P = "kept c"])
      show "yields (kept c) (user_enter s)" using "1.prems" by (auto intro!: keeps)
      fix s1 assume s1: "user_enter s = Inr s1" "kept c s1"
      let ?m = "mem_copy (mem s1) (sys_buf s1) (buffer + offset) (max_c (len - written) 2048)"
      show "yields (\<lambda>t. yields (\<lambda>a. yields (\<lambda>(p, w, t). kept c t) (case a of (cnt, s) \<Rightarrow>
          if cnt = 0 then Inr (p, written, s)
          else syscall_write_loop s inode (p + cnt) buffer (offset + cnt) len (written + cnt)))
          (write_inode_data t inode (sys_buf t) p (len - written))) (user_leave (set_mem s1 ?m))"
      proof (rule yields_known [where P = "kept c"])
        show "yields (kept c) (user_leave (set_mem s1 ?m))" using s1 by (auto intro!: keeps)
        fix s2 assume s2: "user_leave (set_mem s1 ?m) = Inr s2" "kept c s2"
        have known: "yields (\<lambda>(n, t). kept c t) (write_inode_data s2 inode (sys_buf s2) p (len - written))"
          using s2 by (auto intro!: keeps)
        show "yields (\<lambda>a. yields (\<lambda>(p, w, t). kept c t) (case a of (cnt, s) \<Rightarrow>
            if cnt = 0 then Inr (p, written, s)
            else syscall_write_loop s inode (p + cnt) buffer (offset + cnt) len (written + cnt)))
            (write_inode_data s2 inode (sys_buf s2) p (len - written))"
          by (rule yields_known [OF known]) (use "1.IH" [OF False s1(1) s2(1)] in auto)
      qed
    qed
  qed (use "1.prems" in \<open>simp add: syscall_write_loop.simps\<close>)
qed

lemma syscall_write_loop_keeps [keeps]:
  assumes "kept c s" "\<And>p w t. kept c t \<Longrightarrow> Q (p, w, t)"
  shows "yields Q (syscall_write_loop s inode p buffer offset len written)"
  using syscall_write_loop_kept [OF assms(1)] by (rule yields_mono) (auto intro: assms(2))


subsection \<open>System calls\<close>

lemma syscall_read_keeps [keeps]:
  assumes "kept c s" "\<And>t. kept c t \<Longrightarrow> Q t"
  shows "yields Q (syscall_read s)"
  using assms by (auto simp: syscall_read_def Let_def intro!: keeps)

lemma syscall_write_keeps [keeps]:
  assumes "kept c s" "\<And>t. kept c t \<Longrightarrow> Q t"
  shows "yields Q (syscall_write s)"
  using assms by (auto simp: syscall_write_def Let_def intro!: keeps)

lemma syscall_lseek_keeps [keeps]:
  assumes "kept c s" "\<And>t. kept c t \<Longrightarrow> Q t"
  shows "yields Q (syscall_lseek s)"
  using assms by (auto simp: syscall_lseek_def Let_def intro!: keeps)

lemma syscall_fstat_keeps [keeps]:
  assumes "kept c s" "\<And>t. kept c t \<Longrightarrow> Q t"
  shows "yields Q (syscall_fstat s)"
  using assms by (auto simp: syscall_fstat_def Let_def intro!: keeps)

locale file_frame = kernel_frame A for A :: "'z filesystem_scheme allocator"
begin

lemma allocator_alloc_keeps [keeps]:
  assumes "kept c s" "\<And>p t. kept c t \<Longrightarrow> Q (p, t)"
  shows "yields Q (alloc_aligned A s sz al)"
proof (cases "alloc_aligned A s sz al")
  case (Inr r)
  obtain p and t :: "'z filesystem_scheme" where r: "r = (p, t)" by (cases r)
  then have "kept c t" using assms(1) alloc_fields(2,3,1) [OF Inr [unfolded r]] kept_cong [of t s c] by simp
  then show ?thesis using assms(2) Inr r by simp
qed simp

lemma allocator_release_keeps [keeps]:
  assumes "kept c s" "\<And>t. kept c t \<Longrightarrow> Q t"
  shows "yields Q (release A s p)"
proof (cases "release A s p")
  case (Inr t)
  then have "kept c t" using assms(1) release_fields(2,3,1) [OF Inr] kept_cong [of t s c] by simp
  then show ?thesis using assms(2) Inr by simp
qed simp


lemma expand_table_keeps [keeps]:
  assumes "kept c s" "\<And>t. kept c t \<Longrightarrow> Q t"
  shows "yields Q (expand_table A s)"
  using assms by (auto simp: expand_table_def Let_def intro!: keeps)

lemma openfile_keeps [keeps]:
  assumes "kept c s" "\<And>f t. kept c t \<Longrightarrow> Q (f, t)"
  shows "yields Q (openfile A s str_path oflag fperm)"
  unfolding openfile_def Let_def
  by (intro yields_cases keeps assms; (rule assms)?; simp)

lemma close_c_keeps [keeps]:
  assumes "kept c s" "\<And>t. kept c t \<Longrightarrow> Q t"
  shows "yields Q (close_c A s f)"
  using assms by (auto simp: close_c_def Let_def intro!: keeps)

lemma syscall_open_keeps [keeps]:
  assumes "kept c s" "\<And>t. kept c t \<Longrightarrow> Q t"
  shows "yields Q (syscall_open A s)"
  using assms by (auto simp: syscall_open_def Let_def intro!: keeps)

lemma syscall_close_keeps [keeps]:
  assumes "kept c s" "\<And>t. kept c t \<Longrightarrow> Q t"
  shows "yields Q (syscall_close A s)"
  using assms by (auto simp: syscall_close_def Let_def intro!: keeps)

lemma run_file_call_keeps:
  "kept c s \<Longrightarrow> yields (kept c) (run_file_call A r s)"
  by (cases r) (auto simp: run_file_call_def intro!: keeps)

lemma kernel_environment_keeps:
  assumes "\<forall>irq \<in> set irqs. \<forall>s s'. table_ok s \<and> irq s = Inr s' \<longrightarrow> table_ok s' \<and> curr_pid s' = curr_pid s"
  shows "env_keeps (kernel_environment A irqs)"
proof -
  have "table_ok s' \<and> curr_pid s' = curr_pid s" if "table_ok s" "run_file_call A r s = Inr s'" for r s s'
    using yieldsD [OF run_file_call_keeps [of "curr_pid s" s r] that(2)] that(1) by (simp add: kept_def)
  then show ?thesis using assms unfolding env_keeps_def kernel_environment_def environment.select_convs by blast
qed

end

interpretation file_calls: file_frame "malloc_allocator (pager_at n) :: 'z filesystem_scheme allocator" for n
  by (rule file_frame.intro) (rule kernel_calls.kernel_frame_axioms)


subsection \<open>The kernel with its file system\<close>


definition files_demo :: filesystem where
  "files_demo = (boot_filesystem \<lparr>disk_id = 0, disk = (\<lambda>_. 0), poll_status = (\<lambda>_. [8]), flush_status = (\<lambda>_. [0])\<rparr>)
     \<lparr>processes := processes preempt_demo, runqueues := runqueues preempt_demo, curr_pid := 2\<rparr>"

lemma files_demo_fields:
  "\<not> in_kernel files_demo" "curr_pid files_demo = 2" "processes files_demo = processes preempt_demo"
  "runqueues files_demo = runqueues preempt_demo"
  by (simp_all add: files_demo_def boot_filesystem_def)



end
