(* ===== verification/Interrupts.thy ===== *)
theory Interrupts
  imports Keyboard
begin

text \<open>
  \<^verbatim>\<open>isr.c\<close> and the dispatch of \<^verbatim>\<open>irq.c\<close>: what the assembly stubs call with the registers they have
  pushed.  \<open>regs\<close> is the address of that structure on the kernel's stack.
\<close>

subsection \<open>Exceptions\<close>

definition exception_messages :: "string list" where
  "exception_messages =
    [''Division By Zero'', ''Debug'', ''Non Maskable Interrupt'', ''Breakpoint'',
     ''Into Detected Overflow'', ''Out of Bounds'', ''Invalid Opcode'', ''No Coprocessor'',
     ''Double Fault'', ''Coprocessor Segment Overrun'', ''Bad TSS'', ''Segment Not Present'',
     ''Stack Fault'', ''General Protection Fault'', ''Page Fault'', ''Unknown Interrupt'',
     ''Coprocessor Fault'', ''Alignment Check'', ''Machine Check'', ''Reserved(19)'',
     ''Reserved(20)'', ''Reserved(21)'', ''Reserved(22)'', ''Reserved(23)'',
     ''Reserved(24)'', ''Reserved(25)'', ''Reserved(26)'', ''Reserved(27)'',
     ''Reserved(28)'', ''Reserved(29)'', ''Reserved(30)'', ''Reserved(31)'']"

definition isr_install_handler :: "'z paged_scheme \<Rightarrow> nat \<Rightarrow> string \<Rightarrow> 'z paged_scheme result" where
  "isr_install_handler s isr handler =
     (if isr < 32 then Inr (s\<lparr>isr_routines := (isr_routines s)(isr := Some handler)\<rparr>) else Inl OutOfBounds)"

definition isr_uninstall_handler :: "'z paged_scheme \<Rightarrow> nat \<Rightarrow> 'z paged_scheme result" where
  "isr_uninstall_handler s isr =
     (if isr < 32 then Inr (s\<lparr>isr_routines := (isr_routines s)(isr := None)\<rparr>) else Inl OutOfBounds)"

definition illegal_opcode_handler :: "'z kernel_scheme \<Rightarrow> u32 \<Rightarrow> 'z kernel_scheme result" where
  "illegal_opcode_handler s regs =
     bindE (print s (ascii ''Illegal Opcode Exception. EIP at %x'') [Word_Arg (get_reg s regs Eip)])
       (\<lambda>_. Inl (Throw ''Exception. System Halted''))"

definition double_fault_handler :: "'z kernel_scheme \<Rightarrow> u32 \<Rightarrow> 'z kernel_scheme result" where
  "double_fault_handler s regs =
     bindE (print s (ascii ''Double fault! EIP at %x, ESP at %x, USERESP at %x\<newline>'')
         [Word_Arg (get_reg s regs Eip), Word_Arg (get_reg s regs Esp), Word_Arg (get_reg s regs Useresp)])
       (\<lambda>_. Inl (Throw ''System halted''))"

definition gpf_handler :: "'z kernel_scheme \<Rightarrow> u32 \<Rightarrow> 'z kernel_scheme result" where
  "gpf_handler s regs =
     bindE (print s (ascii ''General Protection Fault!\<newline>'') []) (\<lambda>s.
     bindE (print s (ascii ''Useresp: %x, ss: %x, eip:%x, errcode: %x\<newline>'')
         [Word_Arg (get_reg s regs Useresp), Word_Arg (get_reg s regs Ss), Word_Arg (get_reg s regs Eip),
          Word_Arg (get_reg s regs Err_code)])
       (\<lambda>_. Inl (Throw ''System halted'')))"

text \<open>The function behind a pointer of \<^verbatim>\<open>isr_routines\<close>.\<close>

definition isr_routine :: "string \<Rightarrow> 'z kernel_scheme \<Rightarrow> u32 \<Rightarrow> 'z kernel_scheme result" where
  "isr_routine name s regs =
     (if name = ''illegal_opcode_handler'' then illegal_opcode_handler s regs
      else if name = ''double_fault_handler'' then double_fault_handler s regs
      else if name = ''gpf_handler'' then gpf_handler s regs
      else if name = ''page_fault_handler'' then page_fault_handler s
      else Inl NullCall)"

definition fault_handler :: "'z kernel_scheme \<Rightarrow> u32 \<Rightarrow> 'z kernel_scheme result" where
  "fault_handler s regs =
     (let int_no = get_reg s regs Int_no
      in if int_no < 32 then
           case isr_routines s (unat int_no) of
             Some handler \<Rightarrow> isr_routine handler s regs
           | None \<Rightarrow> bindE (write_string (scr s) (ascii (exception_messages ! unat int_no)))
               (\<lambda>_. Inl (Throw ''Exception. System Halted''))
         else Inr s)"

subsection \<open>Hardware interrupts\<close>

text \<open>
  The handlers that can be in the table; \<open>key\<close> are the scancode and the controller's states for
  the keyboard's handlers.
\<close>

definition irq_run ::
  "(handler \<Rightarrow> bytes list \<Rightarrow> 'z kernel_scheme \<Rightarrow> 'z kernel_scheme result) \<Rightarrow> 'z kernel_scheme allocator \<Rightarrow> nat
     \<Rightarrow> u8 list \<Rightarrow> u8 \<Rightarrow> irq_routine \<Rightarrow> 'z kernel_scheme \<Rightarrow> u32 \<Rightarrow> 'z kernel_scheme result"
where
  "irq_run H A fuel status scancode r s regs =
     (case r of Timer_handler \<Rightarrow> timer_handler s regs
      | Timer_handler_dummy \<Rightarrow> Inr (s\<lparr>desc := timer_handler_dummy (desc s)\<rparr>)
      | Keyboard_handler \<Rightarrow> keyboard_handler status scancode s
      | Keyboard_shell_handler \<Rightarrow> keyboard_shell_handler H A fuel status scancode s)"

text \<open>
  The interrupt number is read again after the handler, which may have replaced the registers
  by those of another process.
\<close>

definition irq_handler ::
  "(handler \<Rightarrow> bytes list \<Rightarrow> 'z kernel_scheme \<Rightarrow> 'z kernel_scheme result) \<Rightarrow> 'z kernel_scheme allocator \<Rightarrow> nat
     \<Rightarrow> u8 list \<Rightarrow> u8 \<Rightarrow> 'z kernel_scheme \<Rightarrow> u32 \<Rightarrow> 'z kernel_scheme result"
where
  "irq_handler H A fuel status scancode s regs =
     (let irq = unat (get_reg s regs Int_no - 32)
      in if irq \<ge> length (irq_routines (desc s)) then Inl OutOfBounds
         else bindE (case irq_routines (desc s) ! irq of
                       None \<Rightarrow> Inr s | Some r \<Rightarrow> irq_run H A fuel status scancode r s regs)
           (\<lambda>s. Inr (s\<lparr>desc := irq_acknowledge (desc s) (get_reg s regs Int_no)\<rparr>)))"

end
