(* ===== verification/Shell_Files.thy ===== *)
theory Shell_Files
  imports Loader Interrupts File_Calls
begin

text \<open>
  The commands of \<^verbatim>\<open>shell.c\<close> that work on the file system.  The words of a command line and the
  path of the current directory are lists of bytes, so that their allocation and release is left
  out; words are not empty.
\<close>

subsection \<open>Listing\<close>

definition in_root :: "bytes \<Rightarrow> bool" where "in_root p = (p \<noteq> [] \<and> hd p = 47)"

fun ls_args :: "bytes list \<Rightarrow> 'z filesystem_scheme \<Rightarrow> 'z filesystem_scheme result" where
  "ls_args [] s = Inr s"
| "ls_args (w # args) s =
     bindE (print s (ascii ''%s:\<newline>'') [Str_Arg w]) (\<lambda>s.
     bindE (find_inode s w (if in_root w then 2 else curr_dir (sh s))) (\<lambda>(inode, s).
     bindE (ls_dir s inode) (ls_args args)))"

definition ls_handler :: "bytes list \<Rightarrow> 'z filesystem_scheme \<Rightarrow> 'z filesystem_scheme result" where
  "ls_handler args s = (if args \<noteq> [] then ls_args args s else ls_dir s (curr_dir (sh s)))"

subsection \<open>The current directory\<close>

definition set_path :: "'z kernel_scheme \<Rightarrow> bytes \<Rightarrow> 'z kernel_scheme" where
  "set_path s p = s\<lparr>sh := (sh s)\<lparr>path := p\<rparr>\<rparr>"

definition set_curr_dir :: "'z kernel_scheme \<Rightarrow> u32 \<Rightarrow> 'z kernel_scheme" where
  "set_curr_dir s i = s\<lparr>sh := (sh s)\<lparr>curr_dir := i\<rparr>\<rparr>"

text \<open>The entry for an inode in the directory in \<^verbatim>\<open>std_buf\<close>, behind \<^verbatim>\<open>"."\<close> and \<^verbatim>\<open>".."\<close>.\<close>

fun entry_of :: "'z filesystem_scheme \<Rightarrow> u32 \<Rightarrow> u32 \<Rightarrow> nat \<Rightarrow> u32 result" where
  "entry_of s inode e 0 = Inl Hang"
| "entry_of s inode e (Suc n) =
     (if e < end_of_buf s \<and> e_inode s e \<noteq> inode then entry_of s inode (next_entry s e) n else Inr e)"

definition entry_name :: "'z machine_scheme \<Rightarrow> u32 \<Rightarrow> bytes" where
  "entry_name s e = map (\<lambda>i. mem s (e + 8 + of_nat i)) [0..<unat (e_name_length s e)]"

text \<open>The walk up to the root; \<open>fuel\<close> bounds the depth of the directory.\<close>

fun cwd_loop :: "nat \<Rightarrow> 'z filesystem_scheme \<Rightarrow> u32 \<Rightarrow> 'z filesystem_scheme result" where
  "cwd_loop 0 s inode = Inl Hang"
| "cwd_loop (Suc fuel) s inode =
     (if inode = 2 then Inr (set_path s (47 # path (sh s)))
      else let parent = e_inode s (std_buf s + 12)
      in bindE (read_inode_data s parent (std_buf s) 0 (block_size s)) (\<lambda>(_, s).
         bindE (entry_of s inode (std_buf s + 24) (entry_steps s)) (\<lambda>e.
           if e \<ge> end_of_buf s then
             bindE (print s (ascii ''Error accessing current directory\<newline>'') []) (\<lambda>s.
               Inr (set_curr_dir (set_path s [47]) 2))
           else cwd_loop fuel (set_path s (entry_name s e @ 47 # path (sh s))) parent)))"

definition get_cwd :: "nat \<Rightarrow> 'z filesystem_scheme \<Rightarrow> 'z filesystem_scheme result" where
  "get_cwd fuel s =
     (let inode = curr_dir (sh s)
      in if inode = 2 then Inr (set_path s [47])
         else bindE (read_inode_data s inode (std_buf s) 0 512) (\<lambda>(_, s).
           let parent = e_inode s (std_buf s + 12)
           in bindE (read_inode_data s parent (std_buf s) 0 (block_size s)) (\<lambda>(_, s).
              bindE (entry_of s inode (std_buf s + 24) (entry_steps s)) (\<lambda>e.
                if e \<ge> end_of_buf s then
                  bindE (print s (ascii ''Error while accessing current directory\<newline>'') []) (\<lambda>s.
                    Inr (set_curr_dir (set_path s [47]) 2))
                else cwd_loop fuel (set_path s (entry_name s e)) parent))))"

text \<open>A slash at the end of an argument of more than one character is cut off.\<close>

definition cut_slash :: "bytes \<Rightarrow> bytes" where
  "cut_slash p = (if length p > 1 \<and> last p = 47 then butlast p else p)"

definition cd_handler :: "nat \<Rightarrow> bytes list \<Rightarrow> 'z filesystem_scheme \<Rightarrow> 'z filesystem_scheme result" where
  "cd_handler fuel args s =
     (case args of
        [] \<Rightarrow> get_cwd fuel (set_curr_dir s 2)
      | w # rest \<Rightarrow>
          let new_path = cut_slash w
          in if rest \<noteq> [] then print s (ascii ''Too many arguments for %fcd%f\<newline>'') [Word_Arg LightRed, Word_Arg White]
             else bindE (if in_root new_path then find_dir s (tl new_path) 2
                         else find_dir s new_path (curr_dir (sh s))) (\<lambda>(inode, s).
               if inode = 0 then print s (ascii ''No such directory\<newline>'') []
               else get_cwd fuel (set_curr_dir s inode)))"

definition pwd_handler :: "nat \<Rightarrow> bytes list \<Rightarrow> 'z filesystem_scheme \<Rightarrow> 'z filesystem_scheme result" where
  "pwd_handler fuel args s =
     bindE (get_cwd fuel s) (\<lambda>s. print s (ascii ''%s\<newline>'') [Str_Arg (path (sh s))])"

subsection \<open>Creating and deleting\<close>

definition no_arguments :: "'z kernel_scheme \<Rightarrow> 'z kernel_scheme result" where
  "no_arguments s =
     print s (ascii ''%frun:%f'' @ [9] @ ascii ''No arguments given\<newline>'') [Word_Arg LightRed, Word_Arg White]"

fun mkdir_args :: "bytes list \<Rightarrow> 'z filesystem_scheme \<Rightarrow> 'z filesystem_scheme result" where
  "mkdir_args [] s = Inr s"
| "mkdir_args (w # args) s =
     bindE (create_dir s (curr_dir (sh s)) w) (\<lambda>(inode, s).
     bindE (if inode = 0 then print s (ascii ''Impossible to create directory %s\<newline>'') [Str_Arg w] else Inr s)
       (mkdir_args args))"

definition mkdir_handler :: "bytes list \<Rightarrow> 'z filesystem_scheme \<Rightarrow> 'z filesystem_scheme result" where
  "mkdir_handler args s = (if args = [] then no_arguments s else mkdir_args args s)"

text \<open>The directory of a file is what the first entry of \<^verbatim>\<open>std_buf\<close> says after the search.\<close>

definition rm_file :: "nat \<Rightarrow> bool \<Rightarrow> bytes \<Rightarrow> 'z filesystem_scheme \<Rightarrow> 'z filesystem_scheme result" where
  "rm_file fuel rec file_name s =
     bindE (find_inode s file_name (curr_dir (sh s))) (\<lambda>(inode, s).
     let dir = e_inode s (std_buf s)
     in if inode = 0 then print s (ascii ''File %s does not exist\<newline>'') [Str_Arg file_name]
        else bindE (set_inode s inode (std_inode s)) (\<lambda>s.
          if inode_type s (std_inode s) AND TYPE_DIR \<noteq> 0 then
            if rec then
              bindE (rm_dir fuel s inode) (\<lambda>(res, s).
                if res \<noteq> 0
                then print s (ascii ''An error was encountered while deleting %s directory\<newline>'') [Str_Arg file_name]
                else Inr s)
            else print s (ascii ''%s is not a file but a directory\<newline>'') [Str_Arg file_name]
          else bindE (delete_file s dir inode) (\<lambda>(res, s).
            if res \<noteq> 0 then print s (ascii ''An error was encountered while deleting %s\<newline>'') [Str_Arg file_name]
            else Inr s)))"

fun rm_args :: "nat \<Rightarrow> bool \<Rightarrow> bytes list \<Rightarrow> 'z filesystem_scheme \<Rightarrow> 'z filesystem_scheme result" where
  "rm_args fuel rec [] s = Inr s"
| "rm_args fuel rec (w # args) s =
     (if take 2 w = [45, 114] then rm_args fuel True args s
      else bindE (rm_file fuel rec w s) (rm_args fuel rec args))"

definition rm_handler :: "nat \<Rightarrow> bytes list \<Rightarrow> 'z filesystem_scheme \<Rightarrow> 'z filesystem_scheme result" where
  "rm_handler fuel args s = (if args = [] then no_arguments s else rm_args fuel False args s)"

subsection \<open>All commands\<close>

text \<open>The handlers of the commands that \<^verbatim>\<open>command_handler\<close> leaves open, and all commands together.\<close>

definition file_handler :: "nat \<Rightarrow> handler \<Rightarrow> bytes list \<Rightarrow> 'z filesystem_scheme \<Rightarrow> 'z filesystem_scheme result" where
  "file_handler fuel h args s =
     (case h of Ls \<Rightarrow> ls_handler args s | Cd \<Rightarrow> cd_handler fuel args s | Pwd \<Rightarrow> pwd_handler fuel args s
      | Mkdir \<Rightarrow> mkdir_handler args s | Rm \<Rightarrow> rm_handler fuel args s | _ \<Rightarrow> Inl NullCall)"

definition run_command ::
  "'z filesystem_scheme allocator \<Rightarrow> nat \<Rightarrow> handler \<Rightarrow> bytes list \<Rightarrow> 'z filesystem_scheme \<Rightarrow> 'z filesystem_scheme result"
where
  "run_command A fuel = command_handler A (load_code A) (file_handler fuel)"

end
