(* ===== verification/Boot.thy ===== *)
theory Boot
  imports Shell_Files
begin

text \<open>
  \<^verbatim>\<open>kmain.c\<close>: the components put together in the order of the boot.  What the boot loader and the
  linker decide is the record \<open>boot_info\<close>: the memory size, the stack, the addresses of the static
  tables and of the assembly stubs, the flags register.
\<close>

record boot_info =
  mem_upper :: u32
  stack_start :: u32
  gdt_at :: u32
  tss_at :: u32
  idt_at :: u32
  isr_stub :: "nat \<Rightarrow> u32"
  irq_stub :: "nat \<Rightarrow> u32"
  common_handler :: u32
  eflags_at_boot :: u32
  disk_ports :: identification

text \<open>The tables of the processor and the handlers that the kernel itself uses.\<close>

definition install_descriptors :: "boot_info \<Rightarrow> 'z kernel_scheme \<Rightarrow> 'z kernel_scheme result" where
  "install_descriptors b s =
     bindE (gdt_install (desc s) (gdt_at b) (tss_at b) (stack_start b)) (\<lambda>d.
     bindE (keyboard_install True (init_pic d)) (\<lambda>d.
     bindE (isr_install_handler (s\<lparr>desc := d\<rparr>) 6 ''illegal_opcode_handler'') (\<lambda>s.
     bindE (isr_install_handler s 8 ''double_fault_handler'') (\<lambda>s.
     bindE (isr_install_handler s 13 ''gpf_handler'') (\<lambda>s.
     let d = idt_install (desc s) (idt_at b); d = isrs_install d (isr_stub b); d = irq_install d (irq_stub b)
     in Inr (s\<lparr>desc := d\<rparr>))))))"

text \<open>\<open>P\<close> is the paging code that the allocator calls; the result is what the first process starts with.\<close>

definition kmain :: "'z filesystem_scheme pager \<Rightarrow> boot_info \<Rightarrow> 'z filesystem_scheme \<Rightarrow> (iret_frame \<times> 'z filesystem_scheme) result" where
  "kmain P b s =
     (let s = s\<lparr>UPPER_MEMORY := 1024 * mem_upper b, paging_enabled := False\<rparr>; A = malloc_allocator P
      in bindE (malloc_install P s) (\<lambda>s.
         bindE (paging_install P s) (\<lambda>s.
         bindE (install_descriptors b s) (\<lambda>s.
         bindE (filesystem_install A (disk_ports b) s) (\<lambda>s.
         bindE (fs_inter_install A s) (\<lambda>s.
         bindE (shell_install s) (\<lambda>s.
           scheduler_install A (load_code A) (syscall_install (common_handler b)) (eflags_at_boot b) s)))))))"

end
