(* ===== verification/Logging.thy ===== *)
theory Logging
  imports Printer
begin

text \<open>
  \<^verbatim>\<open>logging.c\<close> and \<^verbatim>\<open>format_to_string\<close> of \<^verbatim>\<open>string.c\<close>: formatted messages for the serial port.  The
  messages have no other effect (the character \<open>0\<close> that is written to slow the output down leaves
  the screen as it is), so that the other theories leave the calls of \<^verbatim>\<open>kloug\<close> out.
\<close>

subsection \<open>Formatting into a buffer\<close>

text \<open>The buffer is a list; a character that is put behind its end is \<open>OutOfBounds\<close>.\<close>

definition put_at :: "bytes \<Rightarrow> nat \<Rightarrow> u8 \<Rightarrow> bytes result" where
  "put_at buf i c = (if i < length buf then Inr (buf[i := c]) else Inl OutOfBounds)"

fun put_text :: "bytes \<Rightarrow> nat \<Rightarrow> bytes \<Rightarrow> bytes result" where
  "put_text buf i [] = Inr buf"
| "put_text buf i (c # cs) = bindE (put_at buf i c) (\<lambda>buf. put_text buf (i + 1) cs)"

text \<open>Text with its terminator, which the next character overwrites; the position moves behind the text.\<close>

definition put_string :: "bytes \<Rightarrow> nat \<Rightarrow> bytes \<Rightarrow> (nat \<times> bytes) result" where
  "put_string buf i cs = bindE (put_text buf i (cs @ [0])) (\<lambda>buf. Inr (i + length cs, buf))"

definition digits_of :: "u32 \<Rightarrow> u32 \<Rightarrow> bytes result" where
  "digits_of n base = bindE (u_int_to_string (replicate 34 0) n base) (\<lambda>(_, buf). Inr (text_of buf))"

definition format_conversion :: "bytes \<Rightarrow> nat \<Rightarrow> u8 \<Rightarrow> arg list \<Rightarrow> ((nat \<times> bytes) \<times> arg list) option result" where
  "format_conversion buf i c args =
     (let some = (\<lambda>r args. bindE r (\<lambda>p. Inr (Some (p, args))))
      in if c = 100 then
           bindE (pop_word args) (\<lambda>(w, args).
           bindE (int_to_string (replicate 34 0) w 10) (\<lambda>(_, b). some (put_string buf i (text_of b)) args))
         else if c = 117 then
           bindE (pop_word args) (\<lambda>(w, args). bindE (digits_of w 10) (\<lambda>b. some (put_string buf i b) args))
         else if c = 120 then
           bindE (put_text buf i [48, 120]) (\<lambda>buf.
           bindE (pop_word args) (\<lambda>(w, args). bindE (digits_of w 16) (\<lambda>b. some (put_string buf (i + 2) b) args)))
         else if c = 88 then
           bindE (put_text buf i [48, 120]) (\<lambda>buf.
           bindE (pop_word args) (\<lambda>(hex, args).
           bindE (pop_word args) (\<lambda>(min_length, args).
           bindE (digits_of hex 16) (\<lambda>b.
           let zeros = unat (max_c 0 (min_length - of_nat (length b)))
           in bindE (put_text buf (i + 2) (replicate zeros 48)) (\<lambda>buf. some (put_string buf (i + 2 + zeros) b) args)))))
         else if c = 104 then
           bindE (pop_word args) (\<lambda>(w, args). bindE (digits_of w 16) (\<lambda>b. some (put_string buf i b) args))
         else if c = 99 then
           bindE (pop_word args) (\<lambda>(w, args). some (bindE (put_at buf i (ucast w)) (\<lambda>buf. Inr (i + 1, buf))) args)
         else if c = 115 then
           bindE (pop_str args) (\<lambda>(b, args). some (put_string buf i b) args)
         else Inr None)"

text \<open>
  An unknown conversion ends the function with the value 22; the assignment to \<^verbatim>\<open>buf\<close> before that
  changes the parameter only.  A percent sign at the end of the format is one, too.
\<close>

fun format_loop :: "bytes \<Rightarrow> nat \<Rightarrow> bytes \<Rightarrow> arg list \<Rightarrow> (nat \<times> bytes) result" where
  "format_loop buf i [] args = bindE (put_at buf i 0) (\<lambda>buf. Inr (i + 1, buf))"
| "format_loop buf i [c] args =
     (if c = 37 then Inr (22, buf)
      else bindE (put_at buf i c) (\<lambda>buf. bindE (put_at buf (i + 1) 0) (\<lambda>buf. Inr (i + 2, buf))))"
| "format_loop buf i (c # d # cs) args =
     (if c = 37 then
        bindE (format_conversion buf i d args) (\<lambda>r.
          case r of None \<Rightarrow> Inr (22, buf) | Some ((i, buf), args) \<Rightarrow> format_loop buf i cs args)
      else bindE (put_at buf i c) (\<lambda>buf. format_loop buf (i + 1) (d # cs) args))"

definition format_to_string :: "bytes \<Rightarrow> bytes \<Rightarrow> arg list \<Rightarrow> (nat \<times> bytes) result" where
  "format_to_string buf s args = format_loop buf 0 s args"

subsection \<open>The serial port\<close>

record serial =
  configured :: bool
  serial_out :: "(u16 \<times> u8) list"

abbreviation (input) SERIAL_COM1_BASE :: u16 where "SERIAL_COM1_BASE \<equiv> 0x3F8"

definition serial_outb :: "serial \<Rightarrow> u16 \<Rightarrow> u8 \<Rightarrow> serial" where
  "serial_outb p port v = p\<lparr>serial_out := serial_out p @ [(port, v)]\<rparr>"

definition serial_configure_baud_rate :: "serial \<Rightarrow> u16 \<Rightarrow> u16 \<Rightarrow> serial" where
  "serial_configure_baud_rate p com divisor =
     (let p = serial_outb p (com + 3) 0x80;
          p = serial_outb p com (ucast (drop_bit 8 divisor AND 0x00FF))
      in serial_outb p com (ucast (divisor AND 0x00FF)))"

definition serial_configure_line :: "serial \<Rightarrow> u16 \<Rightarrow> serial" where
  "serial_configure_line p com = serial_outb p (com + 3) 0x03"

definition serial_configure_buffers :: "serial \<Rightarrow> u16 \<Rightarrow> serial" where
  "serial_configure_buffers p com = serial_outb p (com + 2) 0xE7"

definition serial_configure_modem :: "serial \<Rightarrow> u16 \<Rightarrow> serial" where
  "serial_configure_modem p com = serial_outb p (com + 4) 0x03"

definition log_string :: "serial \<Rightarrow> bytes \<Rightarrow> serial" where
  "log_string p text =
     (let p = (if configured p then p
               else (serial_configure_modem (serial_configure_buffers (serial_configure_line
                       (serial_configure_baud_rate p SERIAL_COM1_BASE 1) SERIAL_COM1_BASE) SERIAL_COM1_BASE)
                       SERIAL_COM1_BASE)\<lparr>configured := True\<rparr>)
      in foldl (\<lambda>p c. serial_outb p SERIAL_COM1_BASE c) p text)"

text \<open>The buffer has the size that the caller passes and what was on the stack as its contents.\<close>

definition kloug :: "bytes \<Rightarrow> serial \<Rightarrow> bytes \<Rightarrow> arg list \<Rightarrow> serial result" where
  "kloug buffer p s args =
     bindE (format_to_string buffer s args) (\<lambda>(_, buffer). Inr (log_string p (text_of buffer)))"

lemma write_char_0: "write_char s 0 = s"
  by (simp add: write_char_def get_cursor_pos_eq)

end
