(* ===== verification/Dumps.thy ===== *)
theory Dumps
  imports Logging Kernel
begin

text \<open>
  The functions that list the heap and a page directory on the serial port: \<^verbatim>\<open>log_block\<close> and
  \<^verbatim>\<open>log_memory\<close> of \<^verbatim>\<open>malloc.c\<close>, \<^verbatim>\<open>log_page_dir\<close> and \<^verbatim>\<open>test_page_dir\<close> of \<^verbatim>\<open>paging.c\<close>.  They read
  memory and write to the port; \<open>buf\<close> is what is on the stack where \<^verbatim>\<open>kloug\<close> has its buffer of 100 bytes.
\<close>

subsection \<open>The heap\<close>

definition log_block :: "bytes \<Rightarrow> memory \<Rightarrow> serial \<Rightarrow> u32 \<Rightarrow> serial result" where
  "log_block buf m p block =
     (if block = 0 then kloug buf p (ascii ''  Nonexistent block\<newline>'') []
      else if \<not> get_used m block then
        kloug buf p (ascii ''  Free block at %X, size %x, prev %X, next %X\<newline>'')
          [Word_Arg block, Word_Arg 8, Word_Arg (get_size m block), Word_Arg (get_prev m block), Word_Arg 8,
           Word_Arg (get_next m block), Word_Arg 8]
      else kloug buf p (ascii ''  Used block at %X, size %x\<newline>'')
          [Word_Arg block, Word_Arg 8, Word_Arg (get_size m block)])"

text \<open>The walk over the heap does not end when the size of a block is 0.\<close>

partial_function (option) log_blocks :: "bytes \<Rightarrow> 'z machine_scheme \<Rightarrow> serial \<Rightarrow> u32 \<Rightarrow> serial result option" where
  "log_blocks buf s p block =
     (if block = 0 then Some (Inr p)
      else case log_block buf (mem s) p block of Inl e \<Rightarrow> Some (Inl e)
        | Inr p \<Rightarrow> log_blocks buf s p (get_next_block s block))"

definition log_memory :: "bytes \<Rightarrow> 'z machine_scheme \<Rightarrow> serial \<Rightarrow> serial result" where
  "log_memory buf s p =
     bindE (START_OF_HEAP s) (\<lambda>start.
     bindE (kloug buf p (ascii ''  Malloc heap from %X to %X\<newline>'')
         [Word_Arg start, Word_Arg 8, Word_Arg (unallocated_mem s), Word_Arg 8]) (\<lambda>p.
     bindE (kloug buf p (ascii ''  First free block at %X\<newline>'') [Word_Arg (first_free_block s), Word_Arg 8]) (\<lambda>p.
     bindE (of_option Hang (log_blocks buf s p start)) (\<lambda>r. r))))"

subsection \<open>Page directories\<close>

fun log_tables :: "bytes \<Rightarrow> memory \<Rightarrow> u32 \<Rightarrow> serial \<Rightarrow> u32 \<Rightarrow> nat \<Rightarrow> serial result" where
  "log_tables buf m dir p table_index 0 = Inr p"
| "log_tables buf m dir p table_index (Suc n) =
     (let e = load32 m (dir_entry dir table_index)
      in bindE (if entry_present e
                then kloug buf p (ascii ''  Page table %X stored at %X (virtual %X)\<newline>'')
                  [Word_Arg table_index, Word_Arg 3, Word_Arg (entry_address e * 0x1000), Word_Arg 8,
                   Word_Arg (load32 m (dir_table dir table_index)), Word_Arg 8]
                else Inr p) (\<lambda>p.
           log_tables buf m dir p (table_index + 1) n))"

definition FLUSH_MAPPED :: "bytes \<Rightarrow> memory \<Rightarrow> u32 \<Rightarrow> serial \<Rightarrow> u32 \<Rightarrow> u32 \<Rightarrow> u32 \<Rightarrow> serial result" where
  "FLUSH_MAPPED buf m dir p start_virtual start_physical virtual_page =
     (let page = load32 m (load32 m (dir_table dir (start_virtual div (0x1000 * 1024))) + 4 * ((start_virtual div 0x1000) mod 1024))
      in kloug buf p (ascii ''  %X-%X mapped to %X-%X (user %u rw %u)\<newline>'')
           [Word_Arg start_virtual, Word_Arg 8, Word_Arg (virtual_page * 0x1000 - 1), Word_Arg 8,
            Word_Arg start_physical, Word_Arg 8,
            Word_Arg (start_physical + virtual_page * 0x1000 - start_virtual - 1), Word_Arg 8,
            Word_Arg (of_bool (bit page 2)), Word_Arg (of_bool (bit page 1))])"

definition FLUSH_UNMAPPED :: "bytes \<Rightarrow> serial \<Rightarrow> u32 \<Rightarrow> u32 \<Rightarrow> serial result" where
  "FLUSH_UNMAPPED buf p start_virtual virtual_page =
     kloug buf p (ascii ''  %X-%X mapped to NULL\<newline>'')
       [Word_Arg start_virtual, Word_Arg 8, Word_Arg (virtual_page * 0x1000 - 1), Word_Arg 8]"

text \<open>
  The loop over the pages keeps whether the current range is mapped and where it starts; \<open>n\<close> pages
  are left.
\<close>

fun log_ranges ::
  "bytes \<Rightarrow> memory \<Rightarrow> u32 \<Rightarrow> serial \<Rightarrow> bool \<Rightarrow> u32 \<Rightarrow> u32 \<Rightarrow> u32 \<Rightarrow> nat \<Rightarrow> (bool \<times> u32 \<times> u32 \<times> serial) result"
where
  "log_ranges buf m dir p mapped start_virtual start_physical virtual_page 0 =
     Inr (mapped, start_virtual, start_physical, p)"
| "log_ranges buf m dir p mapped start_virtual start_physical virtual_page (Suc n) =
     (let v = virtual_page * 0x1000; physical = get_physical_address m dir v
      in if mapped then
           if physical = 0 then
             bindE (FLUSH_MAPPED buf m dir p start_virtual start_physical virtual_page) (\<lambda>p.
               log_ranges buf m dir p False v start_physical (virtual_page + 1) n)
           else if physical \<noteq> start_physical + v - start_virtual then
             bindE (FLUSH_MAPPED buf m dir p start_virtual start_physical virtual_page) (\<lambda>p.
               log_ranges buf m dir p True v physical (virtual_page + 1) n)
           else log_ranges buf m dir p True start_virtual start_physical (virtual_page + 1) n
         else if physical \<noteq> 0 then
           bindE (FLUSH_UNMAPPED buf p start_virtual virtual_page) (\<lambda>p.
             log_ranges buf m dir p True v physical (virtual_page + 1) n)
         else log_ranges buf m dir p False start_virtual start_physical (virtual_page + 1) n)"

definition log_page_dir :: "bytes \<Rightarrow> memory \<Rightarrow> u32 \<Rightarrow> serial \<Rightarrow> serial result" where
  "log_page_dir buf m dir p =
     bindE (kloug buf p (ascii ''  Logging page dir stored at %X (virtual %X)\<newline>'')
         [Word_Arg (load32 m (dir_physical dir)), Word_Arg 8, Word_Arg dir, Word_Arg 8]) (\<lambda>p.
     bindE (log_tables buf m dir p 0 1024) (\<lambda>p.
     let mapped = entry_present (load32 m (dir_entry dir 0)) \<and> entry_present (load32 m (load32 m (dir_table dir 0)))
     in bindE (log_ranges buf m dir p mapped 0 (get_physical_address m dir 0) 1 (1024 * 1024 - 1))
          (\<lambda>(mapped, start_virtual, start_physical, p).
            if mapped then FLUSH_MAPPED buf m dir p start_virtual start_physical (1024 * 1024)
            else FLUSH_UNMAPPED buf p start_virtual (1024 * 1024))))"

definition test_page_dir :: "bytes \<Rightarrow> 'z paged_scheme \<Rightarrow> serial \<Rightarrow> u32 \<Rightarrow> (serial \<times> 'z paged_scheme) result" where
  "test_page_dir buf s p dir =
     bindE (log_page_dir buf (mem s) (current_directory s) p) (\<lambda>p.
     bindE (log_page_dir buf (mem s) dir p) (\<lambda>p.
     let temp = current_directory s; s = switch_page_directory s dir
     in bindE (kloug buf p (ascii ''Everything's fine\<newline>'') []) (\<lambda>p.
          Inr (p, switch_page_directory s temp))))"

end
