(* ===== verification/Spec2Isabelle.thy ===== *)
theory Spec2Isabelle
  imports Malloc_Props Paging_Props Printer_Props Descriptors_Props Shell_Props Syscall_Props Keyboard_Props
    Allocation_Props Directory_Props File_Props Klist_Props Loader_Props File_Frame Boot Logging Dumps
begin

text \<open>
  MariobrOS is a small 32-bit kernel for x86 processors, written in C (\<^verbatim>\<open>src/src\<close>): memory management
  with paging, preemptive processes with priorities, system calls, an ext2 file system on an ATA disk,
  a keyboard, a text screen and a shell.  This development is a shallow embedding of its C code with
  the theorems that show what the code does, and where it does not do what it means to.

  \<^bold>\<open>State.\<close>  Memory is a function from 32-bit addresses to bytes.  The globals of the kernel are
  records that extend each other in the order of the components: \<open>machine\<close> (\<open>Machine\<close>: memory as the
  kernel and every user directory see it, the pointers of \<^verbatim>\<open>malloc.c\<close>), \<open>paged\<close> (\<open>Paging\<close>: the frames and
  the bounds of the address space), \<open>kernel\<close> (\<open>Kernel\<close>: process table, run queues, screen, shell,
  keyboard, descriptor tables) and \<open>filesystem\<close> (\<open>Filesystem\<close>: super block, buffers, the disk, the table
  of open files).  An operation is polymorphic in the extension, and returns \<open>error + value\<close>: \<^verbatim>\<open>throw\<close>,
  divisions by zero, accesses outside an array, calls of null pointers and loops that do not end
  (\<open>Hang\<close>) are values of \<open>error\<close>.  Structures that the code reaches through pointers are read and written
  in memory, field by field at their offsets, so that aliasing is part of the model.

  \<^bold>\<open>Components and theories\<close>, from the bottom up:
  \<^item> \<open>Prelude\<close>, \<open>Kmath\<close>, \<open>Kmemory\<close>, \<open>Regions\<close>: results, 32-bit arithmetic, words in memory, disjointness of
    regions (\<^verbatim>\<open>math.c\<close>, \<^verbatim>\<open>utils.c\<close>, \<^verbatim>\<open>memory.c\<close>);
  \<^item> \<open>Malloc\<close> with \<open>Malloc_Heap\<close>, \<open>Malloc_Correct\<close>, \<open>Malloc_Alloc\<close>, \<open>Malloc_Props\<close>: the allocator of \<^verbatim>\<open>malloc.c\<close>.
    The invariant \<open>heap_inv\<close> relates memory to the list of blocks; every operation is shown to refine
    one on that list;
  \<^item> \<open>Bitset\<close> (\<^verbatim>\<open>bitset.c\<close>), \<open>Paging\<close> with \<open>Paging_Correct\<close> and \<open>Paging_Props\<close> (\<^verbatim>\<open>paging.c\<close>): bit arrays, page
    tables, directories and their copies, translation after requests and releases;
  \<^item> \<open>Kstring\<close> (\<^verbatim>\<open>string.c\<close>), \<open>Printer\<close> (\<^verbatim>\<open>printer.c\<close>), \<open>Logging\<close> (\<^verbatim>\<open>logging.c\<close>), \<open>Dumps\<close> (the listings of the heap
    and of page directories);
  \<^item> \<open>Descriptors\<close> (\<^verbatim>\<open>gdt.c\<close>, \<^verbatim>\<open>idt.c\<close>, \<^verbatim>\<open>timer.c\<close> and the installation in \<^verbatim>\<open>isr.c\<close> and \<^verbatim>\<open>irq.c\<close>), \<open>Interrupts\<close> (the
    handlers and the dispatch there);
  \<^item> \<open>Klist\<close> with \<open>Klist_Props\<close> (\<^verbatim>\<open>list.c\<close>, \<^verbatim>\<open>queue.c\<close>): linked cells in memory.  That a queue of cells is the
    list of its elements is shown here; the other theories use lists;
  \<^item> \<open>Kernel\<close>, \<open>Scheduler\<close> (\<^verbatim>\<open>process.c\<close>, \<^verbatim>\<open>scheduler.c\<close>), \<open>Syscall\<close> (\<^verbatim>\<open>syscall.c\<close>), with \<open>Frame\<close> and
    \<open>Process_Table\<close> (what each operation leaves alone, and the invariant of the process table),
    \<open>Scheduler_Props\<close>, \<open>Switch_Props\<close> and \<open>Syscall_Props\<close>;
  \<^item> \<open>Ata\<close> (\<^verbatim>\<open>ata_pio.c\<close>), \<open>Filesystem\<close>, \<open>Directories\<close> and \<open>Files\<close> (\<^verbatim>\<open>filesystem.c\<close>), \<open>File_Table\<close> (\<^verbatim>\<open>fs_inter.c\<close>),
    \<open>File_Calls\<close> (the calls on files of \<^verbatim>\<open>syscall.c\<close>), \<open>Loader\<close> (\<^verbatim>\<open>elf.c\<close>, \<^verbatim>\<open>load_code\<close>), with \<open>Ata_Props\<close>,
    \<open>Filesystem_Props\<close>, \<open>Directory_Props\<close>, \<open>Allocation_Props\<close>, \<open>File_Props\<close>, \<open>Loader_Props\<close> and \<open>File_Frame\<close> (the calls on files
    keep the process table);
  \<^item> \<open>Shell\<close> and \<open>Shell_Files\<close> (\<^verbatim>\<open>shell.c\<close>), \<open>Keyboard\<close> (\<^verbatim>\<open>keyboard.c\<close>), with \<open>Shell_Props\<close> and
    \<open>Keyboard_Props\<close>;
  \<^item> \<open>Boot\<close> (\<^verbatim>\<open>kmain.c\<close>): the installation of all components in the order of the boot.

  \<^bold>\<open>Interfaces\<close> are locales, each interpreted on the definitions of its provider: \<open>bit_array\<close> (by
  \<open>Bitset\<close>), \<open>page_provider\<close> (what the allocator needs of the paging code, by \<open>Paging_Correct\<close>),
  \<open>pager_frame\<close> and \<open>allocator_frame\<close> (what paging and allocation leave alone; one is a sublocale of the
  other, since each calls the other), \<open>kernel_frame\<close> for the system calls, and its extension \<open>file_frame\<close> for
  those on files.
  \<^verbatim>\<open>malloc.c\<close> and \<^verbatim>\<open>paging.c\<close> call each other: each takes the other as a record of functions, and
  \<open>pager_at n\<close> is the composition where at most \<open>n\<close> calls are nested; with none left the stack of the
  kernel is exhausted, which is \<open>Hang\<close>.  The properties of the kernel hold for every \<open>n\<close>.

  \<^bold>\<open>What the theorems show.\<close>  Each is stated under its number next to its proof.
  \<^item> Memory: allocation and release keep the heap well formed and the blocks in use untouched, with and
    without paging; requests and releases of pages change the translation of exactly one page and the
    state of exactly one frame; arithmetic that wraps around in the size of a block and a page
    released twice break this.
  \<^item> Processes: the scheduler selects the first runnable process of the highest priority and goes round;
    a preempted process resumes with its registers, heap and directory; every sequence of system
    calls, interrupts and user steps keeps the table and the queues consistent.
  \<^item> Files: what is written to a direct block is read back; the search for a path walks through the
    directories as lists of names; the allocation of a block takes a free block
    and marks it, but can leave the volume; all transfers end when the drive answers; \<^verbatim>\<open>lseek\<close> stays in
    the file except for \<^verbatim>\<open>SEEK_END\<close>; loading an ELF file puts every segment where it belongs and nothing
    else.
  \<^item> Text: strings, numbers and their conversions, the terminal, boxes, the line editor and the history
    of the shell, the modifier keys of the keyboard.

  \<^bold>\<open>Bounds and fuel.\<close>  A \<open>for\<close> loop over a known number of elements is a recursion on that number.  Loops
  whose end depends on memory are \<open>partial_function (option)\<close>, with \<open>None\<close> made the error \<open>Hang\<close>, or
  \<open>function\<close>s with a measure.  A walk through the entries of a directory has \<open>entry_steps\<close>, one step more
  than the bytes of a block: an entry of size 0 makes the loop in C endless, and any other walk leaves
  the block before.  \<open>clone_passes\<close> has 1025 passes: each of them but the last copies at least one of the
  1024 page tables.  \<open>rm_dir\<close>, \<open>cwd_loop\<close> and \<open>kill_family\<close> follow links between directories or processes
  that may form a cycle; their fuel is an argument, and running out of it is \<open>Hang\<close>.  No
  property depends on its value; those of the keyboard hold for every fuel.  \<open>hlt\<close> takes the interrupts that arrive as a list.

  \<^bold>\<open>Parameters.\<close>  The answers of the disk controller are functions of a sector (\<open>poll_status\<close>,
  \<open>flush_status\<close>); \<open>drive_ready\<close> says that the drive gets ready without an error, as the ATA standard has
  it.  What the boot loader and the linker provide is in \<open>boot_info\<close>.  User programs appear as arbitrary
  steps that respect the memory of the kernel.

  \<^bold>\<open>Not modelled.\<close>  Port instructions, the loading of table registers and the assembly stubs: their effect
  on the C code (the saved registers, the values read from ports) is an argument.  The order of the
  writes that start a command of the disk is not recorded.  The messages of \<^verbatim>\<open>kloug\<close> are modelled as a
  function in \<open>Logging\<close> but left out of the other operations, since they only reach the serial port; a
  file name of more than 99 bytes overflows its buffer.  The words of a command line, the path
  and the history of the shell are lists of bytes without addresses, so that their allocation is not
  part of the shell's model; the lists of \<^verbatim>\<open>scheduler.c\<close> and of the shell are lists of Isabelle.
  \<^verbatim>\<open>kernel.c\<close>, \<^verbatim>\<open>kernel.h\<close> and \<^verbatim>\<open>main.c\<close> belong to an earlier simulator of the kernel: they are not compiled, and
  the types they use (\<^verbatim>\<open>state\<close>, \<^verbatim>\<open>registers\<close>, \<^verbatim>\<open>append\<close> and others) are no longer defined anywhere in
  the repository.  \<^verbatim>\<open>software_reset\<close>, \<^verbatim>\<open>serial_is_transmit_fifo_empty\<close> and \<^verbatim>\<open>timer_wait\<close> are never called,
  \<^verbatim>\<open>flush_spb\<close> is empty.  The test programs under \<^verbatim>\<open>src/progs\<close> only make system calls.
\<close>

end
